(* ===== verification/Prelude.thy ===== *)
theory Prelude
  imports Main
begin

text \<open>
  Shared library of the development: the collection of rules for runs the later theories
  extend, and document collections. A MongoDB collection is the list of its documents;
  the operations below are the ones the repositories use, each acting on the first
  document its filter matches. The locale \<open>ledger\<close> states what a uniquely indexed
  collection promises; the component theories interpret it on their own insert and
  lookup functions.
\<close>

named_theorems run_simps \<open>what a program does when it runs alone\<close>

section \<open>Collections\<close>

text \<open>\<open>updateOne\<close>: the first document the filter matches is replaced.\<close>

primrec update_one :: "('d \<Rightarrow> bool) \<Rightarrow> ('d \<Rightarrow> 'd) \<Rightarrow> 'd list \<Rightarrow> 'd list" where
  "update_one P f [] = []"
| "update_one P f (d # ds) = (if P d then f d # ds else d # update_one P f ds)"

text \<open>
  The document with the smallest sort key among those the filter matches, the first
  one on ties: \<open>findOne\<close> with \<open>sort\<close>.
\<close>

primrec find_least :: "('d \<Rightarrow> int) \<Rightarrow> ('d \<Rightarrow> bool) \<Rightarrow> 'd list \<Rightarrow> 'd option" where
  "find_least key P [] = None"
| "find_least key P (d # ds) =
     (case find_least key P ds of
        None \<Rightarrow> if P d then Some d else None
      | Some e \<Rightarrow> if P d \<and> key d \<le> key e then Some d else Some e)"

text \<open>Insertion under a unique index: refused when a document with the same key exists.\<close>

definition insert_unique :: "('d \<Rightarrow> 'k) \<Rightarrow> 'd \<Rightarrow> 'd list \<Rightarrow> 'd list option" where
  "insert_unique key d ds = (if key d \<in> key ` set ds then None else Some (ds @ [d]))"

lemma length_update_one [simp]: "length (update_one P f ds) = length ds"
  by (induction ds) auto

lemma update_one_id: "(\<And>d. d \<in> set ds \<Longrightarrow> \<not> P d) \<Longrightarrow> update_one P f ds = ds"
  by (induction ds) auto

lemma map_update_one:
  assumes "\<And>d. P d \<Longrightarrow> g (f d) = g d"
  shows "map g (update_one P f ds) = map g ds"
  using assms by (induction ds) auto

lemma set_update_one: "d \<in> set (update_one P f ds) \<Longrightarrow> d \<in> set ds \<or> (\<exists>e \<in> set ds. P e \<and> d = f e)"
  by (induction ds) (auto split: if_splits)

lemma update_one_in_set:
  assumes "d \<in> set ds" and "distinct (map ident ds)"
  shows "f d \<in> set (update_one (\<lambda>x. ident x = ident d) f ds)"
  using assms by (induction ds) (auto simp: image_iff)

lemma update_one_map:
  "distinct (map key ds) \<Longrightarrow> update_one (\<lambda>d. key d = k) f ds = map (\<lambda>d. if key d = k then f d else d) ds"
proof (induction ds)
  case (Cons d ds)
  have "map (\<lambda>x. if key x = k then f x else x) ds = ds" if "key d = k"
    using that Cons.prems by (auto simp: image_iff intro!: map_idI)
  with Cons show ?case by auto
qed simp

lemma find_Some_set: "find P ds = Some d \<Longrightarrow> d \<in> set ds \<and> P d"
  by (auto simp: find_Some_iff)

lemma find_cong_filter: "(\<And>d. d \<in> set ds \<Longrightarrow> P d = Q d) \<Longrightarrow> find P ds = find Q ds"
  by (induction ds) auto

lemma find_append: "find P (xs @ ys) = (case find P xs of None \<Rightarrow> find P ys | Some x \<Rightarrow> Some x)"
  by (induction xs) auto

lemma find_least_Some:
  "find_least key P ds = Some d \<Longrightarrow> d \<in> set ds \<and> P d \<and> (\<forall>e \<in> set ds. P e \<longrightarrow> key d \<le> key e)"
proof (induction ds arbitrary: d)
  case Nil
  then show ?case by simp
next
  case (Cons x ds)
  show ?case
  proof (cases "find_least key P ds")
    case None
    then have "\<forall>e \<in> set ds. \<not> P e"
      by (induction ds) (auto split: option.splits if_splits)
    with Cons.prems None show ?thesis by (auto split: if_splits)
  next
    case (Some e)
    from Cons.IH [OF Some] Cons.prems Some show ?thesis
      by (auto split: if_splits)
  qed
qed

lemma find_least_None: "find_least key P ds = None \<longleftrightarrow> (\<forall>d \<in> set ds. \<not> P d)"
  by (induction ds) (auto split: option.splits)

text \<open>The claim of the least claimable document, as a sort.\<close>

lemma insort_key_hd: "insort_key f x xs = (case xs of [] \<Rightarrow> [x] | y # ys \<Rightarrow> if f x \<le> f y then x # y # ys else y # insort_key f x ys)"
  by (cases xs) simp_all

lemma find_least_sort:
  "find_least key P ds = (case sort_key key (filter P ds) of [] \<Rightarrow> None | d # _ \<Rightarrow> Some d)"
proof (induction ds)
  case (Cons d ds)
  then show ?case by (cases "sort_key key (filter P ds)") (auto simp: insort_key_hd split: list.splits)
qed simp

lemma insort_key_app: "insort_key f x (ys @ [y]) = (if \<exists>z \<in> set (ys @ [y]). f x \<le> f z then insort_key f x ys @ [y] else ys @ [y, x])" if "f x \<le> f y"
  using that by (induction ys) auto

lemma sort_key_last:
  "(\<And>x. x \<in> set xs \<Longrightarrow> f x \<le> f y) \<Longrightarrow> sort_key f (xs @ [y]) = sort_key f xs @ [y]"
proof (induction xs)
  case (Cons x xs)
  then show ?case using insort_key_app [of f x y "sort_key f xs"] by simp
qed simp

section \<open>Decimal text\<close>

fun show_nat :: "nat \<Rightarrow> string" where
  "show_nat n = (if n < 10 then [char_of (48 + n)] else show_nat (n div 10) @ [char_of (48 + n mod 10)])"

definition show_int :: "int \<Rightarrow> string" where
  "show_int i = (if i < 0 then CHR ''-'' # show_nat (nat (- i)) else show_nat (nat i))"

declare show_nat.simps [simp del]

text \<open>Decimal digits, and the number a sequence of them denotes.\<close>

definition is_digit :: "char \<Rightarrow> bool" where
  "is_digit c \<longleftrightarrow> 48 \<le> (of_char c :: nat) \<and> (of_char c :: nat) \<le> 57"

definition read_nat :: "string \<Rightarrow> nat" where
  "read_nat v = foldl (\<lambda>n c. 10 * n + (of_char c - 48)) 0 v"

lemma show_nat_digits: "list_all is_digit (show_nat n)"
proof (induction n rule: show_nat.induct)
  case (1 n)
  have "n mod 10 < 10" by simp
  then have "n mod 10 \<le> 9" by linarith
  with 1 show ?case by (subst show_nat.simps) (simp add: is_digit_def [abs_def])
qed

lemma read_show_nat [simp]: "read_nat (show_nat n) = n"
  by (induction n rule: show_nat.induct) (subst show_nat.simps, simp add: read_nat_def)

text \<open>A value between single quotes, as the messages put it.\<close>

definition quoted :: "string \<Rightarrow> string" where
  "quoted v = CHR 0x27 # v @ [CHR 0x27]"

section \<open>Text\<close>

text \<open>
  JavaScript's white space among the code units up to 255, \<open>String.prototype.trim\<close>, the
  lower case of a letter A to Z, and \<open>split\<close> at a separator.
\<close>

definition js_space :: "char \<Rightarrow> bool" where
  "js_space c \<longleftrightarrow> c \<in> {CHR 0x09, CHR 0x0A, CHR 0x0B, CHR 0x0C, CHR 0x0D, CHR 0x20, CHR 0xA0}"

definition trim :: "string \<Rightarrow> string" where
  "trim v = rev (dropWhile js_space (rev (dropWhile js_space v)))"

definition lower :: "char \<Rightarrow> char" where
  "lower c = (let n = of_char c :: nat in if 65 \<le> n \<and> n \<le> 90 then char_of (n + 32) else c)"

lemma lower_idem [simp]: "lower (lower c) = lower c"
  by (simp add: lower_def Let_def of_char_of)

fun split_at :: "char \<Rightarrow> string \<Rightarrow> string list" where
  "split_at sep [] = [[]]"
| "split_at sep (c # cs) =
     (if c = sep then [] # split_at sep cs
      else case split_at sep cs of [] \<Rightarrow> [[c]] | part # parts \<Rightarrow> (c # part) # parts)"

fun join :: "string \<Rightarrow> string list \<Rightarrow> string" where
  "join sep [] = []"
| "join sep [part] = part"
| "join sep (part # parts) = part @ sep @ join sep parts"

lemma split_at_nonempty [simp]: "split_at sep v \<noteq> []"
  by (induction v) (auto split: list.split)

lemma split_at_plain: "sep \<notin> set v \<Longrightarrow> split_at sep v = [v]"
  by (induction v) auto

lemma split_at_append: "sep \<notin> set v \<Longrightarrow> split_at sep (v @ sep # rest) = v # split_at sep rest"
  by (induction v) (auto split: list.split)

lemma split_join:
  "parts \<noteq> [] \<Longrightarrow> \<forall>part \<in> set parts. sep \<notin> set part \<Longrightarrow> split_at sep (join [sep] parts) = parts"
  by (induction "[sep]" parts rule: join.induct) (auto simp: split_at_plain split_at_append)

section \<open>Keyed lookups\<close>

text \<open>The document with a given key, if any.\<close>

definition lookup :: "('d \<Rightarrow> 'k) \<Rightarrow> 'd list \<Rightarrow> 'k \<Rightarrow> 'd option" where
  "lookup key ds k = find (\<lambda>d. key d = k) ds"

lemma lookup_Nil [simp]: "lookup key [] k = None"
  by (simp add: lookup_def)

lemma lookup_Cons [simp]: "lookup key (d # ds) k = (if key d = k then Some d else lookup key ds k)"
  by (simp add: lookup_def)

lemma lookup_append: "lookup key (xs @ ys) k = (case lookup key xs k of None \<Rightarrow> lookup key ys k | Some d \<Rightarrow> Some d)"
  by (simp add: lookup_def find_append split: option.splits)

lemma lookup_key [dest]: "lookup key ds k = Some d \<Longrightarrow> key d = k"
  by (auto simp: lookup_def find_Some_iff)

lemma lookup_in_set: "lookup key ds k = Some d \<Longrightarrow> d \<in> set ds"
  by (auto simp: lookup_def find_Some_iff)

lemma lookup_None: "lookup key ds k = None \<longleftrightarrow> k \<notin> key ` set ds"
  by (auto simp: lookup_def find_None_iff)

lemma lookup_distinct:
  "distinct (map key ds) \<Longrightarrow> d \<in> set ds \<Longrightarrow> lookup key ds (key d) = Some d"
  by (induction ds) (auto simp: image_iff)

lemma lookup_insert_unique:
  assumes "insert_unique key d ds = Some ds'"
  shows "lookup key ds' = (lookup key ds)(key d := Some d)"
proof -
  from assms have new: "lookup key ds (key d) = None" and ds': "ds' = ds @ [d]"
    by (auto simp: insert_unique_def lookup_None split: if_splits)
  show ?thesis
    by (rule ext) (auto simp: ds' lookup_append new split: option.splits)
qed

lemma insert_unique_distinct:
  "insert_unique key d ds = Some ds' \<Longrightarrow> distinct (map key ds) \<Longrightarrow> distinct (map key ds')"
  by (auto simp: insert_unique_def split: if_splits)

lemma insert_unique_None: "insert_unique key d ds = None \<longleftrightarrow> lookup key ds (key d) \<noteq> None"
  by (auto simp: insert_unique_def lookup_None split: if_splits)

lemma lookup_keys: "map key xs = map key ys \<Longrightarrow> lookup key xs k = None \<longleftrightarrow> lookup key ys k = None"
  unfolding lookup_None by (metis list.set_map)

text \<open>
  An update whose filter pins the key touches only that key's document, and only when
  the rest of the filter matches it too.
\<close>

lemma lookup_update_one:
  assumes "\<And>d. key (f d) = key d" and "distinct (map key ds)"
  shows "lookup key (update_one (\<lambda>d. key d = k \<and> P d) f ds) =
    (lookup key ds)(k := map_option (\<lambda>d. if P d then f d else d) (lookup key ds k))"
proof
  fix j
  show "lookup key (update_one (\<lambda>d. key d = k \<and> P d) f ds) j =
    ((lookup key ds)(k := map_option (\<lambda>d. if P d then f d else d) (lookup key ds k))) j"
    using assms(2)
  proof (induction ds)
    case Nil
    then show ?case by simp
  next
    case (Cons d ds)
    show ?case
    proof (cases "key d = k")
      case True
      with Cons.prems have "update_one (\<lambda>d. key d = k \<and> P d) f ds = ds"
        by (intro update_one_id) (auto simp: image_iff)
      with True assms(1) show ?thesis by auto
    next
      case False
      with Cons assms(1) show ?thesis by auto
    qed
  qed
qed

section \<open>The interface of a uniquely indexed collection\<close>

text \<open>
  \<open>ins d ds\<close> inserts a document or reports a duplicate key with \<open>None\<close>; \<open>get ds k\<close>
  reads the document with key \<open>k\<close>. The laws are what a unique index promises.
\<close>

locale ledger =
  fixes key :: "'d \<Rightarrow> 'k"
    and ins :: "'d \<Rightarrow> 'd list \<Rightarrow> 'd list option"
    and get :: "'d list \<Rightarrow> 'k \<Rightarrow> 'd option"
  assumes ins_get: "ins d ds = Some ds' \<Longrightarrow> get ds' = (get ds)(key d := Some d)"
    and ins_dup: "ins d ds = None \<longleftrightarrow> get ds (key d) \<noteq> None"
    and ins_distinct: "ins d ds = Some ds' \<Longrightarrow> distinct (map key ds) \<Longrightarrow> distinct (map key ds')"
    and get_member: "get ds k = Some d \<Longrightarrow> d \<in> set ds \<and> key d = k"
    and get_complete: "d \<in> set ds \<Longrightarrow> get ds (key d) \<noteq> None"
begin

lemma ins_first: "ins d ds = Some ds' \<Longrightarrow> get ds (key d) = None"
  using ins_dup by (metis option.distinct(1))

lemma ins_reads_back: "ins d ds = Some ds' \<Longrightarrow> get ds' (key d) = Some d"
  by (simp add: ins_get)

lemma ins_keeps: "ins d ds = Some ds' \<Longrightarrow> get ds k = Some e \<Longrightarrow> get ds' k = Some e"
  using ins_first by (auto simp: ins_get)

lemma ins_twice: "ins d ds = Some ds' \<Longrightarrow> key e = key d \<Longrightarrow> ins e ds' = None"
  using ins_dup [of e ds'] by (simp add: ins_get)

lemma at_most_one:
  assumes "distinct (map key ds)"
  shows "length (filter (\<lambda>d. key d = k) ds) \<le> 1"
  using assms
proof (induction ds)
  case Nil
  then show ?case by simp
next
  case (Cons d ds)
  then show ?case
    by (cases "key d = k") (auto simp: filter_empty_conv image_iff)
qed

end

lemma insert_unique_ledger: "ledger key (insert_unique key) (lookup key)"
proof
  fix d :: 'a and ds ds' k
  show "insert_unique key d ds = Some ds' \<Longrightarrow> lookup key ds' = (lookup key ds)(key d := Some d)"
    by (rule lookup_insert_unique)
  show "insert_unique key d ds = None \<longleftrightarrow> lookup key ds (key d) \<noteq> None"
    by (rule insert_unique_None)
  show "insert_unique key d ds = Some ds' \<Longrightarrow> distinct (map key ds) \<Longrightarrow> distinct (map key ds')"
    by (rule insert_unique_distinct)
  show "lookup key ds k = Some d \<Longrightarrow> d \<in> set ds \<and> key d = k"
    by (auto dest: lookup_in_set)
  show "d \<in> set ds \<Longrightarrow> lookup key ds (key d) \<noteq> None"
    by (simp add: lookup_None)
qed

section \<open>Claims under a lease\<close>

text \<open>
  \<open>findOneAndUpdate\<close> with a sort: the claimable document with the least sort key is
  marked and returned as marked. \<open>claim_rows\<close> is any number of claims, one at each of the
  given times, and the documents they handed out.
\<close>

definition claim_row :: "('d \<Rightarrow> int) \<Rightarrow> ('d \<Rightarrow> 'k) \<Rightarrow> ('d \<Rightarrow> bool) \<Rightarrow> ('d \<Rightarrow> 'd) \<Rightarrow> 'd list \<Rightarrow> 'd option \<times> 'd list" where
  "claim_row order ident claimable mark ds =
     (case find_least order claimable ds of
        None \<Rightarrow> (None, ds)
      | Some d \<Rightarrow> (Some (mark d), update_one (\<lambda>e. ident e = ident d) mark ds))"

primrec claim_rows :: "('d \<Rightarrow> int) \<Rightarrow> ('d \<Rightarrow> 'k) \<Rightarrow> (int \<Rightarrow> 'd \<Rightarrow> bool) \<Rightarrow> (int \<Rightarrow> 'd \<Rightarrow> 'd) \<Rightarrow>
    int list \<Rightarrow> 'd list \<Rightarrow> 'd list \<times> 'd list" where
  "claim_rows order ident claimable mark [] ds = ([], ds)"
| "claim_rows order ident claimable mark (ts # moments) ds =
     (case claim_row order ident (claimable ts) (mark ts) ds of
        (claimed, ds') \<Rightarrow>
          (case claim_rows order ident claimable mark moments ds' of
             (rest, ds'') \<Rightarrow> (case claimed of None \<Rightarrow> rest | Some d \<Rightarrow> d # rest, ds'')))"

lemma claim_row_None: "claim_row order ident claimable mark ds = (None, ds') \<Longrightarrow> ds' = ds"
  by (auto simp: claim_row_def split: option.splits)

lemma claim_row_Some:
  assumes "claim_row order ident claimable mark ds = (Some d, ds')"
  obtains e where "e \<in> set ds" and "claimable e" and "\<And>x. x \<in> set ds \<Longrightarrow> claimable x \<Longrightarrow> order e \<le> order x"
    and "d = mark e" and "ds' = update_one (\<lambda>x. ident x = ident e) mark ds"
proof -
  from assms obtain e where "find_least order claimable ds = Some e"
    and "d = mark e" and "ds' = update_one (\<lambda>x. ident x = ident e) mark ds"
    by (auto simp: claim_row_def split: option.splits)
  with find_least_Some [OF this(1)] that show thesis by blast
qed

text \<open>
  What a lease promises: marking a document keeps its identity, and a marked document is
  not claimable before the lease has run out.
\<close>

locale claim_lease =
  fixes ident :: "'d \<Rightarrow> 'k"
    and claimable :: "int \<Rightarrow> 'd \<Rightarrow> bool"
    and mark :: "int \<Rightarrow> 'd \<Rightarrow> 'd"
    and duration :: int
  assumes ident_mark: "ident (mark ts d) = ident d"
    and held: "claimable later (mark ts d) \<Longrightarrow> ts + duration \<le> later"
begin

definition taken :: "int \<Rightarrow> 'd list \<Rightarrow> 'k set" where
  "taken horizon ds = {k. \<forall>d \<in> set ds. ident d = k \<longrightarrow> (\<forall>ts < horizon. \<not> claimable ts d)}"

lemma claim_takes:
  assumes claim: "claim_row order ident (claimable ts) (mark ts) ds = (Some d, ds')"
    and dist: "distinct (map ident ds)" and ts: "ts < horizon" "horizon \<le> ts + duration"
  shows "ident d \<notin> taken horizon ds" and "insert (ident d) (taken horizon ds) \<subseteq> taken horizon ds'"
    and "map ident ds' = map ident ds"
proof -
  obtain e where e: "e \<in> set ds" "claimable ts e" and d: "d = mark ts e"
    and ds': "ds' = update_one (\<lambda>x. ident x = ident e) (mark ts) ds"
    by (rule claim_row_Some [OF claim])
  show "ident d \<notin> taken horizon ds"
    using e ts by (auto simp: taken_def d ident_mark)
  show keys: "map ident ds' = map ident ds"
    unfolding ds' by (rule map_update_one) (rule ident_mark)
  have rows: "x \<in> set ds' \<Longrightarrow> (x \<in> set ds \<and> ident x \<noteq> ident e) \<or> x = mark ts e" for x
    unfolding ds' using dist e(1)
  proof (induction ds)
    case (Cons y ys)
    then show ?case by (auto simp: image_iff split: if_splits)
  qed simp
  show "insert (ident d) (taken horizon ds) \<subseteq> taken horizon ds'"
    using held ts rows by (fastforce simp: taken_def d ident_mark)
qed

lemma claims_disjoint:
  assumes "distinct (map ident ds)"
    and "\<And>ts. ts \<in> set moments \<Longrightarrow> ts < horizon \<and> horizon \<le> ts + duration"
  shows "distinct (map ident (fst (claim_rows order ident claimable mark moments ds)))
    \<and> set (map ident (fst (claim_rows order ident claimable mark moments ds))) \<inter> taken horizon ds = {}"
  using assms
proof (induction moments arbitrary: ds)
  case (Cons ts moments)
  obtain claimed ds' where claim: "claim_row order ident (claimable ts) (mark ts) ds = (claimed, ds')"
    by (cases "claim_row order ident (claimable ts) (mark ts) ds")
  obtain rest ds'' where rest: "claim_rows order ident claimable mark moments ds' = (rest, ds'')"
    by (cases "claim_rows order ident claimable mark moments ds'")
  show ?case
  proof (cases claimed)
    case None
    with claim have "ds' = ds" by (auto dest: claim_row_None)
    with Cons.IH [of ds] Cons.prems claim rest None show ?thesis by simp
  next
    case (Some d)
    have ts: "ts < horizon" "horizon \<le> ts + duration"
      using Cons.prems(2) by auto
    note takes = claim_takes [OF claim [unfolded Some] Cons.prems(1) ts]
    moreover from this Cons.IH [of ds'] Cons.prems rest
    have "distinct (map ident rest)" "set (map ident rest) \<inter> taken horizon ds' = {}" by simp_all
    ultimately show ?thesis
      using claim rest Some by auto
  qed
qed simp

end

end
