(* ===== verification/Program.thy ===== *)
theory Program
  imports Prelude
begin

text \<open>
  Asynchronous programs. An \<open>async\<close> function of the source is a value of type
  \<open>('s, 'e, 'a) prog\<close>: it has returned (\<open>Return\<close>), thrown (\<open>Throw\<close>), or waits to
  perform one atomic operation on the shared state \<open>'s\<close> (\<open>Atom\<close>), after which the
  rest of it is another program. \<open>await\<close> sequences, \<open>catching\<close> is try/catch.
  The same program is given two meanings: \<open>run\<close> performs its operations one after the
  other with nothing in between; the theory \<open>System\<close> interleaves the operations of any
  number of programs. \<open>safe\<close> is the proof notion for the second meaning: under
  interference that respects a rely, every operation of the program keeps an invariant
  and respects a guarantee.
\<close>

section \<open>Programs\<close>

datatype (dead 's, 'e, 'a) prog =
    Return 'a
  | Throw 'e
  | Atom "'s \<Rightarrow> 's \<times> ('s, 'e, 'a) prog"

primrec await :: "('s, 'e, 'a) prog \<Rightarrow> ('a \<Rightarrow> ('s, 'e, 'b) prog) \<Rightarrow> ('s, 'e, 'b) prog" where
  "await (Return a) k = k a"
| "await (Throw e) k = Throw e"
| "await (Atom f) k = Atom (\<lambda>s. map_prod id (\<lambda>p. await p k) (f s))"

primrec catching :: "('s, 'e, 'a) prog \<Rightarrow> ('e \<Rightarrow> ('s, 'e, 'a) prog) \<Rightarrow> ('s, 'e, 'a) prog" where
  "catching (Return a) h = Return a"
| "catching (Throw e) h = h e"
| "catching (Atom f) h = Atom (\<lambda>s. map_prod id (\<lambda>p. catching p h) (f s))"

text \<open>The outcome of a program as a value: the two ways a \<open>try\<close> block can end.\<close>

definition attempt :: "('s, 'e, 'a) prog \<Rightarrow> ('s, 'e, 'e + 'a) prog" where
  "attempt p = catching (await p (\<lambda>a. Return (Inr a))) (\<lambda>e. Return (Inl e))"

text \<open>Induction on the operations to come: what holds of the rest of a program after its next operation, whatever that finds.\<close>

lemma prog_operations [case_names Return Throw Atom]:
  assumes "\<And>a. P (Return a)" and "\<And>e. P (Throw e)" and "\<And>f. (\<And>s. P (snd (f s))) \<Longrightarrow> P (Atom f)"
  shows "P p"
proof (induction p)
  case (Atom f)
  have "P (snd (f s))" for s
  proof (cases "f s")
    case (Pair t q)
    then have "(t, q) \<in> range f" by (metis rangeI)
    from Atom [OF this] Pair show ?thesis by simp
  qed
  then show ?case by (rule assms(3))
qed (fact assms)+

section \<open>Running a program alone\<close>

primrec run :: "('s, 'e, 'a) prog \<Rightarrow> 's \<Rightarrow> ('e + 'a) \<times> 's" where
  "run (Return a) s = (Inr a, s)"
| "run (Throw e) s = (Inl e, s)"
| "run (Atom f) s = (case map_prod id run (f s) of (t, r) \<Rightarrow> r t)"

text \<open>The first \<open>n\<close> operations of a program, and what remains of it.\<close>

primrec advance :: "nat \<Rightarrow> 's \<times> ('s, 'e, 'a) prog \<Rightarrow> 's \<times> ('s, 'e, 'a) prog" where
  "advance 0 c = c"
| "advance (Suc n) c = (case snd c of Atom f \<Rightarrow> advance n (f (fst c)) | _ \<Rightarrow> c)"

lemma run_await [run_simps]: "run (await p k) s = (case run p s of (Inl e, t) \<Rightarrow> (Inl e, t) | (Inr a, t) \<Rightarrow> run (k a) t)"
  by (induction p arbitrary: s rule: prog_operations) (simp_all add: map_prod_def split_beta)

lemma run_catching [run_simps]: "run (catching p h) s = (case run p s of (Inl e, t) \<Rightarrow> run (h e) t | (Inr a, t) \<Rightarrow> (Inr a, t))"
  by (induction p arbitrary: s rule: prog_operations) (simp_all add: map_prod_def split_beta)

lemma run_attempt [run_simps]: "run (attempt p) s = (case run p s of (r, t) \<Rightarrow> (Inr r, t))"
  by (simp add: attempt_def run_await run_catching split: prod.splits sum.splits)

section \<open>How a program ends\<close>

text \<open>What a program may return and throw, whatever the states it meets are.\<close>

primrec ends :: "('a \<Rightarrow> bool) \<Rightarrow> ('e \<Rightarrow> bool) \<Rightarrow> ('s, 'e, 'a) prog \<Rightarrow> bool" where
  "ends Q E (Return a) = Q a"
| "ends Q E (Throw e) = E e"
| "ends Q E (Atom f) = (\<forall>s. snd (map_prod id (ends Q E) (f s)))"

lemma ends_mono: "ends Q E p \<Longrightarrow> (\<And>a. Q a \<Longrightarrow> Q' a) \<Longrightarrow> (\<And>e. E e \<Longrightarrow> E' e) \<Longrightarrow> ends Q' E' p"
  by (induction p rule: prog_operations) simp_all

lemma ends_await: "ends (\<lambda>a. ends Q E (k a)) E p \<Longrightarrow> ends Q E (await p k)"
  by (induction p rule: prog_operations) simp_all

lemma ends_catching: "ends Q (\<lambda>e. ends Q E (h e)) p \<Longrightarrow> ends Q E (catching p h)"
  by (induction p rule: prog_operations) simp_all

lemma ends_attempt: "ends (\<lambda>a. Q (Inr a)) (\<lambda>e. Q (Inl e)) p \<Longrightarrow> ends Q E (attempt p)"
  unfolding attempt_def by (rule ends_catching, rule ends_await) simp

lemma ends_run: "ends Q E p \<Longrightarrow> (case run p s of (Inr a, _) \<Rightarrow> Q a | (Inl e, _) \<Rightarrow> E e)"
  by (induction p arbitrary: s rule: prog_operations) (simp_all add: split_beta)

section \<open>Programs under interference\<close>

text \<open>
  \<open>safe R G I Q E p s\<close>: started after state \<open>s\<close>, with other programs changing the
  state by \<open>R\<close>-steps between its own operations, every operation of \<open>p\<close> from a state
  satisfying \<open>I\<close> is a \<open>G\<close>-step to a state satisfying \<open>I\<close>; when \<open>p\<close> returns or
  throws, \<open>Q\<close> or \<open>E\<close> hold of the result and the state its last operation left.
\<close>

primrec safe :: "('s \<Rightarrow> 's \<Rightarrow> bool) \<Rightarrow> ('s \<Rightarrow> 's \<Rightarrow> bool) \<Rightarrow> ('s \<Rightarrow> bool) \<Rightarrow>
    ('a \<Rightarrow> 's \<Rightarrow> bool) \<Rightarrow> ('e \<Rightarrow> 's \<Rightarrow> bool) \<Rightarrow> ('s, 'e, 'a) prog \<Rightarrow> 's \<Rightarrow> bool" where
  "safe R G I Q E (Return a) s = Q a s"
| "safe R G I Q E (Throw e) s = E e s"
| "safe R G I Q E (Atom f) s =
     (\<forall>t. R s t \<longrightarrow> I t \<longrightarrow>
        (case map_prod id (safe R G I Q E) (f t) of (u, ok) \<Rightarrow> G t u \<and> I u \<and> ok u))"

lemma range_pair: "f s = (t, p) \<Longrightarrow> (t, p) \<in> range f"
  by (metis rangeI)

lemma safe_step:
  assumes "safe R G I Q E (Atom f) s" and "R s t" and "I t" and "f t = (u, p)"
  shows "G t u" and "I u" and "safe R G I Q E p u"
  using assms by auto

lemma safe_AtomI:
  assumes "\<And>t u p. R s t \<Longrightarrow> I t \<Longrightarrow> f t = (u, p) \<Longrightarrow> G t u \<and> I u \<and> safe R G I Q E p u"
  shows "safe R G I Q E (Atom f) s"
  using assms [OF _ _ prod.collapse [symmetric]] by (simp add: split_beta)

lemma safe_await:
  assumes "safe R G I (\<lambda>a. safe R G I Q E (k a)) E p s"
  shows "safe R G I Q E (await p k) s"
  using assms
  by (induction p arbitrary: s rule: prog_operations) (simp_all add: map_prod_def split_beta)

lemma safe_catching:
  assumes "safe R G I Q (\<lambda>e. safe R G I Q E (h e)) p s"
  shows "safe R G I Q E (catching p h) s"
  using assms
  by (induction p arbitrary: s rule: prog_operations) (simp_all add: map_prod_def split_beta)

lemma safe_conseq:
  assumes "safe R G I Q E p s"
    and "\<And>a t. Q a t \<Longrightarrow> Q' a t" and "\<And>e t. E e t \<Longrightarrow> E' e t"
  shows "safe R G I Q' E' p s"
  using assms(1)
  by (induction p arbitrary: s rule: prog_operations) (simp_all add: assms(2,3) map_prod_def split_beta)

lemma safe_attempt:
  assumes "safe R G I (\<lambda>a. Q (Inr a)) (\<lambda>e. Q (Inl e)) p s"
  shows "safe R G I Q E (attempt p) s"
  unfolding attempt_def
  by (rule safe_catching, rule safe_await) (rule safe_conseq [OF assms], simp_all)

lemma safe_option:
  assumes "x = None \<Longrightarrow> safe R G I Q E n s" and "\<And>a. x = Some a \<Longrightarrow> safe R G I Q E (f a) s"
  shows "safe R G I Q E (case x of None \<Rightarrow> n | Some a \<Rightarrow> f a) s"
  using assms by (cases x) simp_all

text \<open>
  The interface of the interference framework: a reflexive and transitive rely that
  contains the guarantee. A program that is safe stays safe while others run.
\<close>

locale rely_guarantee =
  fixes R G :: "'s \<Rightarrow> 's \<Rightarrow> bool" and I :: "'s \<Rightarrow> bool"
  assumes rely_refl: "R s s"
    and rely_trans: "R s t \<Longrightarrow> R t u \<Longrightarrow> R s u"
    and guarantee_rely: "G s t \<Longrightarrow> R s t"
begin

lemma safe_later:
  assumes "safe R G I (\<lambda>_ _. True) (\<lambda>e _. E e) p s" and "R s t"
  shows "safe R G I (\<lambda>_ _. True) (\<lambda>e _. E e) p t"
proof (cases p)
  case (Atom f)
  show ?thesis
    unfolding Atom
  proof (rule safe_AtomI)
    fix t' u q
    assume "R t t'" and I: "I t'" and f: "f t' = (u, q)"
    with assms(2) have R: "R s t'" by (blast intro: rely_trans)
    from safe_step [OF assms(1) [unfolded Atom] R I f]
    show "G t' u \<and> I u \<and> safe R G I (\<lambda>_ _. True) (\<lambda>e _. E e) q u" by simp
  qed
qed (use assms in simp_all)

lemma safe_now:
  assumes "safe R G I Q E (Atom f) s" and "I s" and "f s = (u, p)"
  shows "R s u" and "G s u" and "I u" and "safe R G I Q E p u"
  using safe_step [OF assms(1) rely_refl assms(2,3)] guarantee_rely by auto

text \<open>Its end state is one the interference and its own steps can have led to.\<close>

lemma safe_frame:
  assumes "safe R G I Q E p s" and "R b s" and "I s"
  shows "safe R G I (\<lambda>a u. R b u \<and> I u \<and> Q a u) (\<lambda>e u. R b u \<and> I u \<and> E e u) p s"
  using assms
proof (induction p arbitrary: s)
  case (Atom f)
  show ?case
  proof (rule safe_AtomI)
    fix t u p
    assume R: "R s t" and I: "I t" and f: "f t = (u, p)"
    note step = safe_step [OF Atom.prems(1) R I f]
    have "R b u"
      using rely_trans [OF Atom.prems(2) rely_trans [OF R guarantee_rely [OF step(1)]]] .
    from Atom.IH [OF range_pair [of f t, OF f] _ step(3) this step(2)] step
    show "G t u \<and> I u \<and> safe R G I (\<lambda>a u. R b u \<and> I u \<and> Q a u) (\<lambda>e u. R b u \<and> I u \<and> E e u) p u"
      by simp
  qed
qed simp_all

text \<open>The rules component proofs chain: what one part establishes, the next may use.\<close>

lemma safe_post:
  assumes "safe R G I P F p s" and "I s"
    and "\<And>a u. R s u \<Longrightarrow> I u \<Longrightarrow> P a u \<Longrightarrow> Q a u" and "\<And>e u. R s u \<Longrightarrow> I u \<Longrightarrow> F e u \<Longrightarrow> E e u"
  shows "safe R G I Q E p s"
  by (rule safe_conseq [OF safe_frame [OF assms(1) rely_refl assms(2)]]) (auto intro: assms(3,4))

lemma safe_then:
  assumes "safe R G I P E p s" and "I s"
    and "\<And>a u. R s u \<Longrightarrow> I u \<Longrightarrow> P a u \<Longrightarrow> safe R G I Q E (k a) u"
  shows "safe R G I Q E (await p k) s"
  by (rule safe_await, rule safe_post [OF assms(1,2)]) (auto intro: assms(3))

lemma safe_handled:
  assumes "safe R G I Q F p s" and "I s"
    and "\<And>e u. R s u \<Longrightarrow> I u \<Longrightarrow> F e u \<Longrightarrow> safe R G I Q E (h e) u"
  shows "safe R G I Q E (catching p h) s"
  by (rule safe_catching, rule safe_post [OF assms(1,2)]) (auto intro: assms(3))

text \<open>A safe program run alone keeps the invariant and ends in its postcondition.\<close>

lemma safe_run:
  assumes "safe R G I Q E p s" and "I s" and "run p s = (r, t)"
  shows "I t \<and> R s t \<and> (case r of Inl e \<Rightarrow> E e t | Inr a \<Rightarrow> Q a t)"
  using assms
proof (induction p arbitrary: s)
  case (Return a)
  then show ?case by (auto simp: rely_refl)
next
  case (Throw e)
  then show ?case by (auto simp: rely_refl)
next
  case (Atom f)
  obtain u q where f: "f s = (u, q)" by (cases "f s")
  from safe_now [OF Atom.prems(1,2) f] Atom.IH [OF range_pair [of f s, OF f]] Atom.prems(3) f
  show ?case by (auto intro: rely_trans)
qed

end

end
