(* ===== verification/Errors.thy ===== *)
theory Errors
  imports Program
begin

text \<open>
  Everything the source throws, as one type, and the two places that inspect it:
  \<open>common/mongo.util.ts\<close> (which errors are duplicate keys, what their message is) and
  \<open>common/filters/domain-exception.filter.ts\<close> (which HTTP answer an error becomes).
  The error classes are those of \<open>common/errors/domain.errors.ts\<close>,
  \<open>inventory/inventory.errors.ts\<close> and \<open>payment/payment.service.ts\<close>.
\<close>

section \<open>Error values\<close>

text \<open>The body of an \<open>HttpException\<close>: a bare string, or an object.\<close>

record error_json =
  ej_status :: int
  ej_code :: "string option"
  ej_message :: "string list"

datatype exception_body = TextBody string | JsonBody error_json

text \<open>
  \<open>MongoError code keyPattern message\<close> is the driver's error, \<open>keyPattern\<close> the fields of
  the index it names. The last three constructors are values that are not \<open>Error\<close>
  objects: a string, an object with a \<open>message\<close>, anything else. \<open>OutOfFuel\<close> is not
  thrown by the source: it marks a model loop cut off by its bound.
\<close>

datatype exn =
    MongoError int "string list option" string
  | PlainError string
  | NoWarehouseAvailableError
  | InsufficientStockError string
  | PaymentGatewayTimeoutError
  | UnprocessableOrderError string string
  | IdempotencyKeyReuseError string
  | ConcurrentRequestError
  | OrderNotFoundError string
  | HttpException int exception_body
  | ThrownString string
  | ThrownMessage string
  | ThrownOther
  | OutOfFuel

section \<open>Duplicate keys and messages (common/mongo.util.ts)\<close>

definition isDuplicateKeyError :: "exn \<Rightarrow> string option \<Rightarrow> bool" where
  "isDuplicateKeyError error field =
     (case error of
        MongoError code keyPattern _ \<Rightarrow>
          if code \<noteq> 11000 then False
          else if field = None \<or> field = Some [] then True
          else (case keyPattern of None \<Rightarrow> False | Some pattern \<Rightarrow> the field \<in> set pattern)
      | _ \<Rightarrow> False)"

definition duplicate_key :: "string list \<Rightarrow> exn" where
  "duplicate_key pattern = MongoError 11000 (Some pattern) ''E11000 duplicate key error''"

lemma duplicate_key_field [simp]:
  "isDuplicateKeyError (duplicate_key pattern) (Some f) \<longleftrightarrow> f = [] \<or> f \<in> set pattern"
  by (auto simp: isDuplicateKeyError_def duplicate_key_def)

primrec exn_message :: "exn \<Rightarrow> string" where
  "exn_message (MongoError code keyPattern msg) = msg"
| "exn_message (PlainError msg) = msg"
| "exn_message NoWarehouseAvailableError =
     ''No warehouse found with sufficient stock for the requested products.''"
| "exn_message (InsufficientStockError productId) =
     ''Insufficient stock for product '' @ productId @ ''.''"
| "exn_message PaymentGatewayTimeoutError =
     ''Payment gateway did not respond in time; the charge outcome is unknown.''"
| "exn_message (UnprocessableOrderError code msg) = msg"
| "exn_message (IdempotencyKeyReuseError existingOrderId) =
     ''This Idempotency-Key was already used for a different request body. '' @
     ''Use a new key for a new order, or replay the original request exactly.''"
| "exn_message ConcurrentRequestError =
     ''A request with this Idempotency-Key is currently being processed. Retry in a moment.''"
| "exn_message (OrderNotFoundError orderId) = ''Order '' @ orderId @ '' not found.''"
| "exn_message (HttpException status body) =
     (case body of TextBody msg \<Rightarrow> msg | JsonBody j \<Rightarrow> concat (ej_message j))"
| "exn_message (ThrownString msg) = msg"
| "exn_message (ThrownMessage msg) = msg"
| "exn_message ThrownOther = ''An unexpected error occurred''"
| "exn_message OutOfFuel = []"

definition getErrorMessage :: "exn \<Rightarrow> string" where
  "getErrorMessage error = exn_message error"

section \<open>Domain errors and their HTTP answer (domain.errors.ts, domain-exception.filter.ts)\<close>

text \<open>\<open>Some (status, code)\<close> for the subclasses of \<open>DomainError\<close>.\<close>

definition domain_error :: "exn \<Rightarrow> (int \<times> string) option" where
  "domain_error e =
     (case e of
        UnprocessableOrderError code _ \<Rightarrow> Some (422, code)
      | IdempotencyKeyReuseError _ \<Rightarrow> Some (422, ''IDEMPOTENCY_KEY_REUSED'')
      | ConcurrentRequestError \<Rightarrow> Some (409, ''REQUEST_IN_PROGRESS'')
      | OrderNotFoundError _ \<Rightarrow> Some (404, ''ORDER_NOT_FOUND'')
      | _ \<Rightarrow> None)"

definition exception_filter :: "exn \<Rightarrow> int \<times> error_json" where
  "exception_filter e =
     (case domain_error e of
        Some (status, code) \<Rightarrow>
          (status, \<lparr>ej_status = status, ej_code = Some code, ej_message = [exn_message e]\<rparr>)
      | None \<Rightarrow>
          (case e of
             HttpException status body \<Rightarrow>
               (status, case body of
                  TextBody msg \<Rightarrow> \<lparr>ej_status = status, ej_code = None, ej_message = [msg]\<rparr>
                | JsonBody j \<Rightarrow> j)
           | _ \<Rightarrow>
               (500, \<lparr>ej_status = 500, ej_code = Some ''INTERNAL_ERROR'',
                      ej_message = [''Internal server error'']\<rparr>)))"

text \<open>The exceptions Nest's helpers build: an object body with status and message.\<close>

definition BadRequestException :: "string option \<Rightarrow> string list \<Rightarrow> exn" where
  "BadRequestException code msgs =
     HttpException 400 (JsonBody \<lparr>ej_status = 400, ej_code = code, ej_message = msgs\<rparr>)"

definition NotFoundException :: "string \<Rightarrow> exn" where
  "NotFoundException msg =
     HttpException 404 (JsonBody \<lparr>ej_status = 404, ej_code = None, ej_message = [msg]\<rparr>)"

definition GatewayTimeoutException :: "string \<Rightarrow> exn" where
  "GatewayTimeoutException msg =
     HttpException 504 (JsonBody \<lparr>ej_status = 504, ej_code = None, ej_message = [msg]\<rparr>)"

text \<open>
  Only domain errors and HTTP exceptions reach the client with a status of their own;
  everything else is an opaque 500 whose body carries nothing of the error.
\<close>

lemma exception_filter_opaque:
  assumes "domain_error e = None" and "\<And>status body. e \<noteq> HttpException status body"
  shows "exception_filter e =
    (500, \<lparr>ej_status = 500, ej_code = Some ''INTERNAL_ERROR'', ej_message = [''Internal server error'']\<rparr>)"
  using assms by (cases e) (auto simp: exception_filter_def)

end
