(* ===== verification/Status.thy ===== *)
theory Status
  imports Errors
begin

text \<open>
  The order saga's state machine, \<open>orders/order-status.ts\<close>. \<open>saga_edge\<close> is the diagram of
  its header comment, the specification every transition of the system is checked
  against. Its reflexive-transitive closure is a partial order on the statuses, so
  \<open>s \<le> t\<close> reads: an order in status \<open>s\<close> can still reach \<open>t\<close>.
\<close>

datatype order_status =
    PENDING | STOCK_RESERVED | PAYMENT_AUTHORIZED | COMPLETED
  | COMPENSATING | COMPENSATED | FAILED

definition ORDER_STATUSES :: "order_status list" where
  "ORDER_STATUSES =
     [PENDING, STOCK_RESERVED, PAYMENT_AUTHORIZED, COMPLETED, COMPENSATING, COMPENSATED, FAILED]"

definition TERMINAL_STATUSES :: "order_status list" where
  "TERMINAL_STATUSES = [COMPLETED, COMPENSATED, FAILED]"

definition isTerminal :: "order_status \<Rightarrow> bool" where
  "isTerminal status = (status \<in> set TERMINAL_STATUSES)"

datatype failure_code = OUT_OF_STOCK | PAYMENT_DECLINED | RECONCILED_TIMEOUT | RECONCILED_NO_CHARGE

section \<open>The diagram as a relation and as an order\<close>

fun saga_edge :: "order_status \<Rightarrow> order_status \<Rightarrow> bool" where
  "saga_edge PENDING STOCK_RESERVED = True"
| "saga_edge PENDING FAILED = True"
| "saga_edge STOCK_RESERVED PAYMENT_AUTHORIZED = True"
| "saga_edge STOCK_RESERVED COMPENSATING = True"
| "saga_edge PAYMENT_AUTHORIZED COMPLETED = True"
| "saga_edge COMPENSATING COMPENSATED = True"
| "saga_edge _ _ = False"

text \<open>How far a status is from the start; every edge increases it by one.\<close>

primrec stage :: "order_status \<Rightarrow> nat" where
  "stage PENDING = 0"
| "stage STOCK_RESERVED = 1"
| "stage PAYMENT_AUTHORIZED = 2"
| "stage COMPENSATING = 2"
| "stage COMPLETED = 3"
| "stage COMPENSATED = 3"
| "stage FAILED = 1"

instantiation order_status :: order_bot
begin

definition less_eq_order_status :: "order_status \<Rightarrow> order_status \<Rightarrow> bool" where
  "s \<le> t \<longleftrightarrow> s = t \<or> s = PENDING \<or> (s = STOCK_RESERVED \<and> t \<notin> {PENDING, FAILED})
     \<or> (s = PAYMENT_AUTHORIZED \<and> t = COMPLETED) \<or> (s = COMPENSATING \<and> t = COMPENSATED)"

definition less_order_status :: "order_status \<Rightarrow> order_status \<Rightarrow> bool" where
  "s < t \<longleftrightarrow> s \<le> t \<and> s \<noteq> (t :: order_status)"

definition bot_order_status :: order_status where
  "bot = PENDING"

instance
proof
  fix s t u :: order_status
  show "s \<le> s" by (simp add: less_eq_order_status_def)
  show "s < t \<longleftrightarrow> s \<le> t \<and> \<not> t \<le> s" "s \<le> t \<Longrightarrow> t \<le> u \<Longrightarrow> s \<le> u" "s \<le> t \<Longrightarrow> t \<le> s \<Longrightarrow> s = t"
    by (auto simp: less_order_status_def less_eq_order_status_def)
  show "bot \<le> s" by (simp add: bot_order_status_def less_eq_order_status_def)
qed

end

lemmas status_order_defs = less_eq_order_status_def less_order_status_def bot_order_status_def

lemma saga_edge_less: "saga_edge s t \<Longrightarrow> s < t"
  by (cases s; cases t) (auto simp: status_order_defs)

lemma less_stage: "(s :: order_status) < t \<Longrightarrow> stage s < stage t"
  by (cases s; cases t) (auto simp: status_order_defs)

lemma stage_le: "stage s \<le> 3"
  by (cases s) auto

lemma status_le_rtranclp: "s \<le> t \<longleftrightarrow> saga_edge\<^sup>*\<^sup>* s t"
proof
  assume "saga_edge\<^sup>*\<^sup>* s t"
  then show "s \<le> t"
    by (induction rule: rtranclp_induct) (auto dest: saga_edge_less)
next
  have edge: "saga_edge a b \<Longrightarrow> saga_edge\<^sup>*\<^sup>* b c \<Longrightarrow> saga_edge\<^sup>*\<^sup>* a c" for a b c
    by (rule converse_rtranclp_into_rtranclp)
  have reserved: "saga_edge\<^sup>*\<^sup>* STOCK_RESERVED u" if "u \<notin> {PENDING, FAILED}" for u
    using that edge [of STOCK_RESERVED PAYMENT_AUTHORIZED] edge [of PAYMENT_AUTHORIZED COMPLETED]
      edge [of STOCK_RESERVED COMPENSATING] edge [of COMPENSATING COMPENSATED]
    by (cases u) auto
  have pending: "saga_edge\<^sup>*\<^sup>* PENDING u" for u
    using edge [of PENDING STOCK_RESERVED u] edge [of PENDING FAILED u] reserved [of u]
    by (cases u) auto
  assume "s \<le> t"
  then show "saga_edge\<^sup>*\<^sup>* s t"
    using pending reserved by (auto simp: less_eq_order_status_def)
qed

text \<open>The terminal statuses are exactly those the diagram gives no way out of.\<close>

lemma isTerminal_iff_maximal: "isTerminal s \<longleftrightarrow> (\<forall>t. s \<le> t \<longrightarrow> t = s)"
  by (cases s) (auto simp: isTerminal_def TERMINAL_STATUSES_def less_eq_order_status_def)

lemma isTerminal_simps [simp]:
  "isTerminal COMPLETED" "isTerminal COMPENSATED" "isTerminal FAILED"
  "\<not> isTerminal PENDING" "\<not> isTerminal STOCK_RESERVED"
  "\<not> isTerminal PAYMENT_AUTHORIZED" "\<not> isTerminal COMPENSATING"
  by (simp_all add: isTerminal_def TERMINAL_STATUSES_def)

lemma terminal_le: "isTerminal s \<Longrightarrow> s \<le> t \<Longrightarrow> t = s"
  by (simp add: isTerminal_iff_maximal)

end
