(* ===== verification/Model.thy ===== *)
theory Model
  imports Status Complex_Main
begin

text \<open>
  The data of the program: one record per document schema, the enums as datatypes, and
  the state the operations share: the database's collections, the job queue and the
  environment (clock, links, random source). Every document of the database is a record
  of the fields its schema declares; an optional field is an option. An ObjectId is
  the lower-case hexadecimal text \<open>toString\<close> gives; \<open>new Types.ObjectId\<close> accepts either
  case and gives that form. Dates are milliseconds.
\<close>

type_synonym object_id = string
type_synonym date = int

definition ObjectId :: "string \<Rightarrow> object_id" where
  "ObjectId text = map lower text"

definition is_hex :: "char \<Rightarrow> bool" where
  "is_hex c \<longleftrightarrow> (let n = of_char c :: nat in (48 \<le> n \<and> n \<le> 57) \<or> (65 \<le> n \<and> n \<le> 70) \<or> (97 \<le> n \<and> n \<le> 102))"

text \<open>\<open>@IsMongoId\<close>: the hexadecimal text of an ObjectId.\<close>

definition is_mongo_id :: "string \<Rightarrow> bool" where
  "is_mongo_id v \<longleftrightarrow> length v = 24 \<and> list_all is_hex v"

lemma ObjectId_idem [simp]: "ObjectId (ObjectId v) = ObjectId v"
  by (simp add: ObjectId_def lower_idem)

lemma is_mongo_ObjectId: "is_mongo_id v \<Longrightarrow> is_mongo_id (ObjectId v)"
  by (auto simp: is_mongo_id_def ObjectId_def list_all_iff is_hex_def lower_def Let_def of_char_of)

section \<open>Inventory documents (inventory/schemas)\<close>

record coordinates =
  latitude :: rat
  longitude :: rat

record warehouse =
  w_id :: object_id
  w_location :: coordinates

record stock_row =
  s_warehouse :: object_id
  s_product :: object_id
  s_quantity :: int

record reservation_item =
  i_product :: object_id
  i_quantity :: int

datatype movement_kind = RESERVE | RELEASE

record stock_movement =
  m_order :: object_id
  m_kind :: movement_kind
  m_warehouse :: object_id
  m_items :: "reservation_item list"

section \<open>Payment (payment/dto, mockdata/schemas/psp-charge.schema.ts)\<close>

record payment_result =
  p_success :: bool
  p_key :: "string option"
  p_transaction :: "string option"
  p_error :: "string option"
  p_amount :: "int option"
  p_charged_at :: "date option"

record authorize_dto =
  a_key :: string
  a_card :: string
  a_amount :: int
  a_description :: string

datatype charge_status = SUCCEEDED | DECLINED

record psp_charge =
  c_key :: string
  c_transaction :: string
  c_amount :: int
  c_status :: charge_status
  c_error :: "string option"
  c_created :: "date option"

datatype card_status = APPROVE | DECLINE

record credit_card =
  cc_id :: object_id
  cc_number :: string
  cc_status :: card_status
  cc_reason :: "string option"

section \<open>The other mock directories (mockdata/schemas)\<close>

record customer =
  cu_id :: object_id
  cu_name :: string
  cu_card :: string

record product =
  pr_id :: object_id
  pr_name :: string
  pr_description :: "string option"
  pr_price :: rat

record mock_address =
  ad_id :: object_id
  ad_address :: string
  ad_location :: coordinates

section \<open>Orders (orders/schemas/order.schema.ts)\<close>

record order_item =
  oi_product :: object_id
  oi_quantity :: int
  oi_unit_price :: int

record order =
  o_id :: object_id
  o_key :: string
  o_fingerprint :: string
  o_customer :: object_id
  o_address :: string
  o_coordinates :: coordinates
  o_items :: "order_item list"
  o_total :: int
  o_warehouse :: "object_id option"
  o_status :: order_status
  o_payment :: "payment_result option"
  o_error :: "string option"
  o_failure :: "failure_code option"
  o_sweep_lease :: "date option"
  o_sweep_attempts :: int
  o_created :: date
  o_updated :: date

section \<open>Outbox and queue (orders/outbox, orders/queue)\<close>

datatype outbox_status = NEW | DISPATCHED | OUTBOX_FAILED

record outbox_event =
  e_id :: object_id
  e_type :: string
  e_aggregate :: object_id
  e_payload_order :: string
  e_status :: outbox_status
  e_attempts :: int
  e_next_retry :: date
  e_claimed :: "date option"
  e_dispatched :: "date option"
  e_error :: "string option"

record job =
  j_id :: string
  j_order :: string
  j_outbox :: string
  j_attempts :: int
  j_backoff :: int

section \<open>Configuration (config/orders.config.ts, queue.config.ts, payment.config.ts)\<close>

record orders_config =
  outbox_poll_interval :: int
  outbox_batch_size :: nat
  outbox_claim_timeout :: int
  outbox_max_attempts :: int
  outbox_enabled :: bool
  sweeper_stale_after :: int
  sweeper_lease :: int
  sweeper_batch_size :: nat
  sweeper_enabled :: bool

record queue_config =
  redis_uri :: string
  queue_concurrency :: int
  queue_attempts :: int
  queue_backoff :: int
  worker_enabled :: bool

record payment_config =
  latency_ms :: int
  failure_rate :: rat
  lost_response_rate :: rat

section \<open>The shared state\<close>

text \<open>
  A link carries a request and its reply: either can be lost, and when the reply is lost
  the operation has nonetheless happened. \<open>geo_near\<close> is the database's \<open>$geoNear\<close> stage
  (the collection's warehouses for a point, nearest first), \<open>random\<close> and \<open>uuid\<close> are
  the next values of \<open>Math.random\<close> and \<open>randomUUID\<close>, \<open>fresh_id\<close> the next ObjectId,
  \<open>id_valid\<close> the driver's \<open>Types.ObjectId.isValid\<close>,
  \<open>relays_running\<close> the instances whose outbox relay has its \<open>running\<close> flag set. The
  environment may change all of these at any time; theorems about the interleaved system
  hold whatever it chooses.
\<close>

datatype link = Up | RequestLost | ReplyLost

record world =
  orders :: "order list"
  stock :: "stock_row list"
  movements :: "stock_movement list"
  outbox :: "outbox_event list"
  charges :: "psp_charge list"
  warehouses :: "warehouse list"
  cards :: "credit_card list"
  customers :: "customer list"
  products :: "product list"
  addresses :: "mock_address list"
  jobs :: "job list"
  now :: date
  db_link :: link
  http_link :: link
  queue_link :: link
  random :: rat
  uuid :: string
  fresh_id :: object_id
  id_valid :: "string \<Rightarrow> bool"
  geo_near :: "coordinates \<Rightarrow> warehouse list \<Rightarrow> warehouse list"
  payment_settings :: payment_config
  relays_running :: "nat list"

type_synonym 'a io = "(world, exn, 'a) prog"

section \<open>Operations on the shared state\<close>

definition net_error :: exn where
  "net_error = PlainError ''connection lost''"

primrec answer :: "exn + 'a \<Rightarrow> 'a io" where
  "answer (Inl e) = Throw e"
| "answer (Inr a) = Return a"

text \<open>\<open>over l f\<close>: the atomic operation \<open>f\<close> at the other end of the link \<open>l\<close>.\<close>

definition over :: "(world \<Rightarrow> link) \<Rightarrow> (world \<Rightarrow> (exn + 'a) \<times> world) \<Rightarrow> 'a io" where
  "over l f = Atom (\<lambda>s.
     case l s of
       Up \<Rightarrow> (snd (f s), answer (fst (f s)))
     | RequestLost \<Rightarrow> (s, Throw net_error)
     | ReplyLost \<Rightarrow> (snd (f s), Throw net_error))"

text \<open>A database operation, and one that only reads.\<close>

definition db :: "(world \<Rightarrow> (exn + 'a) \<times> world) \<Rightarrow> 'a io" where
  "db f = over db_link f"

definition db_read :: "(world \<Rightarrow> 'a) \<Rightarrow> 'a io" where
  "db_read g = db (\<lambda>s. (Inr (g s), s))"

text \<open>Reading the environment: the clock, the random source.\<close>

definition sample :: "(world \<Rightarrow> 'a) \<Rightarrow> 'a io" where
  "sample g = Atom (\<lambda>s. (s, Return (g s)))"

lemma run_over: "run (over l f) s =
  (case l s of Up \<Rightarrow> f s | RequestLost \<Rightarrow> (Inl net_error, s) | ReplyLost \<Rightarrow> (Inl net_error, snd (f s)))"
  by (cases "f s"; cases "fst (f s)") (auto simp: over_def split: link.splits)

lemma run_db [run_simps]: "db_link s = Up \<Longrightarrow> run (db f) s = f s"
  by (simp add: db_def run_over)

lemma run_db_read [run_simps]: "db_link s = Up \<Longrightarrow> run (db_read g) s = (Inr (g s), s)"
  by (simp add: db_read_def run_db)

lemma run_sample [run_simps]: "run (sample g) s = (Inr (g s), s)"
  by (simp add: sample_def)

text \<open>
  HTTP between the clients and the mock services: the request may be lost, the handler
  runs, an exception it throws becomes the filter's status (\<open>domain-exception.filter.ts\<close>),
  the reply may be lost. The result is \<open>fetchJson\<close>'s: a status and the body of a
  successful answer (the clients look at the body only then).
\<close>

definition send :: "(world \<Rightarrow> link) \<Rightarrow> unit io" where
  "send l = Atom (\<lambda>s. (s, if l s = RequestLost then Throw net_error else Return ()))"

definition receive :: "(world \<Rightarrow> link) \<Rightarrow> unit io" where
  "receive l = Atom (\<lambda>s. (s, if l s = ReplyLost then Throw net_error else Return ()))"

definition fetchJson :: "int \<Rightarrow> 'a io \<Rightarrow> (int \<times> 'a option) io" where
  "fetchJson success handler =
     await (send http_link) (\<lambda>_.
     await (catching (await handler (\<lambda>body. Return (success, Some body)))
                     (\<lambda>e. Return (fst (exception_filter e), None))) (\<lambda>response.
     await (receive http_link) (\<lambda>_. Return response)))"

lemma run_fetchJson:
  "http_link s = Up \<Longrightarrow> run handler s = (Inr body, t) \<Longrightarrow> http_link t = Up \<Longrightarrow>
   run (fetchJson success handler) s = (Inr (success, Some body), t)"
  by (simp add: fetchJson_def send_def receive_def run_await run_catching)

lemma run_fetchJson_error:
  "http_link s = Up \<Longrightarrow> run handler s = (Inl e, t) \<Longrightarrow> http_link t = Up \<Longrightarrow>
   run (fetchJson success handler) s = (Inr (fst (exception_filter e), None), t)"
  by (simp add: fetchJson_def send_def receive_def run_await run_catching)

end
