(* ===== verification/Abstract_Saga.thy ===== *)
theory Abstract_Saga
  imports Model
begin

text \<open>
  The saga of one order as a specification: what there is to know of an order (its status,
  whether its stock has been reserved and given back, how its charge ended) and the ten
  things that can happen to it. The theory \<open>System\<close> shows that every operation of every
  process is, for each order, one of these events or none; what the specification
  guarantees then holds of the program.
\<close>

section \<open>Classes of statuses\<close>

text \<open>
  Nothing is owed for the stock of the order; the order is being unwound or has been; the
  order is paid.
\<close>

definition unreserved :: "order_status \<Rightarrow> bool" where
  "unreserved st \<longleftrightarrow> st = PENDING \<or> st = FAILED"

definition unwinding :: "order_status \<Rightarrow> bool" where
  "unwinding st \<longleftrightarrow> st = FAILED \<or> st = COMPENSATING \<or> st = COMPENSATED"

definition paid :: "order_status \<Rightarrow> bool" where
  "paid st \<longleftrightarrow> st = PAYMENT_AUTHORIZED \<or> st = COMPLETED"

lemmas status_classes = unreserved_def unwinding_def paid_def

section \<open>The events\<close>

record saga_view =
  sv_status :: "order_status option"
  sv_reserved :: bool
  sv_released :: bool
  sv_charge :: "charge_status option"

definition no_order :: saga_view where
  "no_order = \<lparr>sv_status = None, sv_reserved = False, sv_released = False, sv_charge = None\<rparr>"

text \<open>
  A reservation may still arrive for an order that was given up meanwhile, and a charge for
  an order that is being unwound: no event knows what another process is about to do. A
  status changes only when what it claims is on record.
\<close>

inductive saga_event :: "saga_view \<Rightarrow> saga_view \<Rightarrow> bool" where
  accept: "saga_event no_order (no_order\<lparr>sv_status := Some PENDING\<rparr>)"
| reserve: "sv_status v = Some st \<Longrightarrow> unreserved st \<Longrightarrow> \<not> sv_reserved v \<Longrightarrow> saga_event v (v\<lparr>sv_reserved := True\<rparr>)"
| charge: "sv_status v = Some st \<Longrightarrow> \<not> unreserved st \<Longrightarrow> sv_charge v = None \<Longrightarrow> saga_event v (v\<lparr>sv_charge := Some c\<rparr>)"
| give_back: "sv_status v = Some st \<Longrightarrow> unwinding st \<Longrightarrow> sv_reserved v \<Longrightarrow> \<not> sv_released v \<Longrightarrow>
    saga_event v (v\<lparr>sv_released := True\<rparr>)"
| take_stock: "sv_status v = Some PENDING \<Longrightarrow> sv_reserved v \<Longrightarrow> saga_event v (v\<lparr>sv_status := Some STOCK_RESERVED\<rparr>)"
| give_up: "sv_status v = Some PENDING \<Longrightarrow> saga_event v (v\<lparr>sv_status := Some FAILED\<rparr>)"
| authorize: "sv_status v = Some STOCK_RESERVED \<Longrightarrow> sv_charge v = Some SUCCEEDED \<Longrightarrow>
    saga_event v (v\<lparr>sv_status := Some PAYMENT_AUTHORIZED\<rparr>)"
| complete: "sv_status v = Some PAYMENT_AUTHORIZED \<Longrightarrow> saga_event v (v\<lparr>sv_status := Some COMPLETED\<rparr>)"
| unwind: "sv_status v = Some STOCK_RESERVED \<Longrightarrow> saga_event v (v\<lparr>sv_status := Some COMPENSATING\<rparr>)"
| settle: "sv_status v = Some COMPENSATING \<Longrightarrow> sv_released v \<Longrightarrow> saga_event v (v\<lparr>sv_status := Some COMPENSATED\<rparr>)"

text \<open>A status may change along an edge whose claim the view confirms.\<close>

definition edge_confirmed :: "saga_view \<Rightarrow> order_status \<Rightarrow> bool" where
  "edge_confirmed v to \<longleftrightarrow>
     (case to of
        STOCK_RESERVED \<Rightarrow> sv_reserved v
      | PAYMENT_AUTHORIZED \<Rightarrow> sv_charge v = Some SUCCEEDED
      | COMPENSATED \<Rightarrow> sv_released v
      | _ \<Rightarrow> True)"

lemma saga_event_edge:
  assumes "sv_status v = Some frm" and "saga_edge frm to" and "edge_confirmed v to"
  shows "saga_event v (v\<lparr>sv_status := Some to\<rparr>)"
  using assms
  by (cases frm; cases to)
    (auto simp: edge_confirmed_def intro: take_stock give_up authorize complete unwind settle)

section \<open>What the specification guarantees\<close>

definition saga_inv :: "saga_view \<Rightarrow> bool" where
  "saga_inv v \<longleftrightarrow>
     (case sv_status v of
        None \<Rightarrow> v = no_order
      | Some st \<Rightarrow>
          (unreserved st \<longrightarrow> sv_charge v = None)
          \<and> (\<not> unreserved st \<longrightarrow> sv_reserved v)
          \<and> (paid st \<longrightarrow> sv_charge v = Some SUCCEEDED)
          \<and> (sv_released v \<longrightarrow> sv_reserved v \<and> unwinding st)
          \<and> (st = COMPENSATED \<longrightarrow> sv_released v))"

lemma saga_inv_event: "saga_event v w \<Longrightarrow> saga_inv v \<Longrightarrow> saga_inv w"
  by (induction rule: saga_event.induct) (auto simp: saga_inv_def no_order_def status_classes)

lemma saga_inv_run:
  assumes "saga_event\<^sup>*\<^sup>* no_order v"
  shows "saga_inv v"
  using assms
proof (induction rule: rtranclp_induct)
  case base
  show ?case by (simp add: saga_inv_def no_order_def)
qed (rule saga_inv_event)

text \<open>Every event uses something up: an order sees at most seven of them.\<close>

definition saga_progress :: "saga_view \<Rightarrow> nat" where
  "saga_progress v =
     (case sv_status v of None \<Rightarrow> 0 | Some st \<Rightarrow> Suc (stage st))
     + (if sv_reserved v then 1 else 0) + (if sv_released v then 1 else 0) + (if sv_charge v = None then 0 else 1)"

lemma saga_progress_event: "saga_event v w \<Longrightarrow> saga_progress w = Suc (saga_progress v)"
  by (induction rule: saga_event.induct) (auto simp: saga_progress_def no_order_def)

lemma saga_progress_bound: "saga_progress v \<le> 7"
proof -
  have "(case sv_status v of None \<Rightarrow> 0 | Some st \<Rightarrow> Suc (stage st)) \<le> 4"
    using stage_le by (auto simp: le_SucI eval_nat_numeral split: option.split)
  then show ?thesis by (simp add: saga_progress_def)
qed

lemma saga_events_bounded: "(saga_event ^^ n) v w \<Longrightarrow> saga_progress w = saga_progress v + n"
  by (induction n arbitrary: w) (auto dest: saga_progress_event)

end
