(* ===== verification/Invariants.thy ===== *)
theory Invariants
  imports Abstract_Saga
begin

text \<open>
  What the program keeps true of its database and how the database may evolve.
  \<open>order_ok\<close> relates one order to its two ledger rows and its charge; \<open>consistent\<close> is the
  invariant of the whole state; \<open>evolves\<close> is what any step of any process may do to it:
  orders keep their request and only move along the state machine, settled orders and
  ledger rows never change. \<open>balance\<close> is the stock of a product at a warehouse corrected
  by what the ledger has reserved and released, which no process changes.
\<close>

section \<open>The unique indexes\<close>

text \<open>
  The \<open>_id\<close> index of orders and their \<open>(customerId, idempotencyKey)\<close> index, the
  \<open>(orderId, kind)\<close> index of the movements, the \<open>(warehouseId, productId)\<close> index of stock,
  the \<open>idempotencyKey\<close> index of charges and the \<open>(aggregateId, eventType)\<close> and \<open>_id\<close>
  indexes of the outbox.
\<close>

definition order_key :: "order \<Rightarrow> object_id \<times> string" where
  "order_key ord = (o_customer ord, o_key ord)"

definition movement_key :: "stock_movement \<Rightarrow> object_id \<times> movement_kind" where
  "movement_key m = (m_order m, m_kind m)"

definition stock_key :: "stock_row \<Rightarrow> object_id \<times> object_id" where
  "stock_key r = (s_warehouse r, s_product r)"

definition event_key :: "outbox_event \<Rightarrow> object_id \<times> string" where
  "event_key e = (e_aggregate e, e_type e)"

interpretation order_ids: ledger o_id "insert_unique o_id" "lookup o_id"
  by (rule insert_unique_ledger)

interpretation order_keys: ledger order_key "insert_unique order_key" "lookup order_key"
  by (rule insert_unique_ledger)

interpretation movement_index: ledger movement_key "insert_unique movement_key" "lookup movement_key"
  by (rule insert_unique_ledger)

interpretation charge_index: ledger c_key "insert_unique c_key" "lookup c_key"
  by (rule insert_unique_ledger)

interpretation event_index: ledger event_key "insert_unique event_key" "lookup event_key"
  by (rule insert_unique_ledger)

definition order_of :: "world \<Rightarrow> object_id \<Rightarrow> order option" where
  "order_of s = lookup o_id (orders s)"

definition movement_of :: "world \<Rightarrow> object_id \<Rightarrow> movement_kind \<Rightarrow> stock_movement option" where
  "movement_of s oid k = lookup movement_key (movements s) (oid, k)"

definition charge_of :: "world \<Rightarrow> string \<Rightarrow> psp_charge option" where
  "charge_of s = lookup c_key (charges s)"

definition stock_of :: "world \<Rightarrow> object_id \<Rightarrow> object_id \<Rightarrow> stock_row option" where
  "stock_of s w p = lookup stock_key (stock s) (w, p)"

section \<open>The stock balance\<close>

definition item_quantity :: "object_id \<Rightarrow> reservation_item list \<Rightarrow> int" where
  "item_quantity p items = sum_list (map (\<lambda>i. if i_product i = p then i_quantity i else 0) items)"

definition movement_quantity :: "movement_kind \<Rightarrow> object_id \<Rightarrow> object_id \<Rightarrow> stock_movement \<Rightarrow> int" where
  "movement_quantity k w p m =
     (if m_kind m = k \<and> m_warehouse m = w then item_quantity p (m_items m) else 0)"

definition moved :: "movement_kind \<Rightarrow> object_id \<Rightarrow> object_id \<Rightarrow> stock_movement list \<Rightarrow> int" where
  "moved k w p ms = sum_list (map (movement_quantity k w p) ms)"

definition level :: "stock_row list \<Rightarrow> object_id \<Rightarrow> object_id \<Rightarrow> int" where
  "level rows w p = (case lookup stock_key rows (w, p) of None \<Rightarrow> 0 | Some r \<Rightarrow> s_quantity r)"

definition balance :: "world \<Rightarrow> object_id \<Rightarrow> object_id \<Rightarrow> int" where
  "balance s w p =
     level (stock s) w p + moved RESERVE w p (movements s) - moved RELEASE w p (movements s)"

lemma item_quantity_simps [simp]:
  "item_quantity p [] = 0"
  "item_quantity p (i # items) = (if i_product i = p then i_quantity i else 0) + item_quantity p items"
  by (simp_all add: item_quantity_def)

lemma moved_append [simp]: "moved k w p (ms @ [m]) = moved k w p ms + movement_quantity k w p m"
  by (simp add: moved_def)

section \<open>An order, its ledger rows and its charge\<close>

definition reservation_items :: "order \<Rightarrow> reservation_item list" where
  "reservation_items ord = map (\<lambda>i. \<lparr>i_product = oi_product i, i_quantity = oi_quantity i\<rparr>) (o_items ord)"

definition records_charge :: "payment_result \<Rightarrow> psp_charge \<Rightarrow> bool" where
  "records_charge r c \<longleftrightarrow> p_success r = (c_status c = SUCCEEDED) \<and> p_transaction r = Some (c_transaction c)
     \<and> p_amount r = Some (c_amount c) \<and> p_key r = Some (c_key c)"

definition order_ok :: "order option \<Rightarrow> stock_movement option \<Rightarrow> stock_movement option \<Rightarrow>
    psp_charge option \<Rightarrow> bool" where
  "order_ok oo rsv rel chg \<longleftrightarrow>
     (case oo of
        None \<Rightarrow> rsv = None \<and> rel = None \<and> chg = None
      | Some ord \<Rightarrow>
          (\<forall>i \<in> set (o_items ord). 1 \<le> oi_quantity i) \<and>
          (\<forall>m. rsv = Some m \<longrightarrow> m_items m = reservation_items ord) \<and>
          (\<forall>r. rel = Some r \<longrightarrow>
             (\<exists>m. rsv = Some m \<and> m_warehouse r = m_warehouse m \<and> m_items r = m_items m)) \<and>
          (unreserved (o_status ord) \<longrightarrow> o_warehouse ord = None \<and> chg = None) \<and>
          (\<not> unreserved (o_status ord) \<longrightarrow> (\<exists>m. rsv = Some m \<and> o_warehouse ord = Some (m_warehouse m))) \<and>
          (rel \<noteq> None \<longrightarrow> unwinding (o_status ord)) \<and>
          (o_status ord = COMPENSATED \<longrightarrow> rel \<noteq> None) \<and>
          (paid (o_status ord) \<longrightarrow>
             (\<exists>c r. chg = Some c \<and> c_status c = SUCCEEDED \<and> o_payment ord = Some r \<and> records_charge r c)) \<and>
          (\<forall>c. chg = Some c \<longrightarrow> c_amount c = o_total ord) \<and>
          (unwinding (o_status ord) \<longleftrightarrow> o_failure ord \<noteq> None) \<and>
          (o_status ord = FAILED \<longrightarrow> o_failure ord \<in> {Some OUT_OF_STOCK, Some RECONCILED_TIMEOUT}))"

section \<open>The invariant\<close>

definition ORDER_CREATED_EVENT :: string where
  "ORDER_CREATED_EVENT = ''ORDER_CREATED''"

definition indexed :: "world \<Rightarrow> bool" where
  "indexed s \<longleftrightarrow> distinct (map o_id (orders s)) \<and> distinct (map order_key (orders s))
     \<and> distinct (map movement_key (movements s)) \<and> distinct (map stock_key (stock s))
     \<and> distinct (map c_key (charges s)) \<and> distinct (map event_key (outbox s))
     \<and> distinct (map e_id (outbox s))"

definition stock_ok :: "world \<Rightarrow> bool" where
  "stock_ok s \<longleftrightarrow> (\<forall>r \<in> set (stock s). 0 \<le> s_quantity r)
     \<and> (\<forall>m \<in> set (movements s). \<forall>i \<in> set (m_items m). stock_of s (m_warehouse m) (i_product i) \<noteq> None)"

definition announced :: "world \<Rightarrow> bool" where
  "announced s \<longleftrightarrow> (\<forall>oid. order_of s oid \<noteq> None \<longleftrightarrow>
     lookup event_key (outbox s) (oid, ORDER_CREATED_EVENT) \<noteq> None)"

definition consistent :: "world \<Rightarrow> bool" where
  "consistent s \<longleftrightarrow> indexed s \<and> stock_ok s \<and> announced s
     \<and> (\<forall>oid. order_ok (order_of s oid) (movement_of s oid RESERVE) (movement_of s oid RELEASE) (charge_of s oid))"

section \<open>How the state evolves\<close>

definition request_of :: "order \<Rightarrow>
    object_id \<times> string \<times> string \<times> object_id \<times> string \<times> coordinates \<times> order_item list \<times> int \<times> date" where
  "request_of ord = (o_id ord, o_key ord, o_fingerprint ord, o_customer ord, o_address ord, o_coordinates ord,
     o_items ord, o_total ord, o_created ord)"

definition order_evolves :: "order \<Rightarrow> order \<Rightarrow> bool" where
  "order_evolves ord ord' \<longleftrightarrow> request_of ord = request_of ord' \<and> o_status ord \<le> o_status ord'
     \<and> (isTerminal (o_status ord) \<longrightarrow> ord' = ord) \<and> (o_warehouse ord \<noteq> None \<longrightarrow> o_warehouse ord' = o_warehouse ord)"

definition evolves :: "world \<Rightarrow> world \<Rightarrow> bool" where
  "evolves s t \<longleftrightarrow>
     (\<forall>oid ord. order_of s oid = Some ord \<longrightarrow> (\<exists>ord'. order_of t oid = Some ord' \<and> order_evolves ord ord')) \<and>
     (\<forall>oid k m. movement_of s oid k = Some m \<longrightarrow> movement_of t oid k = Some m) \<and>
     (\<forall>k c. charge_of s k = Some c \<longrightarrow> charge_of t k = Some c)"

definition conserves :: "world \<Rightarrow> world \<Rightarrow> bool" where
  "conserves s t \<longleftrightarrow> evolves s t \<and> (\<forall>w p. balance t w p = balance s w p)"

text \<open>
  What one operation may do: it conserves, and what it does to any one order is one event
  of the specification or nothing. This last is about single operations, not about runs.
\<close>

definition saga_view :: "world \<Rightarrow> object_id \<Rightarrow> saga_view" where
  "saga_view s oid =
     \<lparr>sv_status = map_option o_status (order_of s oid),
      sv_reserved = (movement_of s oid RESERVE \<noteq> None),
      sv_released = (movement_of s oid RELEASE \<noteq> None),
      sv_charge = map_option c_status (charge_of s oid)\<rparr>"

definition acts :: "world \<Rightarrow> world \<Rightarrow> bool" where
  "acts s t \<longleftrightarrow> conserves s t \<and>
     (\<forall>oid. saga_view t oid = saga_view s oid \<or> saga_event (saga_view s oid) (saga_view t oid))"

lemma acts_conserves: "acts s t \<Longrightarrow> conserves s t"
  by (simp add: acts_def)

lemma saga_view_simps [simp]:
  "sv_status (saga_view s oid) = map_option o_status (order_of s oid)"
  "sv_reserved (saga_view s oid) = (movement_of s oid RESERVE \<noteq> None)"
  "sv_released (saga_view s oid) = (movement_of s oid RELEASE \<noteq> None)"
  "sv_charge (saga_view s oid) = map_option c_status (charge_of s oid)"
  by (simp_all add: saga_view_def)

lemma order_evolves_refl [simp]: "order_evolves ord ord"
  by (simp add: order_evolves_def)

lemma order_evolves_trans: "order_evolves a b \<Longrightarrow> order_evolves b c \<Longrightarrow> order_evolves a c"
  by (auto simp: order_evolves_def intro: order_trans dest: terminal_le)

text \<open>What an observer keeps knowing: facts that survive interference.\<close>

lemma evolves_order: "evolves s t \<Longrightarrow> order_of s oid = Some ord \<Longrightarrow>
    \<exists>ord'. order_of t oid = Some ord' \<and> order_evolves ord ord'"
  unfolding evolves_def by blast

lemma evolves_movement: "evolves s t \<Longrightarrow> movement_of s oid k = Some m \<Longrightarrow> movement_of t oid k = Some m"
  unfolding evolves_def by blast

lemma evolves_charge: "evolves s t \<Longrightarrow> charge_of s k = Some c \<Longrightarrow> charge_of t k = Some c"
  unfolding evolves_def by blast

interpretation rg: rely_guarantee evolves acts consistent
proof
  fix s t u
  show "evolves s s"
    by (auto simp: evolves_def)
  show "acts s t \<Longrightarrow> evolves s t"
    by (simp add: acts_def conserves_def)
  assume st: "evolves s t" and tu: "evolves t u"
  show "evolves s u"
    unfolding evolves_def
  proof (intro conjI allI impI)
    fix oid ord
    assume "order_of s oid = Some ord"
    with st obtain ord' where "order_of t oid = Some ord'" and 1: "order_evolves ord ord'"
      by (blast dest: evolves_order)
    with tu obtain ord'' where "order_of u oid = Some ord''" and "order_evolves ord' ord''"
      by (blast dest: evolves_order)
    with 1 show "\<exists>ord''. order_of u oid = Some ord'' \<and> order_evolves ord ord''"
      by (blast intro: order_evolves_trans)
  qed (use st tu in \<open>blast dest: evolves_movement evolves_charge\<close>)+
qed

lemmas evolves_refl [simp, intro] = rg.rely_refl
lemmas evolves_trans [trans] = rg.rely_trans

lemma conserves_refl [simp, intro]: "conserves s s"
  by (simp add: conserves_def)

lemma conserves_evolves: "conserves s t \<Longrightarrow> evolves s t"
  by (simp add: conserves_def)

lemma conserves_trans [trans]: "conserves s t \<Longrightarrow> conserves t u \<Longrightarrow> conserves s u"
  by (auto simp: conserves_def intro: evolves_trans)

lemma acts_refl [simp, intro]: "acts s s"
  by (simp add: acts_def)

lemma acts_evolves: "acts s t \<Longrightarrow> evolves s t"
  by (rule rg.guarantee_rely)

lemma consistent_order:
  "consistent s \<Longrightarrow> order_of s oid = Some ord \<Longrightarrow>
     order_ok (Some ord) (movement_of s oid RESERVE) (movement_of s oid RELEASE) (charge_of s oid)"
  by (metis consistent_def)

lemma order_of_id: "order_of s oid = Some ord \<Longrightarrow> o_id ord = oid"
  by (auto simp: order_of_def)

section \<open>Safe database operations\<close>

text \<open>
  An operation of a process: safe when, from every consistent state the interference can
  have led to, it acts and stays consistent. \<open>safely\<close> is the notion all component
  lemmas are stated with.
\<close>

abbreviation safely :: "('a \<Rightarrow> world \<Rightarrow> bool) \<Rightarrow> (exn \<Rightarrow> world \<Rightarrow> bool) \<Rightarrow> 'a io \<Rightarrow> world \<Rightarrow> bool" where
  "safely \<equiv> safe evolves acts consistent"

text \<open>The exceptions of the program's operations: any but a model's exhausted bound.\<close>

abbreviation no_fuel :: "exn \<Rightarrow> world \<Rightarrow> bool" where
  "no_fuel \<equiv> \<lambda>e _. e \<noteq> OutOfFuel"

lemma safe_over:
  assumes op: "\<And>t r u. evolves s t \<Longrightarrow> consistent t \<Longrightarrow> f t = (r, u) \<Longrightarrow>
      acts t u \<and> consistent u \<and> (evolves s u \<longrightarrow> (case r of Inl e \<Rightarrow> E e u | Inr a \<Rightarrow> Q a u))"
    and err: "\<And>t. evolves s t \<Longrightarrow> consistent t \<Longrightarrow> E net_error t"
  shows "safely Q E (over l f) s"
  unfolding over_def
proof (rule safe_AtomI)
  fix t u p
  assume st: "evolves s t" and I: "consistent t"
    and step: "(case l t of Up \<Rightarrow> (snd (f t), answer (fst (f t))) | RequestLost \<Rightarrow> (t, Throw net_error)
      | ReplyLost \<Rightarrow> (snd (f t), Throw net_error)) = (u, p)"
  obtain r v where f: "f t = (r, v)" by (cases "f t")
  note here = op [OF st I f]
  from here st have sv: "evolves s v" by (blast intro: evolves_trans acts_evolves)
  have "safely Q E (answer r) v"
    using here sv by (cases r) auto
  with here sv step f st I err show "acts t u \<and> consistent u \<and> safely Q E p u"
    by (cases "l t") auto
qed

lemmas safe_db = safe_over [where l = db_link, folded db_def]

lemma safe_dbI:
  assumes "\<And>t r u. evolves s t \<Longrightarrow> consistent t \<Longrightarrow> f t = (r, u) \<Longrightarrow> acts t u \<and> consistent u"
    and "\<And>t a u. evolves s t \<Longrightarrow> consistent t \<Longrightarrow> f t = (Inr a, u) \<Longrightarrow>
      evolves s u \<Longrightarrow> consistent u \<Longrightarrow> Q a u"
    and "\<And>t e u. evolves s t \<Longrightarrow> consistent t \<Longrightarrow> f t = (Inl e, u) \<Longrightarrow>
      evolves s u \<Longrightarrow> consistent u \<Longrightarrow> E e u"
    and "\<And>t. evolves s t \<Longrightarrow> consistent t \<Longrightarrow> E net_error t"
  shows "safely Q E (db f) s"
proof (rule safe_db)
  fix t r u
  assume "evolves s t" and "consistent t" and "f t = (r, u)"
  with assms(1-3) [of t] show "acts t u \<and> consistent u \<and>
      (evolves s u \<longrightarrow> (case r of Inl e \<Rightarrow> E e u | Inr a \<Rightarrow> Q a u))"
    by (cases r) auto
qed (rule assms(4))

lemma safe_db_read:
  assumes "\<And>t. evolves s t \<Longrightarrow> consistent t \<Longrightarrow> Q (g t) t"
    and "\<And>t. evolves s t \<Longrightarrow> consistent t \<Longrightarrow> E net_error t"
  shows "safely Q E (db_read g) s"
  unfolding db_read_def by (rule safe_db) (auto intro: assms)

lemma safe_sample:
  assumes "\<And>x t. evolves s t \<Longrightarrow> consistent t \<Longrightarrow> Q x t"
  shows "safely Q E (sample g) s"
  unfolding sample_def by (rule safe_AtomI) (auto intro: assms)

lemma safe_send:
  assumes "\<And>t. evolves s t \<Longrightarrow> consistent t \<Longrightarrow> Q () t"
    and "\<And>t. evolves s t \<Longrightarrow> consistent t \<Longrightarrow> E net_error t"
  shows "safely Q E (send l) s"
  unfolding send_def by (rule safe_AtomI) (auto intro: assms)

lemma safe_receive:
  assumes "\<And>t. evolves s t \<Longrightarrow> consistent t \<Longrightarrow> Q () t"
    and "\<And>t. evolves s t \<Longrightarrow> consistent t \<Longrightarrow> E net_error t"
  shows "safely Q E (receive l) s"
  unfolding receive_def by (rule safe_AtomI) (auto intro: assms)

lemma net_error_simps [simp]:
  "net_error \<noteq> OutOfFuel" "\<not> isDuplicateKeyError net_error f"
  "net_error \<noteq> NoWarehouseAvailableError" "net_error \<noteq> InsufficientStockError p"
  by (simp_all add: net_error_def isDuplicateKeyError_def)

section \<open>What a reader of an order keeps knowing\<close>

lemma request_of_eq:
  "request_of ord = request_of ord' \<longleftrightarrow>
     o_id ord = o_id ord' \<and> o_key ord = o_key ord' \<and> o_fingerprint ord = o_fingerprint ord'
     \<and> o_customer ord = o_customer ord' \<and> o_address ord = o_address ord'
     \<and> o_coordinates ord = o_coordinates ord' \<and> o_items ord = o_items ord'
     \<and> o_total ord = o_total ord' \<and> o_created ord = o_created ord'"
  by (auto simp: request_of_def)

lemma request_of_items: "request_of ord = request_of ord' \<Longrightarrow> reservation_items ord = reservation_items ord'"
  by (simp add: request_of_def reservation_items_def)

lemma unwinding_le: "unwinding s \<Longrightarrow> s \<le> t \<Longrightarrow> unwinding t"
  by (auto simp: unwinding_def less_eq_order_status_def)

lemma reserved_le: "\<not> unreserved s \<Longrightarrow> s \<le> t \<Longrightarrow> \<not> unreserved t"
  by (auto simp: unreserved_def less_eq_order_status_def)

lemma paid_le: "paid s \<Longrightarrow> s \<le> t \<Longrightarrow> paid t"
  by (auto simp: paid_def less_eq_order_status_def)

text \<open>
  The order as an interfered-with reader finds it later: the same request, at least as far
  along.
\<close>

lemma evolves_orderE:
  assumes "evolves s t" and "order_of s oid = Some ord"
  obtains ord' where "order_of t oid = Some ord'" and "order_evolves ord ord'"
    and "request_of ord' = request_of ord" and "o_status ord \<le> o_status ord'"
  using evolves_order [OF assms] by (auto simp: order_evolves_def)

end
