(* ===== verification/Inventory.thy ===== *)
theory Inventory
  imports Invariants
begin

text \<open>
  The inventory service, \<open>inventory/inventory.service.ts\<close>: choosing a warehouse, reserving
  an order's items there and handing them back. A \<open>withTransaction\<close> callback is one atomic
  operation on the database, whose exception leaves it as it was; the plain reads before,
  between and after the transactions are operations of their own.
\<close>

section \<open>Transactions on ledger and stock\<close>

text \<open>\<open>movementModel.create\<close> under the unique \<open>(orderId, kind)\<close> index.\<close>

definition insert_movement :: "stock_movement \<Rightarrow> stock_movement list \<Rightarrow> exn + stock_movement list" where
  "insert_movement m ms =
     (case insert_unique movement_key m ms of
        None \<Rightarrow> Inl (duplicate_key [''orderId'', ''kind''])
      | Some ms' \<Rightarrow> Inr ms')"

text \<open>
  The loop of conditional decrements: \<open>updateOne\<close> with \<open>quantity: {$gte}\<close> in the filter,
  and the exception when it matches no row.
\<close>

definition can_serve :: "object_id \<Rightarrow> reservation_item \<Rightarrow> stock_row \<Rightarrow> bool" where
  "can_serve warehouseId item r \<longleftrightarrow>
     stock_key r = (warehouseId, i_product item) \<and> i_quantity item \<le> s_quantity r"

primrec decrement_items :: "object_id \<Rightarrow> reservation_item list \<Rightarrow> stock_row list \<Rightarrow> exn + stock_row list" where
  "decrement_items warehouseId [] rows = Inr rows"
| "decrement_items warehouseId (item # items) rows =
     (if find (can_serve warehouseId item) rows = None
      then Inl (InsufficientStockError (i_product item))
      else decrement_items warehouseId items
        (update_one (can_serve warehouseId item)
           (\<lambda>r. r\<lparr>s_quantity := s_quantity r - i_quantity item\<rparr>) rows))"

definition reserve_tx :: "object_id \<Rightarrow> object_id \<Rightarrow> reservation_item list \<Rightarrow> world \<Rightarrow> (exn + bool) \<times> world" where
  "reserve_tx orderId warehouseId items s =
     (case insert_movement \<lparr>m_order = orderId, m_kind = RESERVE, m_warehouse = warehouseId,
                            m_items = items\<rparr> (movements s) of
        Inl e \<Rightarrow> (Inl e, s)
      | Inr ms \<Rightarrow>
          (case decrement_items warehouseId items (stock s) of
             Inl e \<Rightarrow> (Inl e, s)
           | Inr rows \<Rightarrow> (Inr True, s\<lparr>movements := ms, stock := rows\<rparr>)))"

text \<open>The loop that hands the items back: an \<open>$inc\<close> per item, no condition.\<close>

primrec increment_items :: "object_id \<Rightarrow> reservation_item list \<Rightarrow> stock_row list \<Rightarrow> stock_row list" where
  "increment_items warehouseId [] rows = rows"
| "increment_items warehouseId (item # items) rows =
     increment_items warehouseId items
       (update_one (\<lambda>r. stock_key r = (warehouseId, i_product item))
          (\<lambda>r. r\<lparr>s_quantity := s_quantity r + i_quantity item\<rparr>) rows)"

datatype release_outcome = Released | Noop

definition release_tx :: "object_id \<Rightarrow> world \<Rightarrow> (exn + release_outcome) \<times> world" where
  "release_tx orderId s =
     (case movement_of s orderId RESERVE of
        None \<Rightarrow> (Inr Noop, s)
      | Some reserve \<Rightarrow>
          (case movement_of s orderId RELEASE of
             Some already \<Rightarrow> (Inr Noop, s)
           | None \<Rightarrow>
               (case insert_movement \<lparr>m_order = orderId, m_kind = RELEASE,
                        m_warehouse = m_warehouse reserve, m_items = m_items reserve\<rparr> (movements s) of
                  Inl e \<Rightarrow> (Inl e, s)
                | Inr ms \<Rightarrow> (Inr Released, s\<lparr>movements := ms,
                    stock := increment_items (m_warehouse reserve) (m_items reserve) (stock s)\<rparr>))))"

section \<open>The service\<close>

record reservation_result =
  rr_warehouse :: object_id
  rr_replayed :: bool

definition releaseForOrder :: "object_id \<Rightarrow> release_outcome io" where
  "releaseForOrder orderId =
     catching (db (release_tx orderId))
       (\<lambda>error. if isDuplicateKeyError error (Some ''orderId'') then Return Noop else Throw error)"

text \<open>\<open>tryReserveAt\<close>: the transaction, then the three cases of its \<open>catch\<close>.\<close>

definition rethrow_unless_insufficient :: "exn \<Rightarrow> 'a option io" where
  "rethrow_unless_insufficient error =
     (case error of InsufficientStockError _ \<Rightarrow> Return None | _ \<Rightarrow> Throw error)"

definition reserve_failed :: "object_id \<Rightarrow> exn \<Rightarrow> reservation_result option io" where
  "reserve_failed orderId error =
     (if isDuplicateKeyError error (Some ''orderId'')
      then await (db_read (\<lambda>s. movement_of s orderId RESERVE)) (\<lambda>won.
             case won of
               Some m \<Rightarrow> Return (Some \<lparr>rr_warehouse = m_warehouse m, rr_replayed = True\<rparr>)
             | None \<Rightarrow> rethrow_unless_insufficient error)
      else rethrow_unless_insufficient error)"

definition tryReserveAt :: "object_id \<Rightarrow> object_id \<Rightarrow> reservation_item list \<Rightarrow> reservation_result option io" where
  "tryReserveAt orderId warehouseId items =
     catching
       (await (db (reserve_tx orderId warehouseId items)) (\<lambda>reserved.
        Return (if reserved then Some \<lparr>rr_warehouse = warehouseId, rr_replayed = False\<rparr> else None)))
       (reserve_failed orderId)"

record warehouse_with_stock =
  ws_id :: object_id
  ws_stock :: "stock_row list"

definition hasSufficientStock :: "warehouse_with_stock \<Rightarrow> reservation_item list \<Rightarrow> bool" where
  "hasSufficientStock warehouse items =
     list_all (\<lambda>item. list_ex (\<lambda>r. s_product r = i_product item \<and> i_quantity item \<le> s_quantity r)
       (ws_stock warehouse)) items"

text \<open>The aggregation: \<open>$geoNear\<close>, then \<open>$lookup\<close> of each warehouse's rows for the products.\<close>

definition aggregate_warehouses :: "coordinates \<Rightarrow> reservation_item list \<Rightarrow> world \<Rightarrow> warehouse_with_stock list" where
  "aggregate_warehouses loc items s =
     map (\<lambda>w. \<lparr>ws_id = w_id w,
               ws_stock = filter (\<lambda>r. s_warehouse r = w_id w \<and> s_product r \<in> set (map i_product items))
                            (stock s)\<rparr>)
       (geo_near s loc (warehouses s))"

definition findCandidateWarehouses :: "coordinates \<Rightarrow> reservation_item list \<Rightarrow> warehouse_with_stock list io" where
  "findCandidateWarehouses loc items =
     await (db_read (aggregate_warehouses loc items)) (\<lambda>candidates.
     Return (filter (\<lambda>candidate. hasSufficientStock candidate items) candidates))"

primrec try_candidates :: "object_id \<Rightarrow> reservation_item list \<Rightarrow> warehouse_with_stock list \<Rightarrow> reservation_result io" where
  "try_candidates orderId items [] = Throw NoWarehouseAvailableError"
| "try_candidates orderId items (candidate # candidates) =
     await (tryReserveAt orderId (ws_id candidate) items) (\<lambda>outcome.
       case outcome of
         Some result \<Rightarrow> Return result
       | None \<Rightarrow> try_candidates orderId items candidates)"

definition reserveForOrder :: "object_id \<Rightarrow> coordinates \<Rightarrow> reservation_item list \<Rightarrow> reservation_result io" where
  "reserveForOrder orderId loc items =
     await (db_read (\<lambda>s. movement_of s orderId RESERVE)) (\<lambda>prior.
       case prior of
         Some m \<Rightarrow> Return \<lparr>rr_warehouse = m_warehouse m, rr_replayed = True\<rparr>
       | None \<Rightarrow>
           await (findCandidateWarehouses loc items) (\<lambda>candidates.
           try_candidates orderId items candidates))"

section \<open>Stock arithmetic\<close>

lemma level_adjust:
  assumes "distinct (map stock_key rows)" and "find (\<lambda>r. stock_key r = k \<and> P r) rows \<noteq> None"
  shows "level (update_one (\<lambda>r. stock_key r = k \<and> P r) (\<lambda>r. r\<lparr>s_quantity := s_quantity r + d\<rparr>) rows) w p =
    level rows w p + (if k = (w, p) then d else 0)"
proof -
  have key: "stock_key (r\<lparr>s_quantity := q\<rparr>) = stock_key r" for r q
    by (simp add: stock_key_def)
  obtain r where "r \<in> set rows" and k: "stock_key r = k" and "P r"
    using assms(2) by (auto simp: find_None_iff)
  then have "lookup stock_key rows k = Some r"
    using lookup_distinct [OF assms(1)] by blast
  with \<open>P r\<close> show ?thesis
    by (auto simp: level_def lookup_update_one [where key = stock_key, OF key assms(1)])
qed

lemma adjust_keys: "map stock_key (update_one P (\<lambda>r. r\<lparr>s_quantity := f r\<rparr>) rows) = map stock_key rows"
  by (rule map_update_one) (simp add: stock_key_def)

lemma decrement_items_keys:
  "decrement_items w items rows = Inr rows' \<Longrightarrow> map stock_key rows' = map stock_key rows"
  by (induction items arbitrary: rows) (auto simp: adjust_keys split: if_splits)

lemma increment_items_keys: "map stock_key (increment_items w items rows) = map stock_key rows"
  by (induction items arbitrary: rows) (auto simp: adjust_keys)

lemma decrement_items_level:
  assumes "decrement_items w items rows = Inr rows'" and "distinct (map stock_key rows)"
  shows "level rows' v p = level rows v p - (if v = w then item_quantity p items else 0)"
  using assms
proof (induction items arbitrary: rows)
  case (Cons i items)
  let ?r1 = "update_one (can_serve w i) (\<lambda>r. r\<lparr>s_quantity := s_quantity r - i_quantity i\<rparr>) rows"
  from Cons.prems have found: "find (can_serve w i) rows \<noteq> None" and rest: "decrement_items w items ?r1 = Inr rows'"
    by (auto split: if_splits)
  have "level ?r1 v p = level rows v p + (if (w, i_product i) = (v, p) then - i_quantity i else 0)"
    using level_adjust [OF Cons.prems(2), of "(w, i_product i)" "\<lambda>r. i_quantity i \<le> s_quantity r" "- i_quantity i"]
      found by (simp add: can_serve_def [abs_def])
  with Cons.IH [OF rest] Cons.prems(2) show ?case
    by (simp add: adjust_keys)
qed simp

lemma increment_items_level:
  assumes "distinct (map stock_key rows)"
    and "\<And>i. i \<in> set items \<Longrightarrow> lookup stock_key rows (w, i_product i) \<noteq> None"
  shows "level (increment_items w items rows) v p = level rows v p + (if v = w then item_quantity p items else 0)"
  using assms
proof (induction items arbitrary: rows)
  case (Cons i items)
  let ?r1 = "update_one (\<lambda>r. stock_key r = (w, i_product i)) (\<lambda>r. r\<lparr>s_quantity := s_quantity r + i_quantity i\<rparr>) rows"
  have keys: "map stock_key ?r1 = map stock_key rows" by (rule adjust_keys)
  have "level ?r1 v p = level rows v p + (if (w, i_product i) = (v, p) then i_quantity i else 0)"
    using level_adjust [OF Cons.prems(1), of "(w, i_product i)" "\<lambda>_. True" "i_quantity i"] Cons.prems(2) [of i]
    by (simp add: lookup_def)
  moreover have "lookup stock_key ?r1 (w, i_product j) \<noteq> None" if "j \<in> set items" for j
    using Cons.prems(2) [of j] that lookup_keys [OF keys] by simp
  ultimately show ?case
    using Cons.IH [of ?r1] Cons.prems(1) keys by simp
qed simp

lemma decrement_items_nonneg:
  assumes "decrement_items w items rows = Inr rows'" and "\<forall>r \<in> set rows. 0 \<le> s_quantity r"
  shows "\<forall>r \<in> set rows'. 0 \<le> s_quantity r"
  using assms
proof (induction items arbitrary: rows)
  case (Cons i items)
  have "\<forall>r \<in> set (update_one (can_serve w i) (\<lambda>r. r\<lparr>s_quantity := s_quantity r - i_quantity i\<rparr>) rows).
      0 \<le> s_quantity r"
    using Cons.prems(2) by (auto dest!: set_update_one simp: can_serve_def)
  with Cons show ?case by (auto split: if_splits)
qed simp

lemma increment_items_nonneg:
  assumes "\<forall>i \<in> set items. 0 \<le> i_quantity i" and "\<forall>r \<in> set rows. 0 \<le> s_quantity r"
  shows "\<forall>r \<in> set (increment_items w items rows). 0 \<le> s_quantity r"
  using assms
proof (induction items arbitrary: rows)
  case (Cons i items)
  have "\<forall>r \<in> set (update_one (\<lambda>r. stock_key r = (w, i_product i))
      (\<lambda>r. r\<lparr>s_quantity := s_quantity r + i_quantity i\<rparr>) rows). 0 \<le> s_quantity r"
    using Cons.prems by (auto dest!: set_update_one)
  with Cons show ?case by simp
qed simp

lemma decrement_items_rows:
  assumes "decrement_items w items rows = Inr rows'" and "i \<in> set items"
  shows "lookup stock_key rows (w, i_product i) \<noteq> None"
  using assms
proof (induction items arbitrary: rows)
  case (Cons j items)
  let ?r1 = "update_one (can_serve w j) (\<lambda>r. r\<lparr>s_quantity := s_quantity r - i_quantity j\<rparr>) rows"
  from Cons.prems have found: "find (can_serve w j) rows \<noteq> None" and rest: "decrement_items w items ?r1 = Inr rows'"
    by (auto split: if_splits)
  show ?case
  proof (cases "i = j")
    case True
    from found obtain r where "r \<in> set rows" and "stock_key r = (w, i_product j)"
      by (auto simp: find_None_iff can_serve_def)
    with True show ?thesis unfolding lookup_None by (metis imageI)
  next
    case False
    with Cons.prems(2) Cons.IH [OF rest] lookup_keys [OF adjust_keys]
    show ?thesis by auto
  qed
qed simp

section \<open>Transactions keep the invariant\<close>

text \<open>
  A step that changes only the ledger rows of one order and the stock: the orders, the
  charges and the outbox are as they were, so consistency and evolution reduce to that
  order and to the stock.
\<close>

lemma movement_of_update:
  assumes "insert_movement m (movements s) = Inr ms"
  shows "movement_of (s\<lparr>movements := ms, stock := rows\<rparr>) oid k =
    (if m_order m = oid \<and> m_kind m = k then Some m else movement_of s oid k)"
  using assms movement_index.ins_get
  by (auto simp: insert_movement_def movement_of_def movement_key_def split: option.splits)

lemma insert_movement_new:
  "insert_movement m ms = Inr ms' \<Longrightarrow>
     lookup movement_key ms (m_order m, m_kind m) = None \<and> ms' = ms @ [m] \<and>
     (distinct (map movement_key ms) \<longrightarrow> distinct (map movement_key ms'))"
  using movement_index.ins_first movement_index.ins_distinct
  by (auto simp: insert_movement_def insert_unique_def movement_key_def split: option.splits if_splits)

lemma ledger_step:
  assumes inv: "consistent s" and ins: "insert_movement m (movements s) = Inr ms"
    and keys: "map stock_key rows = map stock_key (stock s)"
    and nonneg: "\<forall>r \<in> set rows. 0 \<le> s_quantity r"
    and present: "\<forall>i \<in> set (m_items m). stock_of s (m_warehouse m) (i_product i) \<noteq> None"
    and level: "\<And>v p. level rows v p + movement_quantity RESERVE v p m - movement_quantity RELEASE v p m
      = level (stock s) v p"
    and ok: "order_ok (order_of s (m_order m))
      (if m_kind m = RESERVE then Some m else movement_of s (m_order m) RESERVE)
      (if m_kind m = RELEASE then Some m else movement_of s (m_order m) RELEASE)
      (charge_of s (m_order m))"
    and event: "saga_event (saga_view s (m_order m))
      (if m_kind m = RESERVE then (saga_view s (m_order m))\<lparr>sv_reserved := True\<rparr>
       else (saga_view s (m_order m))\<lparr>sv_released := True\<rparr>)"
  shows "acts s (s\<lparr>movements := ms, stock := rows\<rparr>) \<and> consistent (s\<lparr>movements := ms, stock := rows\<rparr>)"
proof -
  let ?u = "s\<lparr>movements := ms, stock := rows\<rparr>"
  note new = insert_movement_new [OF ins]
  have same [simp]: "order_of ?u = order_of s" "charge_of ?u = charge_of s"
    by (simp_all add: order_of_def charge_of_def)
  have mv: "movement_of ?u oid k = (if m_order m = oid \<and> m_kind m = k then Some m else movement_of s oid k)" for oid k
    by (rule movement_of_update [OF ins])
  have none: "movement_of s (m_order m) (m_kind m) = None"
    using new by (simp add: movement_of_def)
  have "evolves s ?u"
    using none by (auto simp: evolves_def mv)
  moreover have "balance ?u v p = balance s v p" for v p
    using new level [of v p] by (simp add: balance_def)
  moreover have "stock_of ?u v p = None \<longleftrightarrow> stock_of s v p = None" for v p
    using lookup_keys [OF keys] by (simp add: stock_of_def)
  then have "stock_ok ?u"
    using inv new nonneg present by (auto simp: consistent_def stock_ok_def)
  moreover have "distinct (map movement_key ms)"
    using inv new unfolding consistent_def indexed_def by blast
  then have "indexed ?u"
    using inv keys by (simp add: consistent_def indexed_def)
  moreover have "announced ?u"
    using inv by (simp add: consistent_def announced_def)
  moreover have "order_ok (order_of ?u oid) (movement_of ?u oid RESERVE) (movement_of ?u oid RELEASE) (charge_of ?u oid)"
    for oid
    using inv ok unfolding mv same
    by (cases "m_order m = oid"; cases "m_kind m") (simp_all add: consistent_def)
  moreover have "saga_view ?u x = saga_view s x \<or> saga_event (saga_view s x) (saga_view ?u x)" for x
    using event unfolding saga_view_def mv same by (cases "m_kind m"; cases "m_order m = x") simp_all
  ultimately show ?thesis by (simp add: acts_def conserves_def consistent_def)
qed

text \<open>The reservation: its ledger row is the order's items, and its status is still \<open>PENDING\<close> or \<open>FAILED\<close>.\<close>

lemma reserve_tx_keeps:
  assumes inv: "consistent s" and known: "order_of s oid = Some ord"
    and tx: "reserve_tx oid w (reservation_items ord) s = (r, u)"
  shows "acts s u \<and> consistent u"
    and "r = Inr b \<Longrightarrow> b \<and> (\<exists>m. movement_of u oid RESERVE = Some m \<and> m_warehouse m = w)"
    and "r = Inl e \<Longrightarrow> u = s \<and> (e = duplicate_key [''orderId'', ''kind''] \<or> (\<exists>p. e = InsufficientStockError p))"
proof -
  let ?items = "reservation_items ord"
  let ?m = "\<lparr>m_order = oid, m_kind = RESERVE, m_warehouse = w, m_items = ?items\<rparr>"
  have dist: "distinct (map stock_key (stock s))" and nonneg: "\<forall>r \<in> set (stock s). 0 \<le> s_quantity r"
    using inv by (simp_all add: consistent_def indexed_def stock_ok_def)
  have ok: "order_ok (Some ord) (Some ?m) (movement_of s oid RELEASE) (charge_of s oid)"
    if "movement_of s oid RESERVE = None"
    using consistent_order [OF inv known] that by (auto simp: order_ok_def)
  show "acts s u \<and> consistent u"
  proof (cases "\<exists>ms rows. insert_movement ?m (movements s) = Inr ms \<and> decrement_items w ?items (stock s) = Inr rows")
    case True
    then obtain ms rows where ins: "insert_movement ?m (movements s) = Inr ms"
      and dec: "decrement_items w ?items (stock s) = Inr rows" by blast
    have u: "u = s\<lparr>movements := ms, stock := rows\<rparr>"
      using tx ins dec by (simp add: reserve_tx_def)
    have "movement_of s oid RESERVE = None"
      using insert_movement_new [OF ins] by (simp add: movement_of_def)
    note new = this and ok = ok [OF this]
    have "saga_event (saga_view s oid) ((saga_view s oid)\<lparr>sv_reserved := True\<rparr>)"
      using new known consistent_order [OF inv known]
      by (intro saga_event.reserve [where st = "o_status ord"]) (auto simp: order_ok_def)
    then show ?thesis
      unfolding u
      using decrement_items_rows [OF dec] decrement_items_level [OF dec dist] ok known
      by (intro ledger_step [OF inv ins decrement_items_keys [OF dec] decrement_items_nonneg [OF dec nonneg]])
        (auto simp: stock_of_def movement_quantity_def)
  next
    case False
    with tx inv show ?thesis
      by (auto simp: reserve_tx_def split: sum.splits)
  qed
  show "r = Inr b \<Longrightarrow> b \<and> (\<exists>m. movement_of u oid RESERVE = Some m \<and> m_warehouse m = w)"
    using tx by (auto simp: reserve_tx_def movement_of_update split: sum.splits)
  have only: "decrement_items w items rows = Inl e \<Longrightarrow> \<exists>p. e = InsufficientStockError p" for items rows e
    by (induction items arbitrary: rows) (auto split: if_splits)
  show "r = Inl e \<Longrightarrow> u = s \<and> (e = duplicate_key [''orderId'', ''kind''] \<or> (\<exists>p. e = InsufficientStockError p))"
    using tx only by (auto simp: reserve_tx_def insert_movement_def split: sum.splits option.splits)
qed

lemma reservation_items_nonneg:
  "order_ok (Some ord) rsv rel chg \<Longrightarrow> \<forall>i \<in> set (reservation_items ord). 0 \<le> i_quantity i"
  by (force simp: order_ok_def reservation_items_def)

text \<open>The release, for an order whose saga has failed: afterwards a reserved order is released.\<close>

lemma release_tx_keeps:
  assumes inv: "consistent s" and known: "order_of s oid = Some ord" and st: "unwinding (o_status ord)"
    and tx: "release_tx oid s = (r, u)"
  shows "acts s u \<and> consistent u"
    and "(movement_of s oid RESERVE \<noteq> None \<longrightarrow> movement_of u oid RELEASE \<noteq> None) \<and> (\<exists>out. r = Inr out)"
proof -
  have step: "(acts s u \<and> consistent u) \<and> movement_of u oid RELEASE \<noteq> None \<and> (\<exists>out. r = Inr out)"
    if rsv: "movement_of s oid RESERVE = Some rm" and rel: "movement_of s oid RELEASE = None" for rm
  proof -
    let ?m = "\<lparr>m_order = oid, m_kind = RELEASE, m_warehouse = m_warehouse rm, m_items = m_items rm\<rparr>"
    let ?rows = "increment_items (m_warehouse rm) (m_items rm) (stock s)"
    obtain ms where ins: "insert_movement ?m (movements s) = Inr ms"
      using rel movement_index.ins_dup [of ?m "movements s"]
      by (auto simp: insert_movement_def movement_of_def movement_key_def split: option.splits)
    have u: "u = s\<lparr>movements := ms, stock := ?rows\<rparr>" and r: "r = Inr Released"
      using tx rsv rel ins by (simp_all add: release_tx_def)
    note ok = consistent_order [OF inv known]
    have items: "m_items rm = reservation_items ord"
      using ok rsv by (simp add: order_ok_def)
    have rm: "rm \<in> set (movements s)"
      using rsv by (auto simp: movement_of_def dest: lookup_in_set)
    have present: "\<forall>i \<in> set (m_items rm). stock_of s (m_warehouse rm) (i_product i) \<noteq> None"
      and nonneg: "\<forall>r \<in> set (stock s). 0 \<le> s_quantity r" and dist: "distinct (map stock_key (stock s))"
      using inv rm by (auto simp: consistent_def stock_ok_def indexed_def)
    have ok': "order_ok (Some ord) (movement_of s oid RESERVE) (Some ?m) (charge_of s oid)"
      using ok st rsv rel by (auto simp: order_ok_def)
    have nonneg': "\<forall>r \<in> set ?rows. 0 \<le> s_quantity r"
      using increment_items_nonneg [OF _ nonneg] reservation_items_nonneg [OF ok] by (simp add: items)
    have "saga_event (saga_view s oid) ((saga_view s oid)\<lparr>sv_released := True\<rparr>)"
      using rsv rel known st by (intro saga_event.give_back [where st = "o_status ord"]) auto
    then have "acts s u \<and> consistent u"
      unfolding u
      using present increment_items_level [OF dist, of "m_items rm" "m_warehouse rm"] ok' known
      by (intro ledger_step [OF inv ins increment_items_keys nonneg'])
        (auto simp: stock_of_def movement_quantity_def)
    then show ?thesis
      using movement_of_update [OF ins, of ?rows oid RELEASE] by (simp add: u r)
  qed
  show "acts s u \<and> consistent u"
    using step tx inv by (cases "movement_of s oid RESERVE"; cases "movement_of s oid RELEASE")
      (auto simp: release_tx_def)
  show "(movement_of s oid RESERVE \<noteq> None \<longrightarrow> movement_of u oid RELEASE \<noteq> None) \<and> (\<exists>out. r = Inr out)"
    using step tx by (cases "movement_of s oid RESERVE"; cases "movement_of s oid RELEASE")
      (auto simp: release_tx_def)
qed

section \<open>The service as its clients see it\<close>

text \<open>
  What the saga worker and the sweeper rely on: the reservation returns a warehouse the
  ledger confirms, the release leaves no reserved order without its release row, and
  neither disturbs anything else.
\<close>

record inventory_api =
  inventory_reserveForOrder :: "object_id \<Rightarrow> coordinates \<Rightarrow> reservation_item list \<Rightarrow> reservation_result io"
  inventory_releaseForOrder :: "object_id \<Rightarrow> release_outcome io"

locale inventory_service =
  fixes inventory :: inventory_api
  assumes reserve_safe:
      "\<lbrakk>order_of s oid = Some ord;
        \<And>t rr m. \<lbrakk>evolves s t; consistent t; movement_of t oid RESERVE = Some m; m_warehouse m = rr_warehouse rr\<rbrakk> \<Longrightarrow> Q rr t;
        \<And>t e. \<lbrakk>evolves s t; consistent t; e \<noteq> OutOfFuel\<rbrakk> \<Longrightarrow> E e t\<rbrakk> \<Longrightarrow>
       safely Q E (inventory_reserveForOrder inventory oid loc (reservation_items ord)) s"
    and release_safe:
      "\<lbrakk>order_of s oid = Some ord; unwinding (o_status ord);
        \<And>t out. \<lbrakk>evolves s t; consistent t;
          movement_of t oid RESERVE \<noteq> None \<longrightarrow> movement_of t oid RELEASE \<noteq> None\<rbrakk> \<Longrightarrow> Ql out t;
        \<And>t e. \<lbrakk>evolves s t; consistent t; e \<noteq> OutOfFuel\<rbrakk> \<Longrightarrow> E e t\<rbrakk> \<Longrightarrow>
       safely Ql E (inventory_releaseForOrder inventory oid) s"

definition inventory_impl :: inventory_api where
  "inventory_impl =
     \<lparr>inventory_reserveForOrder = reserveForOrder, inventory_releaseForOrder = releaseForOrder\<rparr>"

lemma safe_rethrow:
  assumes "Q None s" and "\<And>e. e \<noteq> OutOfFuel \<Longrightarrow> E e s" and "e \<noteq> OutOfFuel"
  shows "safely Q E (rethrow_unless_insufficient e) s"
  using assms by (auto simp: rethrow_unless_insufficient_def split: exn.splits)

lemma safe_reserve_failed:
  assumes Q: "\<And>t rr m. \<lbrakk>evolves s t; consistent t; movement_of t oid RESERVE = Some m; m_warehouse m = rr_warehouse rr\<rbrakk>
      \<Longrightarrow> Q (Some rr) t"
    and none: "\<And>t. \<lbrakk>evolves s t; consistent t\<rbrakk> \<Longrightarrow> Q None t"
    and E: "\<And>t e. \<lbrakk>evolves s t; consistent t; e \<noteq> OutOfFuel\<rbrakk> \<Longrightarrow> E e t"
    and u: "evolves s u" "consistent u" "e \<noteq> OutOfFuel"
  shows "safely Q E (reserve_failed oid e) u"
proof (cases "isDuplicateKeyError e (Some ''orderId'')")
  case True
  have "safely Q E (case movement_of t oid RESERVE of
      Some m \<Rightarrow> Return (Some \<lparr>rr_warehouse = m_warehouse m, rr_replayed = True\<rparr>)
    | None \<Rightarrow> rethrow_unless_insufficient e) t" if "evolves s t" and "consistent t" for t
    using that u(3) by (auto intro!: safe_rethrow Q none E split: option.split)
  note read = this
  have "safely Q E (await (db_read (\<lambda>s. movement_of s oid RESERVE)) (\<lambda>won.
      case won of Some m \<Rightarrow> Return (Some \<lparr>rr_warehouse = m_warehouse m, rr_replayed = True\<rparr>)
      | None \<Rightarrow> rethrow_unless_insufficient e)) u"
  proof (rule safe_await, rule safe_db_read)
    fix t
    assume ut: "evolves u t" and t: "consistent t"
    note later = evolves_trans [OF u(1) ut] t
    show "safely Q E (case movement_of t oid RESERVE of
        Some m \<Rightarrow> Return (Some \<lparr>rr_warehouse = m_warehouse m, rr_replayed = True\<rparr>)
      | None \<Rightarrow> rethrow_unless_insufficient e) t"
      by (rule read [OF later])
    show "E net_error t" by (rule E [OF later]) simp
  qed
  with True show ?thesis by (simp add: reserve_failed_def)
next
  case False
  then show ?thesis
    using u by (auto simp: reserve_failed_def intro!: safe_rethrow none E)
qed

lemma safe_tryReserveAt:
  assumes known: "order_of s oid = Some ord"
    and Q: "\<And>t rr m. \<lbrakk>evolves s t; consistent t; movement_of t oid RESERVE = Some m; m_warehouse m = rr_warehouse rr\<rbrakk>
      \<Longrightarrow> Q (Some rr) t"
    and none: "\<And>t. \<lbrakk>evolves s t; consistent t\<rbrakk> \<Longrightarrow> Q None t"
    and E: "\<And>t e. \<lbrakk>evolves s t; consistent t; e \<noteq> OutOfFuel\<rbrakk> \<Longrightarrow> E e t"
  shows "safely Q E (tryReserveAt oid w (reservation_items ord)) s"
  unfolding tryReserveAt_def
proof (rule safe_catching, rule safe_await, rule safe_db)
  note handler = safe_reserve_failed [of s oid Q E, OF Q none E]
  fix t r u
  assume st: "evolves s t" and inv: "consistent t" and tx: "reserve_tx oid w (reservation_items ord) t = (r, u)"
  obtain ord' where known': "order_of t oid = Some ord'" and "request_of ord' = request_of ord"
    using evolves_orderE [OF st known] by metis
  then have "reservation_items ord = reservation_items ord'"
    by (intro request_of_items) simp
  note keeps = reserve_tx_keeps [OF inv known' tx [unfolded this]]
  have "case r of Inl e \<Rightarrow> safely Q E (reserve_failed oid e) u
      | Inr reserved \<Rightarrow> Q (if reserved then Some \<lparr>rr_warehouse = w, rr_replayed = False\<rparr> else None) u"
    if "evolves s u"
    using keeps handler that by (cases r) (auto simp: duplicate_key_def intro!: Q)
  with keeps(1) show "acts t u \<and> consistent u \<and> (evolves s u \<longrightarrow> (case r of
      Inl e \<Rightarrow> safely Q E (reserve_failed oid e) u
    | Inr reserved \<Rightarrow> safely Q (\<lambda>e. safely Q E (reserve_failed oid e))
        (Return (if reserved then Some \<lparr>rr_warehouse = w, rr_replayed = False\<rparr> else None)) u))"
    by (cases r) simp_all
next
  fix t
  assume "evolves s t" and "consistent t"
  then show "safely Q E (reserve_failed oid net_error) t"
    by (intro safe_reserve_failed [of s oid Q E, OF Q none E]) simp_all
qed

lemma safe_try_candidates:
  assumes known: "order_of s oid = Some ord"
    and Q: "\<And>t rr m. \<lbrakk>evolves s t; consistent t; movement_of t oid RESERVE = Some m; m_warehouse m = rr_warehouse rr\<rbrakk>
      \<Longrightarrow> Q rr t"
    and E: "\<And>t e. \<lbrakk>evolves s t; consistent t; e \<noteq> OutOfFuel\<rbrakk> \<Longrightarrow> E e t"
    and I: "consistent s"
  shows "safely Q E (try_candidates oid (reservation_items ord) candidates) s"
  using assms
proof (induction candidates arbitrary: s ord)
  case Nil
  then show ?case by simp
next
  case (Cons c candidates)
  have "safely Q E (try_candidates oid (reservation_items ord) candidates) t"
    if st: "evolves s t" and I: "consistent t" for t
  proof -
    obtain ord' where "order_of t oid = Some ord'" and "reservation_items ord = reservation_items ord'"
      using evolves_orderE [OF st Cons.prems(1)] request_of_items by metis
    then show ?thesis
      using Cons.IH [of t ord'] Cons.prems(2,3) I st evolves_trans by metis
  qed
  then show ?case
    unfolding try_candidates.simps
    by (intro safe_await safe_tryReserveAt [OF Cons.prems(1)]) (auto intro: Cons.prems)
qed

interpretation inventory: inventory_service inventory_impl
proof
  fix s oid ord loc and Q :: "reservation_result \<Rightarrow> world \<Rightarrow> bool" and E
  assume known: "order_of s oid = Some ord"
    and Q: "\<And>t rr m. \<lbrakk>evolves s t; consistent t; movement_of t oid RESERVE = Some m; m_warehouse m = rr_warehouse rr\<rbrakk>
      \<Longrightarrow> Q rr t"
    and E: "\<And>t e. \<lbrakk>evolves s t; consistent t; e \<noteq> OutOfFuel\<rbrakk> \<Longrightarrow> E e t"
  have cands: "safely Q E (try_candidates oid (reservation_items ord) cs) t"
    if st: "evolves s t" and I: "consistent t" for t cs
  proof -
    obtain ord' where "order_of t oid = Some ord'" and "reservation_items ord = reservation_items ord'"
      using evolves_orderE [OF st known] request_of_items by metis
    then show ?thesis
      using safe_try_candidates [of t oid ord' Q E cs] Q E I st evolves_trans by metis
  qed
  have "safely (\<lambda>cs. safely Q E (try_candidates oid (reservation_items ord) cs)) E
      (findCandidateWarehouses loc (reservation_items ord)) t" if "evolves s t" and "consistent t" for t
    unfolding findCandidateWarehouses_def
    using that evolves_trans E by (auto intro!: safe_await safe_db_read cands)
  then show "safely Q E (inventory_reserveForOrder inventory_impl oid loc (reservation_items ord)) s"
    unfolding inventory_impl_def reserveForOrder_def inventory_api.simps
    by (intro safe_await safe_db_read) (auto intro: Q E safe_await split: option.split)
next
  fix s oid ord and Q :: "release_outcome \<Rightarrow> world \<Rightarrow> bool" and E
  assume known: "order_of s oid = Some ord" and unwinding: "unwinding (o_status ord)"
    and Q: "\<And>t out. \<lbrakk>evolves s t; consistent t;
          movement_of t oid RESERVE \<noteq> None \<longrightarrow> movement_of t oid RELEASE \<noteq> None\<rbrakk> \<Longrightarrow> Q out t"
    and E: "\<And>t e. \<lbrakk>evolves s t; consistent t; e \<noteq> OutOfFuel\<rbrakk> \<Longrightarrow> E e t"
  show "safely Q E (inventory_releaseForOrder inventory_impl oid) s"
    unfolding inventory_impl_def releaseForOrder_def inventory_api.simps
  proof (rule safe_catching, rule safe_db)
    fix t r u
    assume st: "evolves s t" and inv: "consistent t" and tx: "release_tx oid t = (r, u)"
    obtain ord' where known': "order_of t oid = Some ord'" and "o_status ord \<le> o_status ord'"
      using evolves_orderE [OF st known] by metis
    then have "unwinding (o_status ord')"
      using unwinding unwinding_le by blast
    note keeps = release_tx_keeps [OF inv known' this tx]
    have "movement_of u oid RESERVE \<noteq> None \<longrightarrow> movement_of u oid RELEASE \<noteq> None"
      using keeps(2) tx by (auto simp: release_tx_def split: option.splits)
    with keeps Q show "acts t u \<and> consistent u \<and> (evolves s u \<longrightarrow> (case r of
        Inl e \<Rightarrow> safely Q E (if isDuplicateKeyError e (Some ''orderId'') then Return Noop else Throw e) u
      | Inr out \<Rightarrow> Q out u))"
      by auto
  qed (simp add: E)
qed

end
