(* ===== verification/Orders_Repository.thy ===== *)
theory Orders_Repository
  imports Invariants
begin

text \<open>
  \<open>orders/orders.repository.ts\<close>: the reads of orders, the compare-and-swap every status
  change goes through, and the sweeper's claim of a stale order.
\<close>

section \<open>Operations\<close>

record transition_patch =
  tp_warehouse :: "object_id option"
  tp_payment :: "payment_result option"
  tp_error :: "string option"
  tp_failure :: "failure_code option"

definition no_patch :: transition_patch where
  "no_patch = \<lparr>tp_warehouse = None, tp_payment = None, tp_error = None, tp_failure = None\<rparr>"

definition findById :: "object_id \<Rightarrow> order option io" where
  "findById orderId = db_read (\<lambda>s. order_of s orderId)"

definition findByIdempotencyKey :: "object_id \<Rightarrow> string \<Rightarrow> order option io" where
  "findByIdempotencyKey customerId idempotencyKey =
     db_read (\<lambda>s. lookup order_key (orders s) (ObjectId customerId, idempotencyKey))"

text \<open>A key the patch leaves out keeps its value; one it names is set.\<close>

definition patched :: "'v option \<Rightarrow> 'v option \<Rightarrow> 'v option" where
  "patched new old = (case new of None \<Rightarrow> old | Some v \<Rightarrow> Some v)"

definition apply_transition :: "order_status \<Rightarrow> transition_patch \<Rightarrow> date \<Rightarrow> order \<Rightarrow> order" where
  "apply_transition to patch ts ord =
     ord\<lparr>o_status := to,
         o_warehouse := patched (tp_warehouse patch) (o_warehouse ord),
         o_payment := patched (tp_payment patch) (o_payment ord),
         o_error := patched (tp_error patch) (o_error ord),
         o_failure := patched (tp_failure patch) (o_failure ord),
         o_sweep_lease := None,
         o_updated := ts\<rparr>"

definition transition_op :: "object_id \<Rightarrow> order_status \<Rightarrow> order_status \<Rightarrow> transition_patch \<Rightarrow>
    world \<Rightarrow> (exn + order option) \<times> world" where
  "transition_op orderId frm to patch s =
     (let matches = (\<lambda>ord. o_id ord = orderId \<and> o_status ord = frm);
          update = apply_transition to patch (now s)
      in (Inr (map_option update (find matches (orders s))),
          s\<lparr>orders := update_one matches update (orders s)\<rparr>))"

definition transition :: "object_id \<Rightarrow> order_status \<Rightarrow> order_status \<Rightarrow> transition_patch \<Rightarrow> order option io" where
  "transition orderId frm to patch = db (transition_op orderId frm to patch)"

text \<open>
  The claim: unleased, or its lease run out, and not updated for \<open>staleAfterMs\<close>; the one
  waiting longest. \<open>timestamps: false\<close>, so \<open>updatedAt\<close> stays.
\<close>

definition stale :: "order_status \<Rightarrow> int \<Rightarrow> date \<Rightarrow> order \<Rightarrow> bool" where
  "stale status staleAfterMs ts ord \<longleftrightarrow>
     o_status ord = status \<and> o_updated ord \<le> ts - staleAfterMs
     \<and> (case o_sweep_lease ord of None \<Rightarrow> True | Some lease \<Rightarrow> lease \<le> ts)"

definition lease_order :: "int \<Rightarrow> date \<Rightarrow> order \<Rightarrow> order" where
  "lease_order leaseMs ts ord =
     ord\<lparr>o_sweep_lease := Some (ts + leaseMs), o_sweep_attempts := o_sweep_attempts ord + 1\<rparr>"

definition claim_op :: "order_status \<Rightarrow> int \<Rightarrow> int \<Rightarrow> date \<Rightarrow> world \<Rightarrow> (exn + order option) \<times> world" where
  "claim_op status staleAfterMs leaseMs ts s =
     (case claim_row o_updated o_id (stale status staleAfterMs ts) (lease_order leaseMs ts) (orders s) of
        (claimed, rows) \<Rightarrow> (Inr claimed, s\<lparr>orders := rows\<rparr>))"

definition claimStale :: "order_status \<Rightarrow> int \<Rightarrow> int \<Rightarrow> order option io" where
  "claimStale status staleAfterMs leaseMs =
     await (sample now) (\<lambda>ts. db (claim_op status staleAfterMs leaseMs ts))"

text \<open>The listing: filter, newest first, one page; and the number of all matches.\<close>

record list_orders_filter =
  lf_customer :: "object_id option"
  lf_status :: "order_status option"
  lf_page :: nat
  lf_limit :: nat

definition matches_filter :: "list_orders_filter \<Rightarrow> order \<Rightarrow> bool" where
  "matches_filter f ord \<longleftrightarrow>
     (case lf_customer f of None \<Rightarrow> True | Some c \<Rightarrow> o_customer ord = ObjectId c)
     \<and> (case lf_status f of None \<Rightarrow> True | Some st \<Rightarrow> o_status ord = st)"

definition list_orders :: "list_orders_filter \<Rightarrow> (order list \<times> nat) io" where
  "list_orders f =
     await (db_read (\<lambda>s. take (lf_limit f) (drop ((lf_page f - 1) * lf_limit f)
              (sort_key (\<lambda>ord. - o_created ord) (filter (matches_filter f) (orders s)))))) (\<lambda>items.
     await (db_read (\<lambda>s. length (filter (matches_filter f) (orders s)))) (\<lambda>total.
     Return (items, total)))"

text \<open>A claimed order is not stale again before its lease has run out.\<close>

interpretation sweep_lease: claim_lease o_id "stale status staleAfterMs" "lease_order leaseMs" leaseMs
  by unfold_locales (simp_all add: stale_def lease_order_def)

section \<open>One order changes\<close>

lemma apply_transition_simps [simp]:
  "o_id (apply_transition to patch ts ord) = o_id ord"
  "o_items (apply_transition to patch ts ord) = o_items ord"
  "o_total (apply_transition to patch ts ord) = o_total ord"
  "o_status (apply_transition to patch ts ord) = to"
  "o_warehouse (apply_transition to patch ts ord) = patched (tp_warehouse patch) (o_warehouse ord)"
  "o_payment (apply_transition to patch ts ord) = patched (tp_payment patch) (o_payment ord)"
  "o_failure (apply_transition to patch ts ord) = patched (tp_failure patch) (o_failure ord)"
  "order_key (apply_transition to patch ts ord) = order_key ord"
  "request_of (apply_transition to patch ts ord) = request_of ord"
  "reservation_items (apply_transition to patch ts ord) = reservation_items ord"
  by (simp_all add: apply_transition_def order_key_def request_of_def reservation_items_def)

lemma lease_order_simps [simp]:
  "o_id (lease_order ms ts ord) = o_id ord"
  "o_status (lease_order ms ts ord) = o_status ord"
  "order_key (lease_order ms ts ord) = order_key ord"
  "order_ok (Some (lease_order ms ts ord)) = order_ok (Some ord)"
  "request_of (lease_order ms ts ord) = request_of ord"
  "o_warehouse (lease_order ms ts ord) = o_warehouse ord"
  by (simp_all add: lease_order_def order_key_def order_ok_def request_of_def reservation_items_def fun_eq_iff)

lemma patched_simps [simp]: "patched None v = v" "patched (Some x) v = Some x"
  by (simp_all add: patched_def)

lemma no_patch_simps [simp]:
  "tp_warehouse no_patch = None" "tp_payment no_patch = None"
  "tp_error no_patch = None" "tp_failure no_patch = None"
  by (simp_all add: no_patch_def)

text \<open>
  A step that rewrites one order: consistent again when the new document fits the order's
  ledger rows and charge, and an evolution when it is a later version of the old one.
\<close>

lemma order_of_update:
  assumes "consistent s" and "\<And>x. o_id (f x) = o_id x"
  shows "order_of (s\<lparr>orders := update_one (\<lambda>x. o_id x = oid \<and> P x) f (orders s)\<rparr>) =
    (order_of s)(oid := map_option (\<lambda>x. if P x then f x else x) (order_of s oid))"
  using assms by (simp add: order_of_def lookup_update_one consistent_def indexed_def)

lemma order_step:
  assumes inv: "consistent s" and known: "order_of s oid = Some ord"
    and id: "\<And>x. o_id (f x) = o_id x" and key: "\<And>x. order_key (f x) = order_key x"
    and ok: "P ord \<Longrightarrow>
      order_ok (Some (f ord)) (movement_of s oid RESERVE) (movement_of s oid RELEASE) (charge_of s oid)"
    and ev: "P ord \<Longrightarrow> order_evolves ord (f ord)"
    and edge: "P ord \<Longrightarrow> o_status (f ord) \<noteq> o_status ord \<Longrightarrow>
      saga_edge (o_status ord) (o_status (f ord)) \<and> edge_confirmed (saga_view s oid) (o_status (f ord))"
  defines "u \<equiv> s\<lparr>orders := update_one (\<lambda>x. o_id x = oid \<and> P x) f (orders s)\<rparr>"
  shows "acts s u \<and> consistent u \<and> order_of u oid = Some (if P ord then f ord else ord)"
proof -
  have new: "order_of u = (order_of s)(oid := Some (if P ord then f ord else ord))"
    unfolding u_def using order_of_update [OF inv id] known by simp
  have same [simp]: "movement_of u = movement_of s" "charge_of u = charge_of s" "outbox u = outbox s"
    "stock_of u = stock_of s" "stock u = stock s" "movements u = movements s" "charges u = charges s"
    by (simp_all add: u_def movement_of_def [abs_def] charge_of_def [abs_def] stock_of_def [abs_def])
  have "map o_id (orders u) = map o_id (orders s)" "map order_key (orders u) = map order_key (orders s)"
    by (simp_all add: u_def map_update_one id key)
  then have "indexed u" using inv by (simp add: consistent_def indexed_def)
  moreover have "stock_ok u" using inv by (simp add: consistent_def stock_ok_def)
  moreover have "announced u" using inv known by (auto simp: consistent_def announced_def new)
  moreover have "order_ok (order_of u x) (movement_of u x RESERVE) (movement_of u x RELEASE) (charge_of u x)" for x
    using ok consistent_order [OF inv known] inv by (cases "x = oid") (auto simp: consistent_def new)
  moreover have "evolves s u"
    using ev known by (auto simp: evolves_def new)
  moreover have "balance u w p = balance s w p" for w p
    by (simp add: balance_def)
  moreover have "saga_view u x = saga_view s x \<or> saga_event (saga_view s x) (saga_view u x)" for x
  proof (cases "x = oid \<and> P ord \<and> o_status (f ord) \<noteq> o_status ord")
    case True
    then have "saga_view u x = (saga_view s x)\<lparr>sv_status := Some (o_status (f ord))\<rparr>"
      by (simp add: saga_view_def new)
    with saga_event_edge [of "saga_view s x" "o_status ord"] edge True known show ?thesis by simp
  qed (use known in \<open>auto simp: saga_view_def new\<close>)
  ultimately show ?thesis by (simp add: consistent_def conserves_def acts_def new)
qed

lemma find_by_id:
  assumes "consistent s" and "order_of s oid = Some ord"
  shows "find (\<lambda>x. o_id x = oid \<and> P x) (orders s) = (if P ord then Some ord else None)"
proof -
  have dist: "distinct (map o_id (orders s))"
    using assms(1) by (simp add: consistent_def indexed_def)
  from assms(2) show ?thesis
    unfolding order_of_def using dist
  proof (induction "orders s" arbitrary: s rule: list.induct)
    case Nil
    then show ?case by simp
  next
    case (Cons x xs)
    show ?case
    proof (cases "o_id x = oid")
      case True
      with Cons.hyps(2) Cons.prems show ?thesis
        by (cases "orders s") (auto simp: find_None_iff image_iff)
    next
      case False
      with Cons.hyps(1) [of "s\<lparr>orders := xs\<rparr>"] Cons.hyps(2) [symmetric] Cons.prems show ?thesis
        by auto
    qed
  qed
qed

text \<open>A claim returns an order of the claimed status.\<close>

lemma claim_op_status:
  assumes "fst (claim_op st staleAfterMs leaseMs ts s) = Inr (Some d)"
    and "consistent s" and "order_of s oid = Some ord" and "o_status ord \<noteq> st"
  shows "o_id d \<noteq> oid"
proof -
  have dist: "distinct (map o_id (orders s))" using assms(2) by (simp add: consistent_def indexed_def)
  obtain rows where claim: "claim_row o_updated o_id (stale st staleAfterMs ts) (lease_order leaseMs ts) (orders s) = (Some d, rows)"
    using assms(1) by (auto simp: claim_op_def split: prod.splits)
  obtain e where "e \<in> set (orders s)" "o_status e = st" "o_id d = o_id e"
    by (rule claim_row_Some [OF claim]) (auto simp: stale_def lease_order_def)
  with lookup_distinct [OF dist, of e] assms(3,4) show ?thesis by (auto simp: order_of_def)
qed

section \<open>The repository as its clients see it\<close>

text \<open>
  The contract of the compare-and-swap. One law per edge of the state machine, each naming
  what the caller must have learnt before it may take that edge: the reservation the ledger
  confirms, the charge the provider confirms, the release the ledger confirms. Afterwards
  the order is past the status the swap started from, whoever moved it.
\<close>

record orders_api =
  orders_findById :: "object_id \<Rightarrow> order option io"
  orders_transition :: "object_id \<Rightarrow> order_status \<Rightarrow> order_status \<Rightarrow> transition_patch \<Rightarrow> order option io"
  orders_claimStale :: "order_status \<Rightarrow> int \<Rightarrow> int \<Rightarrow> order option io"

definition reserved_patch :: "object_id \<Rightarrow> transition_patch" where
  "reserved_patch w = no_patch\<lparr>tp_warehouse := Some w\<rparr>"

definition failed_patch :: "failure_code \<Rightarrow> string \<Rightarrow> transition_patch" where
  "failed_patch code msg = no_patch\<lparr>tp_failure := Some code, tp_error := Some msg\<rparr>"

definition paid_patch :: "payment_result \<Rightarrow> transition_patch" where
  "paid_patch result = no_patch\<lparr>tp_payment := Some result\<rparr>"

definition unwind_patch :: "failure_code \<Rightarrow> string \<Rightarrow> payment_result option \<Rightarrow> transition_patch" where
  "unwind_patch code msg result =
     no_patch\<lparr>tp_failure := Some code, tp_error := Some msg, tp_payment := result\<rparr>"

lemmas patch_defs = reserved_patch_def failed_patch_def paid_patch_def unwind_patch_def

text \<open>What a swap along an edge must be told, in terms of the ledgers.\<close>

definition may_take :: "world \<Rightarrow> object_id \<Rightarrow> order_status \<Rightarrow> order_status \<Rightarrow> transition_patch \<Rightarrow> bool" where
  "may_take s oid frm to patch \<longleftrightarrow> saga_edge frm to \<and>
     (case to of
        STOCK_RESERVED \<Rightarrow>
          (\<exists>m. movement_of s oid RESERVE = Some m \<and> patch = reserved_patch (m_warehouse m))
      | FAILED \<Rightarrow>
          (\<exists>code msg. code \<in> {OUT_OF_STOCK, RECONCILED_TIMEOUT} \<and> patch = failed_patch code msg)
      | PAYMENT_AUTHORIZED \<Rightarrow>
          (\<exists>c r. charge_of s oid = Some c \<and> c_status c = SUCCEEDED \<and> records_charge r c \<and> patch = paid_patch r)
      | COMPENSATING \<Rightarrow> (\<exists>code msg r. patch = unwind_patch code msg r)
      | COMPLETED \<Rightarrow> patch = no_patch
      | COMPENSATED \<Rightarrow> movement_of s oid RELEASE \<noteq> None \<and> patch = no_patch
      | PENDING \<Rightarrow> False)"

locale order_store =
  fixes store :: orders_api
  assumes find_safe:
      "\<lbrakk>\<And>t. \<lbrakk>evolves s t; consistent t\<rbrakk> \<Longrightarrow> Q (order_of t oid) t;
        \<And>t e. \<lbrakk>evolves s t; consistent t; e \<noteq> OutOfFuel\<rbrakk> \<Longrightarrow> E e t\<rbrakk> \<Longrightarrow>
       safely Q E (orders_findById store oid) s"
    and swap_safe:
      "\<lbrakk>order_of s oid = Some ord; may_take s oid frm to patch;
        \<And>t res cur. \<lbrakk>evolves s t; consistent t; order_of t oid = Some cur; o_status cur \<noteq> frm;
          res \<noteq> None \<longrightarrow> res = Some cur \<and> o_status cur = to\<rbrakk> \<Longrightarrow> Q res t;
        \<And>t e. \<lbrakk>evolves s t; consistent t; e \<noteq> OutOfFuel\<rbrakk> \<Longrightarrow> E e t\<rbrakk> \<Longrightarrow>
       safely Q E (orders_transition store oid frm to patch) s"
    and claim_safe:
      "\<lbrakk>\<not> isTerminal status;
        \<And>t cur. \<lbrakk>evolves s t; consistent t; order_of t (o_id cur) = Some cur; o_status cur = status\<rbrakk>
          \<Longrightarrow> Q (Some cur) t;
        \<And>t. \<lbrakk>evolves s t; consistent t\<rbrakk> \<Longrightarrow> Q None t;
        \<And>t e. \<lbrakk>evolves s t; consistent t; e \<noteq> OutOfFuel\<rbrakk> \<Longrightarrow> E e t\<rbrakk> \<Longrightarrow>
       safely Q E (orders_claimStale store status staleAfterMs leaseMs) s"

definition orders_impl :: orders_api where
  "orders_impl = \<lparr>orders_findById = findById, orders_transition = transition, orders_claimStale = claimStale\<rparr>"

lemma may_take_later:
  assumes "may_take s oid frm to patch" and "evolves s t"
  shows "may_take t oid frm to patch"
  using assms evolves_movement [OF assms(2)] evolves_charge [OF assms(2)]
  unfolding may_take_def by (cases to) auto

lemma taken_edge_ok:
  assumes "order_ok (Some ord) (movement_of s oid RESERVE) (movement_of s oid RELEASE) (charge_of s oid)"
    and "may_take s oid (o_status ord) to patch"
  shows "order_ok (Some (apply_transition to patch ts ord))
    (movement_of s oid RESERVE) (movement_of s oid RELEASE) (charge_of s oid)"
    and "order_evolves ord (apply_transition to patch ts ord)"
proof -
  show "order_evolves ord (apply_transition to patch ts ord)"
    using assms saga_edge_less [of "o_status ord" to]
    by (cases "o_status ord"; cases to)
      (auto simp: order_evolves_def may_take_def patch_defs order_ok_def status_classes less_imp_le)
  show "order_ok (Some (apply_transition to patch ts ord))
    (movement_of s oid RESERVE) (movement_of s oid RELEASE) (charge_of s oid)"
    using assms
    by (cases "o_status ord"; cases to)
      (auto simp: may_take_def patch_defs order_ok_def status_classes)
qed

lemma transition_op_keeps:
  assumes inv: "consistent s" and known: "order_of s oid = Some ord" and may: "may_take s oid frm to patch"
    and op: "transition_op oid frm to patch s = (r, u)"
  shows "acts s u \<and> consistent u"
    and "\<exists>cur. order_of u oid = Some cur \<and> o_status cur \<noteq> frm \<and>
      (\<exists>res. r = Inr res \<and> (res \<noteq> None \<longrightarrow> res = Some cur \<and> o_status cur = to))"
proof -
  let ?f = "apply_transition to patch (now s)"
  have u: "u = s\<lparr>orders := update_one (\<lambda>x. o_id x = oid \<and> o_status x = frm) ?f (orders s)\<rparr>"
    and r: "r = Inr (if o_status ord = frm then Some (?f ord) else None)"
    using op find_by_id [OF inv known] by (auto simp: transition_op_def Let_def)
  have neq: "to \<noteq> frm"
    using may by (cases to; cases frm) (auto simp: may_take_def)
  have "saga_edge frm to \<and> edge_confirmed (saga_view s oid) to"
    using may by (cases to) (auto simp: may_take_def edge_confirmed_def)
  note step = order_step [OF inv known, of ?f "\<lambda>x. o_status x = frm"] and edge = this
  have "acts s u \<and> consistent u \<and> order_of u oid = Some (if o_status ord = frm then ?f ord else ord)"
    unfolding u using taken_edge_ok [OF consistent_order [OF inv known], of to patch "now s"] may edge
    by (intro step) auto
  with neq show "acts s u \<and> consistent u"
    and "\<exists>cur. order_of u oid = Some cur \<and> o_status cur \<noteq> frm \<and>
      (\<exists>res. r = Inr res \<and> (res \<noteq> None \<longrightarrow> res = Some cur \<and> o_status cur = to))"
    by (simp_all add: r)
qed

lemma claim_op_keeps:
  assumes inv: "consistent s" and live: "\<not> isTerminal status"
    and op: "claim_op status staleAfterMs leaseMs ts s = (r, u)"
  shows "acts s u \<and> consistent u"
    and "r = Inr None \<or> (\<exists>cur. r = Inr (Some cur) \<and> order_of u (o_id cur) = Some cur \<and> o_status cur = status)"
proof -
  have "(acts s u \<and> consistent u) \<and>
    (r = Inr None \<or> (\<exists>cur. r = Inr (Some cur) \<and> order_of u (o_id cur) = Some cur \<and> o_status cur = status))"
  proof (cases "claim_row o_updated o_id (stale status staleAfterMs ts) (lease_order leaseMs ts) (orders s)")
    case (Pair claimed rows)
    show ?thesis
    proof (cases claimed)
    case None
    with Pair op inv claim_row_None show ?thesis by (fastforce simp: claim_op_def)
  next
    case (Some cur)
    obtain ord where mem: "ord \<in> set (orders s)" and st: "o_status ord = status"
      and cur: "cur = lease_order leaseMs ts ord"
      and rows: "rows = update_one (\<lambda>x. o_id x = o_id ord) (lease_order leaseMs ts) (orders s)"
      by (rule claim_row_Some [OF Pair [unfolded Some]]) (auto simp: stale_def)
    have known: "order_of s (o_id ord) = Some ord"
      using inv mem by (simp add: order_of_def consistent_def indexed_def lookup_distinct)
    have u: "u = s\<lparr>orders := update_one (\<lambda>x. o_id x = o_id ord \<and> True) (lease_order leaseMs ts) (orders s)\<rparr>"
      and r: "r = Inr (Some (lease_order leaseMs ts ord))"
      using op Pair Some by (auto simp: claim_op_def cur rows)
    note step = order_step [OF inv known, of "lease_order leaseMs ts" "\<lambda>_. True"]
    have "acts s u \<and> consistent u \<and> order_of u (o_id ord) =
        Some (if True then lease_order leaseMs ts ord else ord)"
      unfolding u using consistent_order [OF inv known] live st
      by (intro step) (auto simp: order_evolves_def)
    with r st show ?thesis by simp
  qed
  qed
  then show "acts s u \<and> consistent u"
    and "r = Inr None \<or> (\<exists>cur. r = Inr (Some cur) \<and> order_of u (o_id cur) = Some cur \<and> o_status cur = status)"
    by blast+
qed

interpretation repository: order_store orders_impl
proof
  fix s oid and Q :: "order option \<Rightarrow> world \<Rightarrow> bool" and E
  assume "\<And>t. \<lbrakk>evolves s t; consistent t\<rbrakk> \<Longrightarrow> Q (order_of t oid) t"
    and "\<And>t e. \<lbrakk>evolves s t; consistent t; e \<noteq> OutOfFuel\<rbrakk> \<Longrightarrow> E e t"
  then show "safely Q E (orders_findById orders_impl oid) s"
    by (simp add: orders_impl_def findById_def safe_db_read)
next
  fix s oid ord frm to patch and Q :: "order option \<Rightarrow> world \<Rightarrow> bool" and E
  assume known: "order_of s oid = Some ord" and may: "may_take s oid frm to patch"
    and Q: "\<And>t res cur. \<lbrakk>evolves s t; consistent t; order_of t oid = Some cur; o_status cur \<noteq> frm;
          res \<noteq> None \<longrightarrow> res = Some cur \<and> o_status cur = to\<rbrakk> \<Longrightarrow> Q res t"
    and E: "\<And>t e. \<lbrakk>evolves s t; consistent t; e \<noteq> OutOfFuel\<rbrakk> \<Longrightarrow> E e t"
  show "safely Q E (orders_transition orders_impl oid frm to patch) s"
    unfolding orders_impl_def orders_api.simps transition_def
  proof (rule safe_dbI)
    fix t r u
    assume st: "evolves s t" and I: "consistent t" and op: "transition_op oid frm to patch t = (r, u)"
    obtain ord' where known': "order_of t oid = Some ord'"
      using evolves_orderE [OF st known] by metis
    show "acts t u \<and> consistent u"
      by (rule transition_op_keeps(1) [OF I known' may_take_later [OF may st] op])
  next
    fix t res u
    assume st: "evolves s t" and I: "consistent t" and op: "transition_op oid frm to patch t = (Inr res, u)"
      and u: "evolves s u" "consistent u"
    obtain ord' where known': "order_of t oid = Some ord'"
      using evolves_orderE [OF st known] by metis
    from transition_op_keeps(2) [OF I known' may_take_later [OF may st] op]
    show "Q res u" using Q [OF u] by auto
  qed (auto simp: transition_op_def Let_def E)
next
  fix s status staleAfterMs leaseMs and Q :: "order option \<Rightarrow> world \<Rightarrow> bool" and E
  assume live: "\<not> isTerminal status"
    and Q: "\<And>t cur. \<lbrakk>evolves s t; consistent t; order_of t (o_id cur) = Some cur; o_status cur = status\<rbrakk>
          \<Longrightarrow> Q (Some cur) t"
    and none: "\<And>t. \<lbrakk>evolves s t; consistent t\<rbrakk> \<Longrightarrow> Q None t"
    and E: "\<And>t e. \<lbrakk>evolves s t; consistent t; e \<noteq> OutOfFuel\<rbrakk> \<Longrightarrow> E e t"
  have claim: "safely Q E (db (claim_op status staleAfterMs leaseMs ts)) t" if st: "evolves s t" for t ts
  proof (rule safe_dbI)
    fix t' r u
    assume "consistent t'" and "claim_op status staleAfterMs leaseMs ts t' = (r, u)"
    then show "acts t' u \<and> consistent u"
      by (rule claim_op_keeps(1) [OF _ live])
  next
    fix t' res u
    assume "consistent t'" and "claim_op status staleAfterMs leaseMs ts t' = (Inr res, u)"
      and "evolves t u" and I: "consistent u"
    with claim_op_keeps(2) [OF _ live] evolves_trans [OF st]
    have "res = None \<or> (\<exists>cur. res = Some cur \<and> order_of u (o_id cur) = Some cur \<and> o_status cur = status)"
      and "evolves s u" by blast+
    with I show "Q res u" by (auto intro: Q none)
  qed (auto simp: claim_op_def E evolves_trans [OF st] split: prod.splits)
  then show "safely Q E (orders_claimStale orders_impl status staleAfterMs leaseMs) s"
    unfolding orders_impl_def orders_api.simps claimStale_def
    by (intro safe_await safe_sample)
qed

end
