(* ===== verification/Payment.thy ===== *)
theory Payment
  imports Invariants
begin

text \<open>
  The payment provider, both ends. \<open>mockdata/mockdata-psp.service.ts\<close> and
  \<open>psp.controller.ts\<close> are the mock gateway with its ledger of charges; \<open>payment.service.ts\<close>
  is the client, which reaches it over HTTP and may lose the answer. Crossing the wire
  turns \<open>chargedAt\<close> into text and back, which is the identity here. Artificial latency is
  no operation: other processes may run between any two operations anyway.
\<close>

section \<open>The mock gateway\<close>

definition toResult :: "psp_charge \<Rightarrow> payment_result" where
  "toResult charge =
     \<lparr>p_success = (c_status charge = SUCCEEDED),
      p_key = Some (c_key charge),
      p_transaction = Some (c_transaction charge),
      p_error = c_error charge,
      p_amount = Some (c_amount charge),
      p_charged_at = c_created charge\<rparr>"

text \<open>\<open>mockdata-credit-cards.service.ts\<close>: the state pinned to a card number.\<close>

definition findByCardNumber :: "string \<Rightarrow> credit_card option io" where
  "findByCardNumber cardNumber = db_read (\<lambda>s. find (\<lambda>c. cc_number c = cardNumber) (cards s))"

definition is_declined :: "credit_card option \<Rightarrow> bool io" where
  "is_declined cardState =
     (case cardState of
        Some cc \<Rightarrow> Return (cc_status cc = DECLINE)
      | None \<Rightarrow> sample (\<lambda>s. random s < failure_rate (payment_settings s)))"

definition decline_message :: "credit_card option \<Rightarrow> string" where
  "decline_message cardState =
     (case Option.bind cardState cc_reason of
        Some reason \<Rightarrow> reason
      | None \<Rightarrow> ''Card declined by issuer.'')"

definition new_charge :: "authorize_dto \<Rightarrow> credit_card option \<Rightarrow> bool \<Rightarrow> string \<Rightarrow> psp_charge" where
  "new_charge dto cardState declined txn =
     \<lparr>c_key = a_key dto,
      c_transaction = ''txn_'' @ txn,
      c_amount = a_amount dto,
      c_status = (if declined then DECLINED else SUCCEEDED),
      c_error = (if declined then Some (decline_message cardState) else None),
      c_created = None\<rparr>"

text \<open>\<open>chargeModel.create\<close>: the unique \<open>idempotencyKey\<close> index, and the creation time.\<close>

definition insert_charge :: "psp_charge \<Rightarrow> world \<Rightarrow> (exn + unit) \<times> world" where
  "insert_charge charge s =
     (case insert_unique c_key (charge\<lparr>c_created := Some (now s)\<rparr>) (charges s) of
        None \<Rightarrow> (Inl (duplicate_key [''idempotencyKey'']), s)
      | Some cs \<Rightarrow> (Inr (), s\<lparr>charges := cs\<rparr>))"

definition charge_conflict :: "authorize_dto \<Rightarrow> exn \<Rightarrow> payment_result option io" where
  "charge_conflict dto error =
     (if \<not> isDuplicateKeyError error (Some ''idempotencyKey'') then Throw error
      else await (db_read (\<lambda>s. charge_of s (a_key dto))) (\<lambda>winner.
             case winner of
               Some c \<Rightarrow> Return (Some (toResult c))
             | None \<Rightarrow> Throw error))"

definition psp_charge_card :: "authorize_dto \<Rightarrow> psp_charge \<Rightarrow> payment_result io" where
  "psp_charge_card dto charge =
     await (catching (await (db (insert_charge charge)) (\<lambda>_. Return None)) (charge_conflict dto)) (\<lambda>earlier.
       case earlier of
         Some result \<Rightarrow> Return result
       | None \<Rightarrow>
           await (sample (\<lambda>s. random s < lost_response_rate (payment_settings s))) (\<lambda>lost.
           if lost then Throw (GatewayTimeoutException ''Simulated lost response.'')
           else Return (toResult charge)))"

definition psp_authorize :: "authorize_dto \<Rightarrow> payment_result io" where
  "psp_authorize dto =
     await (db_read (\<lambda>s. charge_of s (a_key dto))) (\<lambda>prior.
       case prior of
         Some c \<Rightarrow> Return (toResult c)
       | None \<Rightarrow>
           await (findByCardNumber (a_card dto)) (\<lambda>cardState.
           await (is_declined cardState) (\<lambda>declined.
           await (sample uuid) (\<lambda>txn.
           psp_charge_card dto (new_charge dto cardState declined txn)))))"

definition psp_getByIdempotencyKey :: "string \<Rightarrow> payment_result option io" where
  "psp_getByIdempotencyKey idempotencyKey =
     await (db_read (\<lambda>s. charge_of s idempotencyKey)) (\<lambda>charge.
     Return (map_option toResult charge))"

section \<open>Its HTTP endpoints\<close>

definition MAX_IDEMPOTENCY_KEY_LENGTH :: nat where
  "MAX_IDEMPOTENCY_KEY_LENGTH = 255"

text \<open>The constraints of \<open>AuthorizeChargeDto\<close>, which the validation pipe checks first.\<close>

definition text_within :: "nat \<Rightarrow> string \<Rightarrow> bool" where
  "text_within limit v \<longleftrightarrow> v \<noteq> [] \<and> length v \<le> limit"

definition AuthorizeChargeDto_valid :: "authorize_dto \<Rightarrow> bool" where
  "AuthorizeChargeDto_valid dto \<longleftrightarrow>
     text_within MAX_IDEMPOTENCY_KEY_LENGTH (a_key dto) \<and> text_within 200 (a_card dto)
     \<and> 0 \<le> a_amount dto \<and> text_within 1000 (a_description dto)"

definition psp_post_authorize :: "authorize_dto \<Rightarrow> payment_result io" where
  "psp_post_authorize dto =
     (if AuthorizeChargeDto_valid dto then psp_authorize dto
      else Throw (BadRequestException (Some ''VALIDATION_ERROR'') []))"

definition psp_getCharge :: "string \<Rightarrow> payment_result io" where
  "psp_getCharge idempotencyKey =
     (if length idempotencyKey > MAX_IDEMPOTENCY_KEY_LENGTH
      then Throw (BadRequestException (Some ''IDEMPOTENCY_KEY_TOO_LONG'')
             [''idempotencyKey must be at most 255 characters.''])
      else await (psp_getByIdempotencyKey idempotencyKey) (\<lambda>charge.
             case charge of
               None \<Rightarrow> Throw (NotFoundException
                 (''No charge recorded for idempotency key '' @ quoted idempotencyKey @ ''.''))
             | Some c \<Rightarrow> Return c))"

section \<open>The client (payment/payment.service.ts)\<close>

definition ok_status :: "int \<Rightarrow> bool" where
  "ok_status status \<longleftrightarrow> 200 \<le> status \<and> status < 300"

definition authorize :: "authorize_dto \<Rightarrow> payment_result io" where
  "authorize dto =
     await (fetchJson 201 (psp_post_authorize dto)) (\<lambda>(status, body).
       if status = 504 then Throw PaymentGatewayTimeoutError
       else case body of
              Some result \<Rightarrow>
                if ok_status status then Return result
                else Throw (PlainError (''PSP authorize request failed with status '' @ show_int status @ ''.''))
            | None \<Rightarrow> Throw (PlainError (''PSP authorize request failed with status '' @ show_int status @ ''.'')))"

definition getByIdempotencyKey :: "string \<Rightarrow> payment_result option io" where
  "getByIdempotencyKey idempotencyKey =
     await (fetchJson 200 (psp_getCharge idempotencyKey)) (\<lambda>(status, body).
       if status = 404 then Return None
       else case body of
              Some result \<Rightarrow>
                if ok_status status then Return (Some result)
                else Throw (PlainError (''PSP charge lookup failed with status '' @ show_int status @ ''.''))
            | None \<Rightarrow> Throw (PlainError (''PSP charge lookup failed with status '' @ show_int status @ ''.'')))"

section \<open>The gateway as its clients see it\<close>

text \<open>
  Every answer is about the one charge the gateway keeps for the key: asked again, it gives
  the same charge. The law on \<open>authorize\<close> is for a caller that uses the id of a reserved
  order as the key and the order's total as the amount.
\<close>

record payment_api =
  payment_authorize :: "authorize_dto \<Rightarrow> payment_result io"
  payment_getByIdempotencyKey :: "string \<Rightarrow> payment_result option io"

locale payment_gateway =
  fixes payment :: payment_api
  assumes authorize_safe:
      "\<lbrakk>consistent s; order_of s (a_key dto) = Some ord; \<not> unreserved (o_status ord); a_amount dto = o_total ord;
        \<And>t r c. \<lbrakk>evolves s t; consistent t; charge_of t (a_key dto) = Some c; records_charge r c\<rbrakk> \<Longrightarrow> Q r t;
        \<And>t e. \<lbrakk>evolves s t; consistent t; e \<noteq> OutOfFuel\<rbrakk> \<Longrightarrow> E e t\<rbrakk> \<Longrightarrow>
       safely Q E (payment_authorize payment dto) s"
    and find_charge_safe:
      "\<lbrakk>consistent s;
        \<And>t r c. \<lbrakk>evolves s t; consistent t; charge_of t k = Some c; records_charge r c\<rbrakk> \<Longrightarrow> Qo (Some r) t;
        \<And>t. \<lbrakk>evolves s t; consistent t\<rbrakk> \<Longrightarrow> Qo None t;
        \<And>t e. \<lbrakk>evolves s t; consistent t; e \<noteq> OutOfFuel\<rbrakk> \<Longrightarrow> E e t\<rbrakk> \<Longrightarrow>
       safely Qo E (payment_getByIdempotencyKey payment k) s"

definition payment_impl :: payment_api where
  "payment_impl = \<lparr>payment_authorize = authorize, payment_getByIdempotencyKey = getByIdempotencyKey\<rparr>"

lemma toResult_records [simp]: "charge_of s k = Some c \<Longrightarrow> records_charge (toResult c) c"
  by (simp add: records_charge_def toResult_def)

lemma new_charge_simps [simp]:
  "c_key (new_charge dto cc declined txn) = a_key dto"
  "c_amount (new_charge dto cc declined txn) = a_amount dto"
  by (simp_all add: new_charge_def)

lemma insert_charge_keeps:
  assumes inv: "consistent s" and known: "order_of s (c_key c) = Some ord" and res: "\<not> unreserved (o_status ord)"
    and amount: "c_amount c = o_total ord" and tx: "insert_charge c s = (r, u)"
  shows "acts s u \<and> consistent u"
    and "r = Inr x \<Longrightarrow> charge_of u (c_key c) = Some (c\<lparr>c_created := Some (now s)\<rparr>)"
    and "r = Inl e \<Longrightarrow> u = s \<and> e = duplicate_key [''idempotencyKey'']"
proof -
  let ?c = "c\<lparr>c_created := Some (now s)\<rparr>"
  show "acts s u \<and> consistent u"
  proof (cases "insert_unique c_key ?c (charges s)")
    case None
    with tx inv show ?thesis by (auto simp: insert_charge_def)
  next
    case (Some cs)
    then have u: "u = s\<lparr>charges := cs\<rparr>"
      using tx by (simp add: insert_charge_def)
    have chg: "charge_of u = (charge_of s)(c_key c := Some ?c)"
      using charge_index.ins_get [OF Some] by (simp add: u charge_of_def)
    have same: "order_of u = order_of s" "movement_of u = movement_of s" "stock_of u = stock_of s"
      by (simp_all add: u order_of_def [abs_def] movement_of_def [abs_def] stock_of_def [abs_def])
    have new: "charge_of s (c_key c) = None"
      using charge_index.ins_first [OF Some] by (simp add: charge_of_def)
    have "order_ok (Some ord) (movement_of s (c_key c) RESERVE) (movement_of s (c_key c) RELEASE) (Some ?c)"
      using consistent_order [OF inv known] res amount new by (auto simp: order_ok_def status_classes)
    then have ok: "order_ok (order_of u k) (movement_of u k RESERVE) (movement_of u k RELEASE) (charge_of u k)" for k
      using inv known by (cases "k = c_key c") (simp_all add: consistent_def chg same)
    have "distinct (map c_key cs)"
      using charge_index.ins_distinct [OF Some] inv by (simp add: consistent_def indexed_def)
    then have "indexed u" and "stock_ok u" and "announced u"
      using inv same by (simp_all add: u consistent_def indexed_def stock_ok_def announced_def)
    moreover have "evolves s u"
      using new by (auto simp: evolves_def chg same)
    moreover have "balance u w p = balance s w p" for w p
      by (simp add: u balance_def)
    moreover have "saga_view u k = saga_view s k \<or> saga_event (saga_view s k) (saga_view u k)" for k
    proof (cases "k = c_key c")
      case True
      then have "saga_view u k = (saga_view s k)\<lparr>sv_charge := Some (c_status c)\<rparr>"
        by (simp add: saga_view_def chg same)
      with saga_event.charge [of "saga_view s k" "o_status ord" "c_status c"] True known res new show ?thesis by simp
    qed (simp add: saga_view_def chg same)
    ultimately show ?thesis using ok by (simp add: consistent_def conserves_def acts_def)
  qed
  show "r = Inr x \<Longrightarrow> charge_of u (c_key c) = Some ?c"
    using tx charge_index.ins_reads_back [of ?c "charges s"]
    by (auto simp: insert_charge_def charge_of_def split: option.splits)
  show "r = Inl e \<Longrightarrow> u = s \<and> e = duplicate_key [''idempotencyKey'']"
    using tx by (auto simp: insert_charge_def split: option.splits)
qed

text \<open>
  \<open>answers k\<close> says that a result is about the recorded charge of \<open>k\<close>.
\<close>

definition answers :: "string \<Rightarrow> payment_result \<Rightarrow> world \<Rightarrow> bool" where
  "answers k r s \<longleftrightarrow> (\<exists>c. charge_of s k = Some c \<and> records_charge r c)"

lemma answers_later: "answers k r s \<Longrightarrow> evolves s t \<Longrightarrow> answers k r t"
  unfolding answers_def by (blast dest: evolves_charge)

lemma answers_result [simp]: "charge_of s k = Some c \<Longrightarrow> answers k (toResult c) s"
  by (auto simp: answers_def)

lemma safe_charge_conflict:
  assumes "e \<noteq> OutOfFuel"
  shows "safely (\<lambda>earlier t. \<exists>r. earlier = Some r \<and> answers (a_key dto) r t) no_fuel (charge_conflict dto e) s"
  using assms unfolding charge_conflict_def
  by (auto intro!: safe_await safe_db_read split: option.split)

lemma safe_insert_charge:
  assumes known: "order_of s (c_key charge) = Some ord" and res: "\<not> unreserved (o_status ord)"
    and amount: "c_amount charge = o_total ord"
  shows "safely (\<lambda>_. answers (c_key charge) (toResult charge)) no_fuel (db (insert_charge charge)) s"
proof (rule safe_dbI)
  fix t r u
  assume st: "evolves s t" and I: "consistent t" and tx: "insert_charge charge t = (r, u)"
  obtain ord' where known': "order_of t (c_key charge) = Some ord'" and "request_of ord' = request_of ord"
    and "o_status ord \<le> o_status ord'"
    using evolves_orderE [OF st known] by metis
  then have "\<not> unreserved (o_status ord')" and "c_amount charge = o_total ord'"
    using res amount reserved_le by (auto simp: request_of_eq)
  then show "acts t u \<and> consistent u"
    by (rule insert_charge_keeps(1) [OF I known' _ _ tx])
next
  fix t u and x :: unit
  assume "insert_charge charge t = (Inr x, u)"
  then have "charge_of u (c_key charge) = Some (charge\<lparr>c_created := Some (now t)\<rparr>)"
    using charge_index.ins_reads_back
    by (fastforce simp: insert_charge_def charge_of_def split: option.splits)
  then show "answers (c_key charge) (toResult charge) u"
    by (auto simp: answers_def records_charge_def toResult_def)
qed (auto simp: insert_charge_def duplicate_key_def split: option.splits)

lemma safe_psp_charge_card:
  assumes I: "consistent s" and known: "order_of s (a_key dto) = Some ord" and res: "\<not> unreserved (o_status ord)"
    and charge: "c_key charge = a_key dto" "c_amount charge = o_total ord"
  shows "safely (answers (a_key dto)) no_fuel (psp_charge_card dto charge) s"
  unfolding psp_charge_card_def
proof (rule rg.safe_then [OF _ I])
  let ?done = "\<lambda>earlier. case earlier of None \<Rightarrow> answers (a_key dto) (toResult charge) | Some r \<Rightarrow> answers (a_key dto) r"
  have "safely ?done no_fuel (await (db (insert_charge charge)) (\<lambda>_. Return None)) s"
    using known res charge
    by (intro safe_await safe_conseq [OF safe_insert_charge [of s charge ord]]) auto
  then show "safely ?done no_fuel
      (catching (await (db (insert_charge charge)) (\<lambda>_. Return None)) (charge_conflict dto)) s"
    by (rule rg.safe_handled [OF _ I]) (rule safe_conseq [OF safe_charge_conflict], auto)
next
  fix earlier u
  assume "evolves s u"
    and earlier_ok: "(case earlier of None \<Rightarrow> answers (a_key dto) (toResult charge)
      | Some r \<Rightarrow> answers (a_key dto) r) u"
  then show "safely (answers (a_key dto)) no_fuel (case earlier of
        Some result \<Rightarrow> Return result
      | None \<Rightarrow>
          await (sample (\<lambda>s. random s < lost_response_rate (payment_settings s))) (\<lambda>lost.
          if lost then Throw (GatewayTimeoutException ''Simulated lost response.'')
          else Return (toResult charge))) u"
    by (cases earlier) (auto simp: GatewayTimeoutException_def intro!: safe_await safe_sample intro: answers_later)
qed

lemma safe_psp_authorize:
  assumes I: "consistent s" and known: "order_of s (a_key dto) = Some ord" and res: "\<not> unreserved (o_status ord)"
    and amount: "a_amount dto = o_total ord"
  shows "safely (answers (a_key dto)) no_fuel (psp_authorize dto) s"
proof -
  have charge: "safely (answers (a_key dto)) no_fuel
      (psp_charge_card dto (new_charge dto cc declined txn)) t"
    if st: "evolves s t" and "consistent t" for t cc declined txn
  proof -
    obtain ord' where "order_of t (a_key dto) = Some ord'" and "request_of ord' = request_of ord"
      and "o_status ord \<le> o_status ord'"
      using evolves_orderE [OF st known] by metis
    then show ?thesis
      using that res amount reserved_le
      by (intro safe_psp_charge_card [of t dto ord']) (auto simp: request_of_eq)
  qed
  have declined: "safely (\<lambda>_ _. True) no_fuel (is_declined cc) t" for cc t
    by (auto simp: is_declined_def intro!: safe_sample split: option.split)
  have fresh: "safely (answers (a_key dto)) no_fuel
      (await (findByCardNumber (a_card dto)) (\<lambda>cardState.
       await (is_declined cardState) (\<lambda>declined.
       await (sample uuid) (\<lambda>txn.
       psp_charge_card dto (new_charge dto cardState declined txn))))) t"
    if st: "evolves s t" and It: "consistent t" for t
  proof (rule rg.safe_then [OF _ It, where P = "\<lambda>_ _. True"])
    show "safely (\<lambda>_ _. True) no_fuel (findByCardNumber (a_card dto)) t"
      by (simp add: findByCardNumber_def safe_db_read)
    fix cc u
    assume tu: "evolves t u" and Iu: "consistent u"
    show "safely (answers (a_key dto)) no_fuel (await (is_declined cc) (\<lambda>declined.
       await (sample uuid) (\<lambda>txn. psp_charge_card dto (new_charge dto cc declined txn)))) u"
    proof (rule rg.safe_then [OF declined Iu], rule safe_await, rule safe_sample, rule charge)
      fix v w
      assume "evolves u v" and "evolves v w"
      with st tu show "evolves s w" by (blast intro: evolves_trans)
    qed
  qed
  show ?thesis
    unfolding psp_authorize_def
  proof (rule safe_await, rule safe_db_read)
    fix t
    assume "evolves s t" and "consistent t"
    with fresh show "safely (answers (a_key dto)) no_fuel
        (case charge_of t (a_key dto) of
           Some c \<Rightarrow> Return (toResult c)
         | None \<Rightarrow> await (findByCardNumber (a_card dto)) (\<lambda>cardState.
             await (is_declined cardState) (\<lambda>declined.
             await (sample uuid) (\<lambda>txn.
             psp_charge_card dto (new_charge dto cardState declined txn))))) t"
      by (simp split: option.split)
  qed simp
qed

section \<open>The client is a payment gateway\<close>

lemma safe_fetchJson:
  assumes I: "consistent s"
    and handler: "\<And>t. \<lbrakk>evolves s t; consistent t\<rbrakk> \<Longrightarrow> safely P no_fuel handler t"
    and later: "\<And>a t u. P a t \<Longrightarrow> evolves t u \<Longrightarrow> P a u"
  shows "safely (\<lambda>(status, body) t. \<forall>a. body = Some a \<longrightarrow> P a t) no_fuel (fetchJson success handler) s"
  unfolding fetchJson_def
proof (rule rg.safe_then [OF _ I, where P = "\<lambda>_ _. True"])
  show "safely (\<lambda>_ _. True) no_fuel (send http_link) s"
    by (rule safe_send) simp_all
next
  fix a u
  assume su: "evolves s u" and Iu: "consistent u"
  show "safely (\<lambda>(status, body) t. \<forall>a. body = Some a \<longrightarrow> P a t) no_fuel
      (await (catching (await handler (\<lambda>body. Return (success, Some body)))
        (\<lambda>e. Return (fst (exception_filter e), None))) (\<lambda>response.
       await (receive http_link) (\<lambda>_. Return response))) u"
  proof (rule rg.safe_then [OF _ Iu])
    show "safely (\<lambda>(status, body) t. \<forall>a. body = Some a \<longrightarrow> P a t) no_fuel
        (catching (await handler (\<lambda>body. Return (success, Some body)))
        (\<lambda>e. Return (fst (exception_filter e), None))) u"
      by (rule safe_catching, rule safe_await) (rule safe_conseq [OF handler [OF su Iu]], auto)
  qed (auto intro!: safe_await safe_receive split: prod.splits, metis later)
qed

interpretation gateway: payment_gateway payment_impl
proof
  fix s ord and dto :: authorize_dto and Q :: "payment_result \<Rightarrow> world \<Rightarrow> bool" and E
  assume I: "consistent s" and known: "order_of s (a_key dto) = Some ord"
    and res: "\<not> unreserved (o_status ord)" and amount: "a_amount dto = o_total ord"
    and Q: "\<And>t r c. \<lbrakk>evolves s t; consistent t; charge_of t (a_key dto) = Some c; records_charge r c\<rbrakk> \<Longrightarrow> Q r t"
    and E: "\<And>t e. \<lbrakk>evolves s t; consistent t; e \<noteq> OutOfFuel\<rbrakk> \<Longrightarrow> E e t"
  have handler: "safely (answers (a_key dto)) no_fuel (psp_post_authorize dto) t"
    if st: "evolves s t" and "consistent t" for t
  proof -
    obtain ord' where "order_of t (a_key dto) = Some ord'" and "request_of ord' = request_of ord"
      and "o_status ord \<le> o_status ord'"
      using evolves_orderE [OF st known] by metis
    then show ?thesis
      using that res amount reserved_le safe_psp_authorize [of t dto ord']
      by (auto simp: psp_post_authorize_def BadRequestException_def request_of_eq)
  qed
  have "safely (answers (a_key dto)) no_fuel (authorize dto) s"
    unfolding authorize_def
    by (rule rg.safe_then [OF safe_fetchJson [OF I handler answers_later] I])
      (auto split: prod.splits option.splits)
  then show "safely Q E (payment_authorize payment_impl dto) s"
    unfolding payment_impl_def payment_api.simps
    by (rule rg.safe_post [OF _ I]) (auto simp: answers_def intro: Q E)
next
  fix s k and Q :: "payment_result option \<Rightarrow> world \<Rightarrow> bool" and E
  assume I: "consistent s"
    and Q: "\<And>t r c. \<lbrakk>evolves s t; consistent t; charge_of t k = Some c; records_charge r c\<rbrakk> \<Longrightarrow> Q (Some r) t"
    and none: "\<And>t. \<lbrakk>evolves s t; consistent t\<rbrakk> \<Longrightarrow> Q None t"
    and E: "\<And>t e. \<lbrakk>evolves s t; consistent t; e \<noteq> OutOfFuel\<rbrakk> \<Longrightarrow> E e t"
  have handler: "safely (answers k) no_fuel (psp_getCharge k) t" for t
    unfolding psp_getCharge_def psp_getByIdempotencyKey_def
    by (auto simp: BadRequestException_def NotFoundException_def intro!: safe_await safe_db_read split: option.split)
  have "safely (\<lambda>x t. \<forall>r. x = Some r \<longrightarrow> answers k r t) no_fuel (getByIdempotencyKey k) s"
    unfolding getByIdempotencyKey_def
    by (rule rg.safe_then [OF safe_fetchJson [OF I handler answers_later] I])
      (auto split: prod.splits option.splits)
  then show "safely Q E (payment_getByIdempotencyKey payment_impl k) s"
    unfolding payment_impl_def payment_api.simps
    by (rule rg.safe_post [OF _ I]) (case_tac a, auto simp: answers_def intro: Q none E)
qed

end
