(* ===== verification/Directories.thy ===== *)
theory Directories
  imports Payment
begin

text \<open>
  The three directories an order is validated against, each a client over HTTP
  (\<open>customers.service.ts\<close>, \<open>catalog.service.ts\<close>, \<open>geocoding.service.ts\<close>) and the mock
  handler that answers it (\<open>mockdata-customers\<close>, \<open>mockdata-products\<close>, \<open>mockdata-addresses\<close>
  services and controllers). \<open>encodeURIComponent\<close> and the server's decoding cancel out.
\<close>

section \<open>The id of a path\<close>

text \<open>\<open>isValid\<close> is the driver's test, \<open>path_id\<close> a parameter that goes through the pipe.\<close>

definition ParseObjectIdPipe :: "(string \<Rightarrow> bool) \<Rightarrow> string \<Rightarrow> exn + object_id" where
  "ParseObjectIdPipe isValid v =
     (if \<not> isValid v then Inl (BadRequestException (Some ''INVALID_ID'') [quoted v @ '' is not a valid id.''])
      else Inr (ObjectId v))"

definition path_id :: "string \<Rightarrow> object_id io" where
  "path_id v = await (sample id_valid) (\<lambda>isValid. answer (ParseObjectIdPipe isValid v))"

lemma safe_path_id:
  assumes "\<And>t oid. evolves s t \<Longrightarrow> consistent t \<Longrightarrow> Q oid t"
  shows "safely Q no_fuel (path_id v) s"
  unfolding path_id_def ParseObjectIdPipe_def BadRequestException_def
  by (auto intro!: safe_await safe_sample assms)

section \<open>Customers\<close>

definition customers_findById :: "string \<Rightarrow> customer option io" where
  "customers_findById cid =
     await (sample id_valid) (\<lambda>isValid.
       if \<not> isValid cid then Return None else db_read (\<lambda>s. lookup cu_id (customers s) (ObjectId cid)))"

definition customers_getOne :: "string \<Rightarrow> customer io" where
  "customers_getOne v =
     await (path_id v) (\<lambda>cid.
     await (customers_findById cid) (\<lambda>customer.
       case customer of
         None \<Rightarrow> Throw (NotFoundException (''Customer '' @ cid @ '' not found.''))
       | Some c \<Rightarrow> Return c))"

definition getCustomerById :: "string \<Rightarrow> customer option io" where
  "getCustomerById cid =
     await (fetchJson 200 (customers_getOne cid)) (\<lambda>(status, body).
       if status = 404 then Return None
       else case body of
              Some customer \<Rightarrow>
                if ok_status status then Return (Some customer)
                else Throw (PlainError (''Customer lookup failed with status '' @ show_int status @ ''.''))
            | None \<Rightarrow> Throw (PlainError (''Customer lookup failed with status '' @ show_int status @ ''.'')))"

section \<open>Products\<close>

text \<open>What is not an id at all is left out of the filter; no list means the whole catalogue.\<close>

definition products_list :: "string list option \<Rightarrow> product list io" where
  "products_list ids =
     await (sample id_valid) (\<lambda>isValid.
     db_read (\<lambda>s.
       case ids of
         None \<Rightarrow> products s
       | Some vs \<Rightarrow> filter (\<lambda>p. pr_id p \<in> set (map ObjectId (filter isValid vs))) (products s)))"

text \<open>\<open>?ids=\<close> is split at commas and its empty parts dropped.\<close>

definition products_index :: "string \<Rightarrow> product list io" where
  "products_index query =
     products_list (if query = [] then None else Some (filter (\<lambda>part. part \<noteq> []) (split_at (CHR '','') query)))"

definition getProductsById :: "string list \<Rightarrow> product list io" where
  "getProductsById ids =
     (if ids = [] then Return []
      else await (fetchJson 200 (products_index (join [CHR '',''] ids))) (\<lambda>(status, body).
        case body of
          Some found \<Rightarrow>
            if \<not> ok_status status
            then Throw (PlainError (''Catalog lookup failed with status '' @ show_int status @ ''.''))
            else
              (let missing = filter (\<lambda>pid. \<not> list_ex (\<lambda>product. pr_id product = pid) found) ids
               in if missing \<noteq> []
                  then Throw (PlainError (''Products not found for IDs: '' @ join '', '' missing))
                  else Return found)
        | None \<Rightarrow> Throw (PlainError (''Catalog lookup failed with status '' @ show_int status @ ''.''))))"

section \<open>Coordinates\<close>

text \<open>
  The lookup is an anchored, escaped, case-insensitive pattern: equality up to case with
  the trimmed text.
\<close>

definition same_address :: "string \<Rightarrow> string \<Rightarrow> bool" where
  "same_address a b \<longleftrightarrow> map lower a = map lower b"

definition addresses_lookup :: "string \<Rightarrow> coordinates option io" where
  "addresses_lookup address =
     db_read (\<lambda>s. map_option ad_location (find (\<lambda>a. same_address (ad_address a) (trim address)) (addresses s)))"

definition addresses_get :: "string \<Rightarrow> coordinates io" where
  "addresses_get address =
     (if address = []
      then Throw (BadRequestException None [''Query parameter \"address\" is required.''])
      else await (addresses_lookup address) (\<lambda>coordinates.
        case coordinates of
          None \<Rightarrow> Throw (NotFoundException (''No coordinates known for address '' @ quoted address @ ''.''))
        | Some c \<Rightarrow> Return c))"

definition getCoordinates :: "string \<Rightarrow> coordinates io" where
  "getCoordinates address =
     await (fetchJson 200 (addresses_get address)) (\<lambda>(status, body).
       if status = 404 then Throw (PlainError ''Coordinates not available for the provided address'')
       else case body of
              Some c \<Rightarrow>
                if ok_status status then Return c
                else Throw (PlainError (''Geocoding request failed with status '' @ show_int status @ ''.''))
            | None \<Rightarrow> Throw (PlainError (''Geocoding request failed with status '' @ show_int status @ ''.'')))"

section \<open>The customer directory as the saga sees it\<close>

record customers_api =
  customers_getCustomerById :: "string \<Rightarrow> customer option io"

locale customer_directory =
  fixes directory :: customers_api
  assumes customer_safe:
    "\<lbrakk>consistent s;
      \<And>t c. \<lbrakk>evolves s t; consistent t\<rbrakk> \<Longrightarrow> Q c t;
      \<And>t e. \<lbrakk>evolves s t; consistent t; e \<noteq> OutOfFuel\<rbrakk> \<Longrightarrow> E e t\<rbrakk> \<Longrightarrow>
     safely Q E (customers_getCustomerById directory cid) s"

definition customers_impl :: customers_api where
  "customers_impl = \<lparr>customers_getCustomerById = getCustomerById\<rparr>"

text \<open>The read-only lookups: safe from anywhere, whatever they answer.\<close>

lemma safe_getCustomerById: "consistent s \<Longrightarrow> safely (\<lambda>_ _. True) no_fuel (getCustomerById cid) s"
  unfolding getCustomerById_def customers_getOne_def customers_findById_def
  by (rule rg.safe_then [OF safe_fetchJson [where P = "\<lambda>_ _. True"]])
    (auto simp: NotFoundException_def intro!: safe_await safe_path_id safe_sample safe_db_read split: option.split)

lemma safe_getProductsById: "consistent s \<Longrightarrow> safely (\<lambda>_ _. True) no_fuel (getProductsById ids) s"
  unfolding getProductsById_def products_index_def products_list_def
  by (cases "ids = []", simp, simp del: join.simps split del: if_split, rule rg.safe_then [OF safe_fetchJson [where P = "\<lambda>_ _. True"]])
    (auto simp: Let_def intro!: safe_await safe_sample safe_db_read split: option.splits)

lemma safe_getCoordinates: "consistent s \<Longrightarrow> safely (\<lambda>_ _. True) no_fuel (getCoordinates address) s"
  unfolding getCoordinates_def addresses_get_def addresses_lookup_def
  by (rule rg.safe_then [OF safe_fetchJson [where P = "\<lambda>_ _. True"]])
    (auto simp: NotFoundException_def BadRequestException_def intro!: safe_await safe_db_read split: option.split)

interpretation directory: customer_directory customers_impl
proof
  fix s cid and Q :: "customer option \<Rightarrow> world \<Rightarrow> bool" and E
  assume I: "consistent s" and Q: "\<And>t c. \<lbrakk>evolves s t; consistent t\<rbrakk> \<Longrightarrow> Q c t"
    and E: "\<And>t e. \<lbrakk>evolves s t; consistent t; e \<noteq> OutOfFuel\<rbrakk> \<Longrightarrow> E e t"
  show "safely Q E (customers_getCustomerById customers_impl cid) s"
    unfolding customers_impl_def customers_api.simps
    by (rule rg.safe_post [OF safe_getCustomerById [OF I] I]) (auto intro: Q E)
qed

end
