(* ===== verification/Saga.thy ===== *)
theory Saga
  imports Inventory Orders_Repository Directories
begin

text \<open>
  The saga worker, \<open>orders/order-saga.processor.ts\<close>. Its four services are arguments, as
  they are constructor parameters there; the locale \<open>saga_worker\<close> reasons from their
  contracts alone. The endless loop of \<open>process\<close> has a bound, and the theorem
  \<open>process_safe\<close> shows that four rounds are never exceeded, whatever other processes do:
  every round that does not return moves the order on, and no order moves more than three
  times.
\<close>

definition saga_reserve :: "orders_api \<Rightarrow> inventory_api \<Rightarrow> order \<Rightarrow> unit io" where
  "saga_reserve store inventory ord =
     catching
       (await (inventory_reserveForOrder inventory (o_id ord) (o_coordinates ord) (reservation_items ord)) (\<lambda>result.
        await (orders_transition store (o_id ord) PENDING STOCK_RESERVED (reserved_patch (rr_warehouse result))) (\<lambda>_.
        Return ())))
       (\<lambda>error. case error of
          NoWarehouseAvailableError \<Rightarrow>
            await (orders_transition store (o_id ord) PENDING FAILED (failed_patch OUT_OF_STOCK (exn_message error)))
              (\<lambda>_. Return ())
        | InsufficientStockError _ \<Rightarrow>
            await (orders_transition store (o_id ord) PENDING FAILED (failed_patch OUT_OF_STOCK (exn_message error)))
              (\<lambda>_. Return ())
        | _ \<Rightarrow> Throw error)"

definition saga_authorize :: "orders_api \<Rightarrow> payment_api \<Rightarrow> customers_api \<Rightarrow> order \<Rightarrow> unit io" where
  "saga_authorize store payment directory ord =
     await (customers_getCustomerById directory (o_customer ord)) (\<lambda>customer.
       case customer of
         None \<Rightarrow>
           await (orders_transition store (o_id ord) STOCK_RESERVED COMPENSATING
                   (unwind_patch PAYMENT_DECLINED (''Customer '' @ o_customer ord @ '' no longer exists.'') None))
             (\<lambda>_. Return ())
       | Some c \<Rightarrow>
           await (payment_authorize payment
                   \<lparr>a_key = o_id ord, a_card = cu_card c, a_amount = o_total ord,
                    a_description = ''ORDER '' @ o_id ord\<rparr>) (\<lambda>result.
             if p_success result
             then await (orders_transition store (o_id ord) STOCK_RESERVED PAYMENT_AUTHORIZED (paid_patch result))
                    (\<lambda>_. Return ())
             else await (orders_transition store (o_id ord) STOCK_RESERVED COMPENSATING
                          (unwind_patch PAYMENT_DECLINED
                             (case p_error result of Some msg \<Rightarrow> msg | None \<Rightarrow> ''Payment declined.'')
                             (Some result)))
                    (\<lambda>_. Return ())))"

definition saga_complete :: "orders_api \<Rightarrow> order \<Rightarrow> unit io" where
  "saga_complete store ord =
     await (orders_transition store (o_id ord) PAYMENT_AUTHORIZED COMPLETED no_patch) (\<lambda>_. Return ())"

definition saga_compensate :: "orders_api \<Rightarrow> inventory_api \<Rightarrow> order \<Rightarrow> unit io" where
  "saga_compensate store inventory ord =
     await (inventory_releaseForOrder inventory (o_id ord)) (\<lambda>_.
     await (orders_transition store (o_id ord) COMPENSATING COMPENSATED no_patch) (\<lambda>_.
     Return ()))"

primrec process :: "orders_api \<Rightarrow> inventory_api \<Rightarrow> payment_api \<Rightarrow> customers_api \<Rightarrow>
    nat \<Rightarrow> object_id \<Rightarrow> unit io" where
  "process store inventory payment directory 0 orderId = Throw OutOfFuel"
| "process store inventory payment directory (Suc rounds) orderId =
     await (orders_findById store orderId) (\<lambda>found.
       case found of
         None \<Rightarrow> Return ()
       | Some ord \<Rightarrow>
           if isTerminal (o_status ord)
           then if o_status ord = FAILED
                then await (inventory_releaseForOrder inventory orderId) (\<lambda>_. Return ())
                else Return ()
           else case o_status ord of
                  PENDING \<Rightarrow>
                    await (saga_reserve store inventory ord) (\<lambda>_.
                    process store inventory payment directory rounds orderId)
                | STOCK_RESERVED \<Rightarrow>
                    await (saga_authorize store payment directory ord) (\<lambda>_.
                    process store inventory payment directory rounds orderId)
                | PAYMENT_AUTHORIZED \<Rightarrow>
                    await (saga_complete store ord) (\<lambda>_.
                    process store inventory payment directory rounds orderId)
                | COMPENSATING \<Rightarrow> saga_compensate store inventory ord
                | _ \<Rightarrow> Return ())"

text \<open>The rounds the loop can take, and the worker on the program's own services.\<close>

definition saga_rounds :: nat where
  "saga_rounds = 4"

definition worker :: "object_id \<Rightarrow> unit io" where
  "worker orderId = process orders_impl inventory_impl payment_impl customers_impl saga_rounds orderId"

section \<open>Safety of the worker\<close>

text \<open>
  The order has left a status; it is settled and owes no stock; how far along it is.
\<close>

definition past :: "object_id \<Rightarrow> order_status \<Rightarrow> world \<Rightarrow> bool" where
  "past oid st s \<longleftrightarrow> (\<exists>cur. order_of s oid = Some cur \<and> o_status cur \<noteq> st)"

definition owes_nothing :: "object_id \<Rightarrow> world \<Rightarrow> bool" where
  "owes_nothing oid s \<longleftrightarrow> (\<forall>cur. order_of s oid = Some cur \<longrightarrow> isTerminal (o_status cur) \<and>
     (unwinding (o_status cur) \<longrightarrow> movement_of s oid RESERVE \<noteq> None \<longrightarrow> movement_of s oid RELEASE \<noteq> None))"

definition stage_of :: "object_id \<Rightarrow> world \<Rightarrow> nat" where
  "stage_of oid s = (case order_of s oid of None \<Rightarrow> 0 | Some ord \<Rightarrow> stage (o_status ord))"

lemma stage_of_later: "evolves s t \<Longrightarrow> stage_of oid s \<le> stage_of oid t"
  by (cases "order_of s oid")
    (auto simp: stage_of_def elim!: evolves_orderE dest!: less_stage simp: order_le_less)

lemma stage_of_past:
  assumes "evolves s t" and "order_of s oid = Some ord" and "past oid (o_status ord) t"
  shows "stage_of oid s < stage_of oid t"
  using assms by (auto simp: stage_of_def past_def order_le_less elim!: evolves_orderE dest!: less_stage)

locale saga_worker =
  order_store store + inventory_service inventory + payment_gateway payment + customer_directory directory
  for store inventory payment directory
begin

lemma swap_past:
  assumes "consistent s" and "order_of s oid = Some ord" and "may_take s oid st to patch"
  shows "safely (\<lambda>_. past oid st) no_fuel (await (orders_transition store oid st to patch) (\<lambda>_. Return ())) s"
  by (rule safe_await, rule swap_safe [OF assms(2,3)]) (auto simp: past_def)

lemma reserve_past:
  assumes I: "consistent s" and known: "order_of s (o_id ord) = Some ord" and st: "o_status ord = PENDING"
  shows "safely (\<lambda>_. past (o_id ord) PENDING) no_fuel (saga_reserve store inventory ord) s"
  unfolding saga_reserve_def
proof (rule rg.safe_handled [OF _ I, where F = no_fuel])
  show "safely (\<lambda>_. past (o_id ord) PENDING) no_fuel
      (await (inventory_reserveForOrder inventory (o_id ord) (o_coordinates ord) (reservation_items ord)) (\<lambda>result.
       await (orders_transition store (o_id ord) PENDING STOCK_RESERVED (reserved_patch (rr_warehouse result))) (\<lambda>_.
       Return ()))) s"
  proof (rule safe_await, rule reserve_safe [OF known])
    fix t rr m
    assume st: "evolves s t" and "consistent t"
      and "movement_of t (o_id ord) RESERVE = Some m" and "m_warehouse m = rr_warehouse rr"
    moreover obtain cur where "order_of t (o_id ord) = Some cur"
      by (rule evolves_orderE [OF st known])
    ultimately show "safely (\<lambda>_. past (o_id ord) PENDING) no_fuel
        (await (orders_transition store (o_id ord) PENDING STOCK_RESERVED (reserved_patch (rr_warehouse rr)))
          (\<lambda>_. Return ())) t"
      by (intro swap_past) (auto simp: may_take_def)
  qed
next
  fix e u
  assume su: "evolves s u" and I: "consistent u" and e: "e \<noteq> OutOfFuel"
  obtain cur where "order_of u (o_id ord) = Some cur"
    by (rule evolves_orderE [OF su known])
  with I have "safely (\<lambda>_. past (o_id ord) PENDING) no_fuel
      (await (orders_transition store (o_id ord) PENDING FAILED (failed_patch OUT_OF_STOCK msg)) (\<lambda>_. Return ())) u" for msg
    by (intro swap_past) (auto simp: may_take_def)
  with e show "safely (\<lambda>_. past (o_id ord) PENDING) no_fuel (case e of
          NoWarehouseAvailableError \<Rightarrow>
            await (orders_transition store (o_id ord) PENDING FAILED (failed_patch OUT_OF_STOCK (exn_message e)))
              (\<lambda>_. Return ())
        | InsufficientStockError _ \<Rightarrow>
            await (orders_transition store (o_id ord) PENDING FAILED (failed_patch OUT_OF_STOCK (exn_message e)))
              (\<lambda>_. Return ())
        | _ \<Rightarrow> Throw e) u"
    by (cases e) (simp_all del: exn_message.simps)
qed

lemma authorize_past:
  assumes I: "consistent s" and known: "order_of s (o_id ord) = Some ord" and st: "o_status ord = STOCK_RESERVED"
  shows "safely (\<lambda>_. past (o_id ord) STOCK_RESERVED) no_fuel (saga_authorize store payment directory ord) s"
  unfolding saga_authorize_def
proof (rule safe_await, rule customer_safe [OF I])
  fix t c
  assume tt: "evolves s t" and I: "consistent t"
  obtain cur where cur: "order_of t (o_id ord) = Some cur" and same: "request_of cur = request_of ord"
    and le: "o_status ord \<le> o_status cur"
    by (rule evolves_orderE [OF tt known])
  have res: "\<not> unreserved (o_status cur)"
    by (rule reserved_le [OF _ le]) (simp add: st unreserved_def)
  have unwind: "safely (\<lambda>_. past (o_id ord) STOCK_RESERVED) no_fuel
      (await (orders_transition store (o_id ord) STOCK_RESERVED COMPENSATING (unwind_patch code msg r))
        (\<lambda>_. Return ())) u" if tu: "evolves t u" and "consistent u" for u code msg r
  proof -
    obtain cur' where "order_of u (o_id ord) = Some cur'"
      by (rule evolves_orderE [OF tu cur])
    with that show ?thesis by (intro swap_past) (auto simp: may_take_def)
  qed
  let ?dto = "\<lambda>card. \<lparr>a_key = o_id ord, a_card = card, a_amount = o_total ord, a_description = ''ORDER '' @ o_id ord\<rparr>"
  have charge: "safely (\<lambda>_. past (o_id ord) STOCK_RESERVED) no_fuel
      (await (payment_authorize payment (?dto card)) (\<lambda>result.
         if p_success result
         then await (orders_transition store (o_id ord) STOCK_RESERVED PAYMENT_AUTHORIZED (paid_patch result))
                (\<lambda>_. Return ())
         else await (orders_transition store (o_id ord) STOCK_RESERVED COMPENSATING
                      (unwind_patch PAYMENT_DECLINED
                         (case p_error result of Some msg \<Rightarrow> msg | None \<Rightarrow> ''Payment declined.'') (Some result)))
                (\<lambda>_. Return ()))) t" for card
  proof (rule safe_await, rule authorize_safe [OF I _ res])
    show "order_of t (a_key (?dto card)) = Some cur" and "a_amount (?dto card) = o_total cur"
      using cur same by (simp_all add: request_of_eq)
  next
    fix u r c
    assume tu: "evolves t u" and I: "consistent u"
      and chg: "charge_of u (a_key (?dto card)) = Some c" and rec: "records_charge r c"
    obtain cur' where "order_of u (o_id ord) = Some cur'"
      by (rule evolves_orderE [OF tu cur])
    with I chg rec have "safely (\<lambda>_. past (o_id ord) STOCK_RESERVED) no_fuel
        (await (orders_transition store (o_id ord) STOCK_RESERVED PAYMENT_AUTHORIZED (paid_patch r))
          (\<lambda>_. Return ())) u" if "p_success r"
      using that by (intro swap_past) (auto simp: may_take_def records_charge_def)
    with unwind [OF tu I] show "safely (\<lambda>_. past (o_id ord) STOCK_RESERVED) no_fuel (if p_success r
         then await (orders_transition store (o_id ord) STOCK_RESERVED PAYMENT_AUTHORIZED (paid_patch r))
                (\<lambda>_. Return ())
         else await (orders_transition store (o_id ord) STOCK_RESERVED COMPENSATING
                      (unwind_patch PAYMENT_DECLINED
                         (case p_error r of Some msg \<Rightarrow> msg | None \<Rightarrow> ''Payment declined.'') (Some r)))
                (\<lambda>_. Return ())) u"
      by simp
  qed
  show "safely (\<lambda>_. past (o_id ord) STOCK_RESERVED) no_fuel (case c of
         None \<Rightarrow>
           await (orders_transition store (o_id ord) STOCK_RESERVED COMPENSATING
                   (unwind_patch PAYMENT_DECLINED (''Customer '' @ o_customer ord @ '' no longer exists.'') None))
             (\<lambda>_. Return ())
       | Some c \<Rightarrow>
           await (payment_authorize payment (?dto (cu_card c))) (\<lambda>result.
             if p_success result
             then await (orders_transition store (o_id ord) STOCK_RESERVED PAYMENT_AUTHORIZED (paid_patch result))
                    (\<lambda>_. Return ())
             else await (orders_transition store (o_id ord) STOCK_RESERVED COMPENSATING
                          (unwind_patch PAYMENT_DECLINED
                             (case p_error result of Some msg \<Rightarrow> msg | None \<Rightarrow> ''Payment declined.'')
                             (Some result)))
                    (\<lambda>_. Return ()))) t"
    using unwind [OF evolves_refl I] charge by (cases c) simp_all
qed

lemma complete_past:
  assumes "consistent s" and "order_of s (o_id ord) = Some ord"
  shows "safely (\<lambda>_. past (o_id ord) PAYMENT_AUTHORIZED) no_fuel (saga_complete store ord) s"
  unfolding saga_complete_def by (rule swap_past [OF assms]) (simp add: may_take_def)

lemma compensate_owes_nothing:
  assumes I: "consistent s" and known: "order_of s (o_id ord) = Some ord" and st: "o_status ord = COMPENSATING"
  shows "safely (\<lambda>_. owes_nothing (o_id ord)) no_fuel (saga_compensate store inventory ord) s"
  unfolding saga_compensate_def
proof (rule safe_await, rule release_safe [OF known])
  show "unwinding (o_status ord)" by (simp add: st unwinding_def)
next
  fix t out
  assume tt: "evolves s t" and I: "consistent t"
    and rel: "movement_of t (o_id ord) RESERVE \<noteq> None \<longrightarrow> movement_of t (o_id ord) RELEASE \<noteq> None"
  obtain cur where cur: "order_of t (o_id ord) = Some cur" and le: "COMPENSATING \<le> o_status cur"
    using evolves_orderE [OF tt known] st by metis
  have "movement_of t (o_id ord) RELEASE \<noteq> None"
    using rel consistent_order [OF I cur] reserved_le [OF _ le] by (auto simp: order_ok_def unreserved_def)
  then have may: "may_take t (o_id ord) COMPENSATING COMPENSATED no_patch"
    by (simp add: may_take_def)
  show "safely (\<lambda>_. owes_nothing (o_id ord)) no_fuel
      (await (orders_transition store (o_id ord) COMPENSATING COMPENSATED no_patch) (\<lambda>_. Return ())) t"
  proof (rule safe_await, rule swap_safe [OF cur may])
    fix u res cur'
    assume tu: "evolves t u" and I: "consistent u" and cur': "order_of u (o_id ord) = Some cur'"
      and "o_status cur' \<noteq> COMPENSATING"
    moreover have "COMPENSATING \<le> o_status cur'"
      using evolves_orderE [OF tu cur] le cur' by (metis option.inject order_trans)
    ultimately have "o_status cur' = COMPENSATED"
      by (simp add: less_eq_order_status_def)
    with consistent_order [OF I cur'] cur'
    show "safely (\<lambda>_. owes_nothing (o_id ord)) no_fuel (Return ()) u"
      by (simp add: owes_nothing_def order_ok_def)
  qed simp
qed simp

lemma process_round:
  assumes I: "consistent t" and found: "order_of t oid = Some ord"
    and more: "\<And>u. consistent u \<Longrightarrow> evolves t u \<Longrightarrow> stage_of oid t < stage_of oid u \<Longrightarrow>
      safely (\<lambda>_. owes_nothing oid) no_fuel (process store inventory payment directory rounds oid) u"
  shows "safely (\<lambda>_. owes_nothing oid) no_fuel
    (if isTerminal (o_status ord)
     then if o_status ord = FAILED
          then await (inventory_releaseForOrder inventory oid) (\<lambda>_. Return ())
          else Return ()
     else case o_status ord of
            PENDING \<Rightarrow>
              await (saga_reserve store inventory ord) (\<lambda>_. process store inventory payment directory rounds oid)
          | STOCK_RESERVED \<Rightarrow>
              await (saga_authorize store payment directory ord) (\<lambda>_. process store inventory payment directory rounds oid)
          | PAYMENT_AUTHORIZED \<Rightarrow>
              await (saga_complete store ord) (\<lambda>_. process store inventory payment directory rounds oid)
          | COMPENSATING \<Rightarrow> saga_compensate store inventory ord
          | _ \<Rightarrow> Return ()) t"
proof -
  have oid: "o_id ord = oid" by (rule order_of_id [OF found])
  have next_round: "safely (\<lambda>_. owes_nothing oid) no_fuel
      (await p (\<lambda>_. process store inventory payment directory rounds oid)) t"
    if "safely (\<lambda>_. past oid (o_status ord)) no_fuel p t" for p :: "unit io"
    by (rule rg.safe_then [OF that I]) (rule more, assumption+, rule stage_of_past [OF _ found])
  have settled: "owes_nothing oid t" if "isTerminal (o_status ord)" and "o_status ord \<noteq> FAILED"
    using that found consistent_order [OF I found]
    by (auto simp: owes_nothing_def order_ok_def unwinding_def isTerminal_def TERMINAL_STATUSES_def)
  have failed: "safely (\<lambda>_. owes_nothing oid) no_fuel
      (await (inventory_releaseForOrder inventory oid) (\<lambda>_. Return ())) t" if st: "o_status ord = FAILED"
  proof (rule safe_await, rule release_safe [OF found])
    show "unwinding (o_status ord)" by (simp add: st unwinding_def)
  next
    fix u out
    assume tu: "evolves t u"
      and rel: "movement_of u oid RESERVE \<noteq> None \<longrightarrow> movement_of u oid RELEASE \<noteq> None"
    from evolves_order [OF tu found] st have "order_of u oid = Some ord"
      by (auto simp: order_evolves_def)
    with rel st show "safely (\<lambda>_. owes_nothing oid) no_fuel (Return ()) u"
      by (simp add: owes_nothing_def)
  qed simp
  show ?thesis
    using settled failed next_round reserve_past [OF I, of ord] authorize_past [OF I, of ord]
      complete_past [OF I, of ord] compensate_owes_nothing [OF I, of ord] found oid
    by (cases "o_status ord") simp_all
qed

theorem process_safe:
  assumes "consistent s" and "4 \<le> rounds + stage_of oid s"
  shows "safely (\<lambda>_. owes_nothing oid) no_fuel (process store inventory payment directory rounds oid) s"
  using assms
proof (induction rounds arbitrary: s)
  case 0
  have "stage_of oid s \<le> 3"
    by (simp add: stage_of_def stage_le split: option.split)
  with 0 show ?case by simp
next
  case (Suc rounds)
  show ?case
    unfolding process.simps
  proof (rule safe_await, rule find_safe)
    fix t
    assume st: "evolves s t" and I: "consistent t"
    show "safely (\<lambda>_. owes_nothing oid) no_fuel (case order_of t oid of
         None \<Rightarrow> Return ()
       | Some ord \<Rightarrow>
           if isTerminal (o_status ord)
           then if o_status ord = FAILED
                then await (inventory_releaseForOrder inventory oid) (\<lambda>_. Return ())
                else Return ()
           else case o_status ord of
                  PENDING \<Rightarrow>
                    await (saga_reserve store inventory ord) (\<lambda>_. process store inventory payment directory rounds oid)
                | STOCK_RESERVED \<Rightarrow>
                    await (saga_authorize store payment directory ord) (\<lambda>_. process store inventory payment directory rounds oid)
                | PAYMENT_AUTHORIZED \<Rightarrow>
                    await (saga_complete store ord) (\<lambda>_. process store inventory payment directory rounds oid)
                | COMPENSATING \<Rightarrow> saga_compensate store inventory ord
                | _ \<Rightarrow> Return ()) t"
    proof (cases "order_of t oid")
      case None
      then show ?thesis by (simp add: owes_nothing_def)
    next
      case (Some ord)
      show ?thesis
        unfolding Some option.case
      proof (rule process_round [OF I Some])
        fix u
        assume "consistent u" and "stage_of oid t < stage_of oid u"
        with stage_of_later [OF st, of oid] Suc.prems(2)
        show "safely (\<lambda>_. owes_nothing oid) no_fuel (process store inventory payment directory rounds oid) u"
          by (intro Suc.IH) simp_all
      qed
    qed
  qed simp
qed

end

interpretation worker: saga_worker orders_impl inventory_impl payment_impl customers_impl ..

lemma safe_worker: "consistent s \<Longrightarrow> safely (\<lambda>_. owes_nothing oid) no_fuel (worker oid) s"
  unfolding worker_def saga_rounds_def by (rule worker.process_safe) simp_all

end
