(* ===== verification/Sweeper.thy ===== *)
theory Sweeper
  imports Saga
begin

text \<open>
  Active reconciliation, \<open>orders/order-reconciliation.service.ts\<close>. The counters of a pass
  are one mutable object there: what a handler counted before it threw stays counted. A
  handler is therefore a program whose answer is the exception it ended with, if any, and
  the counters. The locale \<open>order_sweeper\<close> reasons from the contracts of the repository,
  the inventory and the payment service.
\<close>

section \<open>The service\<close>

record reconciliation_result =
  markedFailed :: int
  authorized :: int
  completed :: int
  compensated :: int
  errors :: int

definition no_result :: reconciliation_result where
  "no_result = \<lparr>markedFailed = 0, authorized = 0, completed = 0, compensated = 0, errors = 0\<rparr>"

type_synonym handled = "exn option \<times> reconciliation_result"

text \<open>Awaiting a call inside a handler: an exception ends the handler, the counters stay.\<close>

definition counting :: "reconciliation_result \<Rightarrow> 'a io \<Rightarrow> ('a \<Rightarrow> handled io) \<Rightarrow> handled io" where
  "counting result p k =
     await (attempt p) (\<lambda>outcome.
       case outcome of
         Inl e \<Rightarrow> Return (Some e, result)
       | Inr a \<Rightarrow> k a)"

definition releaseAndSettle :: "orders_api \<Rightarrow> inventory_api \<Rightarrow> order \<Rightarrow> reconciliation_result \<Rightarrow> handled io" where
  "releaseAndSettle store inventory ord result =
     counting result (inventory_releaseForOrder inventory (o_id ord)) (\<lambda>_.
     counting result (orders_transition store (o_id ord) COMPENSATING COMPENSATED no_patch) (\<lambda>settled.
       Return (None, if settled \<noteq> None then result\<lparr>compensated := compensated result + 1\<rparr> else result)))"

definition timeout_message :: string where
  "timeout_message = ''Reconciliation: the order was still pending past the processing deadline '' @
     ''and was never reserved or charged.''"

definition no_charge_message :: string where
  "no_charge_message =
     ''Reconciliation: no charge was ever recorded for this order past the processing deadline.''"

definition resolvePending :: "orders_api \<Rightarrow> inventory_api \<Rightarrow> order \<Rightarrow> reconciliation_result \<Rightarrow> handled io" where
  "resolvePending store inventory ord result =
     counting result
       (orders_transition store (o_id ord) PENDING FAILED (failed_patch RECONCILED_TIMEOUT timeout_message))
       (\<lambda>failed. case failed of
          None \<Rightarrow> Return (None, result)
        | Some _ \<Rightarrow>
            counting result (inventory_releaseForOrder inventory (o_id ord)) (\<lambda>_.
              Return (None, result\<lparr>markedFailed := markedFailed result + 1\<rparr>)))"

text \<open>The patch of an order whose charge was declined or never made.\<close>

definition uncharged_patch :: "payment_result option \<Rightarrow> transition_patch" where
  "uncharged_patch charge =
     (case charge of
        Some r \<Rightarrow> unwind_patch PAYMENT_DECLINED
          (case p_error r of Some msg \<Rightarrow> msg | None \<Rightarrow> ''Payment was declined.'') (Some r)
      | None \<Rightarrow> unwind_patch RECONCILED_NO_CHARGE no_charge_message None)"

definition resolveReserved :: "orders_api \<Rightarrow> inventory_api \<Rightarrow> payment_api \<Rightarrow> order \<Rightarrow>
    reconciliation_result \<Rightarrow> handled io" where
  "resolveReserved store inventory payment ord result =
     counting result (payment_getByIdempotencyKey payment (o_id ord)) (\<lambda>charge.
       if (case charge of Some r \<Rightarrow> p_success r | None \<Rightarrow> False)
       then counting result
              (orders_transition store (o_id ord) STOCK_RESERVED PAYMENT_AUTHORIZED (paid_patch (the charge)))
              (\<lambda>advanced. case advanced of
                 None \<Rightarrow> Return (None, result)
               | Some _ \<Rightarrow>
                   (let counted = result\<lparr>authorized := authorized result + 1\<rparr>
                    in counting counted
                         (orders_transition store (o_id ord) PAYMENT_AUTHORIZED COMPLETED no_patch)
                         (\<lambda>settled. Return (None,
                            if settled \<noteq> None then counted\<lparr>completed := completed counted + 1\<rparr>
                            else counted))))
       else counting result
              (orders_transition store (o_id ord) STOCK_RESERVED COMPENSATING (uncharged_patch charge))
              (\<lambda>compensating. case compensating of
                 None \<Rightarrow> Return (None, result)
               | Some _ \<Rightarrow> releaseAndSettle store inventory ord result))"

definition resolveAuthorized :: "orders_api \<Rightarrow> order \<Rightarrow> reconciliation_result \<Rightarrow> handled io" where
  "resolveAuthorized store ord result =
     counting result (orders_transition store (o_id ord) PAYMENT_AUTHORIZED COMPLETED no_patch) (\<lambda>settled.
       Return (None, if settled \<noteq> None then result\<lparr>completed := completed result + 1\<rparr> else result))"

definition resolveCompensating :: "orders_api \<Rightarrow> inventory_api \<Rightarrow> order \<Rightarrow> reconciliation_result \<Rightarrow> handled io" where
  "resolveCompensating store inventory ord result = releaseAndSettle store inventory ord result"

text \<open>The loop of \<open>sweepState\<close>, at most \<open>batchSize\<close> orders of one status.\<close>

primrec sweep_batch :: "orders_api \<Rightarrow> orders_config \<Rightarrow> order_status \<Rightarrow>
    (order \<Rightarrow> reconciliation_result \<Rightarrow> handled io) \<Rightarrow> nat \<Rightarrow> reconciliation_result \<Rightarrow> reconciliation_result io" where
  "sweep_batch store config status handler 0 result = Return result"
| "sweep_batch store config status handler (Suc i) result =
     await (orders_claimStale store status (sweeper_stale_after config) (sweeper_lease config)) (\<lambda>claimed.
       case claimed of
         None \<Rightarrow> Return result
       | Some ord \<Rightarrow>
           await (handler ord result) (\<lambda>(failure, result').
             sweep_batch store config status handler i
               (case failure of None \<Rightarrow> result' | Some _ \<Rightarrow> result'\<lparr>errors := errors result' + 1\<rparr>)))"

definition sweepState :: "orders_api \<Rightarrow> orders_config \<Rightarrow> order_status \<Rightarrow>
    (order \<Rightarrow> reconciliation_result \<Rightarrow> handled io) \<Rightarrow> reconciliation_result \<Rightarrow> reconciliation_result io" where
  "sweepState store config status handler result =
     sweep_batch store config status handler (sweeper_batch_size config) result"

definition sweep :: "orders_api \<Rightarrow> inventory_api \<Rightarrow> payment_api \<Rightarrow> orders_config \<Rightarrow> reconciliation_result io" where
  "sweep store inventory payment config =
     (if \<not> sweeper_enabled config then Return no_result
      else
        await (sweepState store config PENDING (resolvePending store inventory) no_result) (\<lambda>result.
        await (sweepState store config STOCK_RESERVED (resolveReserved store inventory payment) result) (\<lambda>result.
        await (sweepState store config PAYMENT_AUTHORIZED (resolveAuthorized store) result) (\<lambda>result.
        await (sweepState store config COMPENSATING (resolveCompensating store inventory) result) (\<lambda>result.
        Return result)))))"

text \<open>The sweep on the program's own services.\<close>

definition sweeper :: "orders_config \<Rightarrow> reconciliation_result io" where
  "sweeper config = sweep orders_impl inventory_impl payment_impl config"

section \<open>Safety of a sweep\<close>

lemma safe_counting:
  assumes "safely (\<lambda>a. safely Q E (k a)) (\<lambda>e. Q (Some e, result)) p s"
  shows "safely Q E (counting result p k) s"
  unfolding counting_def
  by (rule safe_await, rule safe_attempt) (rule safe_conseq [OF assms], simp_all)

text \<open>What a handler that did not throw leaves: the order has left the status.\<close>

definition resolved :: "object_id \<Rightarrow> order_status \<Rightarrow> handled \<Rightarrow> world \<Rightarrow> bool" where
  "resolved oid st = (\<lambda>(failure, _) s. failure = None \<longrightarrow> past oid st s)"

lemma resolved_simps [simp]:
  "resolved oid st (Some e, r) s" "resolved oid st (None, r) s = past oid st s"
  by (simp_all add: resolved_def)

lemma past_later:
  assumes "evolves s t" and "past oid st s" and "order_of s oid = Some ord" and "st \<le> o_status ord"
  shows "past oid st t"
proof -
  from assms(2,3,4) have "st < o_status ord"
    by (auto simp: past_def order_less_le)
  moreover obtain ord' where "order_of t oid = Some ord'" and "o_status ord \<le> o_status ord'"
    by (rule evolves_orderE [OF assms(1,3)])
  ultimately show ?thesis by (auto simp: past_def)
qed

locale order_sweeper =
  order_store store + inventory_service inventory + payment_gateway payment
  for store inventory payment
begin

lemma settle_resolved:
  assumes I: "consistent s" and known: "order_of s (o_id ord) = Some cur" and st: "COMPENSATING \<le> o_status cur"
  shows "safely (resolved (o_id ord) COMPENSATING) no_fuel (releaseAndSettle store inventory ord result) s"
  unfolding releaseAndSettle_def
proof (rule safe_counting, rule release_safe [OF known])
  show "unwinding (o_status cur)"
    by (rule unwinding_le [OF _ st]) (simp add: unwinding_def)
next
  fix t out
  assume tt: "evolves s t" and I: "consistent t"
    and rel: "movement_of t (o_id ord) RESERVE \<noteq> None \<longrightarrow> movement_of t (o_id ord) RELEASE \<noteq> None"
  obtain cur' where cur': "order_of t (o_id ord) = Some cur'" and le: "o_status cur \<le> o_status cur'"
    by (rule evolves_orderE [OF tt known])
  have "\<not> unreserved (o_status cur')"
    by (rule reserved_le [OF _ order_trans [OF st le]]) (simp add: unreserved_def)
  with rel consistent_order [OF I cur'] have "movement_of t (o_id ord) RELEASE \<noteq> None"
    by (auto simp: order_ok_def)
  then have may: "may_take t (o_id ord) COMPENSATING COMPENSATED no_patch"
    by (simp add: may_take_def)
  show "safely (resolved (o_id ord) COMPENSATING) no_fuel
      (counting result (orders_transition store (o_id ord) COMPENSATING COMPENSATED no_patch) (\<lambda>settled.
         Return (None, if settled \<noteq> None then result\<lparr>compensated := compensated result + 1\<rparr> else result))) t"
    by (rule safe_counting, rule swap_safe [OF cur' may]) (auto simp: past_def)
qed simp

lemma pending_resolved:
  assumes I: "consistent s" and known: "order_of s (o_id ord) = Some cur"
  shows "safely (resolved (o_id ord) PENDING) no_fuel (resolvePending store inventory ord result) s"
  unfolding resolvePending_def
proof (rule safe_counting, rule swap_safe [OF known])
  show "may_take s (o_id ord) PENDING FAILED (failed_patch RECONCILED_TIMEOUT timeout_message)"
    by (auto simp: may_take_def)
next
  fix t res now
  assume tt: "evolves s t" and I: "consistent t" and now: "order_of t (o_id ord) = Some now"
    and left: "o_status now \<noteq> PENDING" and res: "res \<noteq> None \<longrightarrow> res = Some now \<and> o_status now = FAILED"
  have here: "past (o_id ord) PENDING t" using now left by (simp add: past_def)
  have release: "safely (resolved (o_id ord) PENDING) no_fuel
      (counting result (inventory_releaseForOrder inventory (o_id ord)) (\<lambda>_.
         Return (None, result\<lparr>markedFailed := markedFailed result + 1\<rparr>))) t" if "o_status now = FAILED"
  proof (rule safe_counting, rule release_safe [OF now])
    show "unwinding (o_status now)" using that by (simp add: unwinding_def)
  next
    fix u out
    assume "evolves t u"
    from past_later [OF this here now]
    show "safely (resolved (o_id ord) PENDING) no_fuel
      (Return (None, result\<lparr>markedFailed := markedFailed result + 1\<rparr>)) u"
      by (simp add: less_eq_order_status_def)
  qed simp
  show "safely (resolved (o_id ord) PENDING) no_fuel
      (case res of
          None \<Rightarrow> Return (None, result)
        | Some _ \<Rightarrow>
            counting result (inventory_releaseForOrder inventory (o_id ord)) (\<lambda>_.
              Return (None, result\<lparr>markedFailed := markedFailed result + 1\<rparr>))) t"
    using res here release by (cases res) auto
qed simp

lemma authorized_resolved:
  assumes "consistent s" and known: "order_of s (o_id ord) = Some cur"
  shows "safely (resolved (o_id ord) PAYMENT_AUTHORIZED) no_fuel (resolveAuthorized store ord result) s"
  unfolding resolveAuthorized_def
  by (rule safe_counting, rule swap_safe [OF known]) (auto simp: may_take_def past_def)

lemma compensating_resolved:
  assumes "consistent s" and "order_of s (o_id ord) = Some cur" and "o_status cur = COMPENSATING"
  shows "safely (resolved (o_id ord) COMPENSATING) no_fuel (resolveCompensating store inventory ord result) s"
  unfolding resolveCompensating_def by (rule settle_resolved [OF assms(1,2)]) (simp add: assms(3))

text \<open>An order that is known to have left \<open>STOCK_RESERVED\<close> does not come back.\<close>

lemma forward_resolved:
  assumes I: "consistent s" and known: "order_of s (o_id ord) = Some cur" and st: "STOCK_RESERVED \<le> o_status cur"
    and chg: "charge_of s (o_id ord) = Some c" and rec: "records_charge r c" and paid: "p_success r"
  shows "safely (resolved (o_id ord) STOCK_RESERVED) no_fuel
    (counting result (orders_transition store (o_id ord) STOCK_RESERVED PAYMENT_AUTHORIZED (paid_patch r))
       (\<lambda>advanced. case advanced of
          None \<Rightarrow> Return (None, result)
        | Some _ \<Rightarrow>
            (let counted = result\<lparr>authorized := authorized result + 1\<rparr>
             in counting counted
                  (orders_transition store (o_id ord) PAYMENT_AUTHORIZED COMPLETED no_patch)
                  (\<lambda>settled. Return (None,
                     if settled \<noteq> None then counted\<lparr>completed := completed counted + 1\<rparr>
                     else counted))))) s"
proof (rule safe_counting, rule swap_safe [OF known])
  show "may_take s (o_id ord) STOCK_RESERVED PAYMENT_AUTHORIZED (paid_patch r)"
    using chg rec paid by (auto simp: may_take_def records_charge_def)
next
  fix t res now
  assume tt: "evolves s t" and I: "consistent t" and now: "order_of t (o_id ord) = Some now"
    and left: "o_status now \<noteq> STOCK_RESERVED"
    and res: "res \<noteq> None \<longrightarrow> res = Some now \<and> o_status now = PAYMENT_AUTHORIZED"
  have here: "past (o_id ord) STOCK_RESERVED t" using now left by (simp add: past_def)
  have settle: "safely (resolved (o_id ord) STOCK_RESERVED) no_fuel
      (counting counted (orders_transition store (o_id ord) PAYMENT_AUTHORIZED COMPLETED no_patch)
        (\<lambda>settled. Return (None, f settled))) t"
    if "o_status now = PAYMENT_AUTHORIZED" for counted f
  proof (rule safe_counting, rule swap_safe [OF now])
    show "may_take t (o_id ord) PAYMENT_AUTHORIZED COMPLETED no_patch" by (simp add: may_take_def)
  next
    fix u settled
    assume "evolves t u"
    from past_later [OF this here now] that
    show "safely (resolved (o_id ord) STOCK_RESERVED) no_fuel (Return (None, f settled)) u"
      by (simp add: less_eq_order_status_def)
  qed simp
  show "safely (resolved (o_id ord) STOCK_RESERVED) no_fuel (case res of
      None \<Rightarrow> Return (None, result)
    | Some _ \<Rightarrow>
        (let counted = result\<lparr>authorized := authorized result + 1\<rparr>
         in counting counted
              (orders_transition store (o_id ord) PAYMENT_AUTHORIZED COMPLETED no_patch)
              (\<lambda>settled. Return (None,
                 if settled \<noteq> None then counted\<lparr>completed := completed counted + 1\<rparr> else counted)))) t"
    using res here settle by (cases res) (auto simp: Let_def)
qed simp

lemma unwind_resolved:
  assumes I: "consistent s" and known: "order_of s (o_id ord) = Some cur"
  shows "safely (resolved (o_id ord) STOCK_RESERVED) no_fuel
    (counting result
       (orders_transition store (o_id ord) STOCK_RESERVED COMPENSATING (uncharged_patch charge))
       (\<lambda>compensating. case compensating of
          None \<Rightarrow> Return (None, result)
        | Some _ \<Rightarrow> releaseAndSettle store inventory ord result)) s"
proof (rule safe_counting, rule swap_safe [OF known])
  show "may_take s (o_id ord) STOCK_RESERVED COMPENSATING (uncharged_patch charge)"
    by (auto simp: may_take_def uncharged_patch_def split: option.split)
next
  fix t res now
  assume I: "consistent t" and now: "order_of t (o_id ord) = Some now"
    and left: "o_status now \<noteq> STOCK_RESERVED"
    and res: "res \<noteq> None \<longrightarrow> res = Some now \<and> o_status now = COMPENSATING"
  have settle: "safely (resolved (o_id ord) STOCK_RESERVED) no_fuel (releaseAndSettle store inventory ord result) t"
    if st: "o_status now = COMPENSATING"
  proof (rule rg.safe_post [OF settle_resolved [OF I now] I])
    fix a u
    assume "evolves t u"
    then obtain ord' where "order_of u (o_id ord) = Some ord'" and "COMPENSATING \<le> o_status ord'"
      using evolves_orderE [OF _ now] st by metis
    then have "past (o_id ord) STOCK_RESERVED u"
      by (auto simp: past_def less_eq_order_status_def)
    then show "resolved (o_id ord) STOCK_RESERVED a u"
      by (cases a) (simp add: resolved_def)
  qed (simp_all add: st)
  show "safely (resolved (o_id ord) STOCK_RESERVED) no_fuel (case res of
      None \<Rightarrow> Return (None, result)
    | Some _ \<Rightarrow> releaseAndSettle store inventory ord result) t"
    using res settle now left by (cases res) (auto simp: past_def)
qed simp

lemma reserved_resolved:
  assumes I: "consistent s" and known: "order_of s (o_id ord) = Some cur" and st: "o_status cur = STOCK_RESERVED"
  shows "safely (resolved (o_id ord) STOCK_RESERVED) no_fuel
    (resolveReserved store inventory payment ord result) s"
  unfolding resolveReserved_def
proof (rule safe_counting, rule find_charge_safe [OF I])
  fix t r c
  assume tt: "evolves s t" and I: "consistent t"
    and chg: "charge_of t (o_id ord) = Some c" "records_charge r c"
  obtain now where now: "order_of t (o_id ord) = Some now" and le: "STOCK_RESERVED \<le> o_status now"
    using evolves_orderE [OF tt known] st by metis
  show "safely (resolved (o_id ord) STOCK_RESERVED) no_fuel
    (if (case Some r of Some r \<Rightarrow> p_success r | None \<Rightarrow> False)
       then counting result
              (orders_transition store (o_id ord) STOCK_RESERVED PAYMENT_AUTHORIZED (paid_patch (the (Some r))))
              (\<lambda>advanced. case advanced of
                 None \<Rightarrow> Return (None, result)
               | Some _ \<Rightarrow>
                   (let counted = result\<lparr>authorized := authorized result + 1\<rparr>
                    in counting counted
                         (orders_transition store (o_id ord) PAYMENT_AUTHORIZED COMPLETED no_patch)
                         (\<lambda>settled. Return (None,
                            if settled \<noteq> None then counted\<lparr>completed := completed counted + 1\<rparr>
                            else counted))))
       else counting result
              (orders_transition store (o_id ord) STOCK_RESERVED COMPENSATING (uncharged_patch (Some r)))
              (\<lambda>compensating. case compensating of
                 None \<Rightarrow> Return (None, result)
               | Some _ \<Rightarrow> releaseAndSettle store inventory ord result)) t"
    using forward_resolved [OF I now le chg] unwind_resolved [OF I now] by simp
next
  fix t
  assume tt: "evolves s t" and I: "consistent t"
  obtain now where now: "order_of t (o_id ord) = Some now"
    by (rule evolves_orderE [OF tt known])
  show "safely (resolved (o_id ord) STOCK_RESERVED) no_fuel
    (if (case None of Some r \<Rightarrow> p_success r | None \<Rightarrow> False)
       then counting result
              (orders_transition store (o_id ord) STOCK_RESERVED PAYMENT_AUTHORIZED (paid_patch (the None)))
              (\<lambda>advanced. case advanced of
                 None \<Rightarrow> Return (None, result)
               | Some _ \<Rightarrow>
                   (let counted = result\<lparr>authorized := authorized result + 1\<rparr>
                    in counting counted
                         (orders_transition store (o_id ord) PAYMENT_AUTHORIZED COMPLETED no_patch)
                         (\<lambda>settled. Return (None,
                            if settled \<noteq> None then counted\<lparr>completed := completed counted + 1\<rparr>
                            else counted))))
       else counting result
              (orders_transition store (o_id ord) STOCK_RESERVED COMPENSATING (uncharged_patch None))
              (\<lambda>compensating. case compensating of
                 None \<Rightarrow> Return (None, result)
               | Some _ \<Rightarrow> releaseAndSettle store inventory ord result)) t"
    using unwind_resolved [OF I now] by simp
qed simp

text \<open>
  The loop, for any handler that is safe on the orders it is given, and the whole pass.
\<close>

lemma batch_safe:
  assumes I: "consistent s" and live: "\<not> isTerminal status"
    and handler: "\<And>t ord r. \<lbrakk>consistent t; order_of t (o_id ord) = Some ord; o_status ord = status\<rbrakk> \<Longrightarrow>
      safely (resolved (o_id ord) status) no_fuel (handler ord r) t"
  shows "safely (\<lambda>_ _. True) no_fuel (sweep_batch store config status handler i result) s"
  using I
proof (induction i arbitrary: s result)
  case (Suc i)
  show ?case
    unfolding sweep_batch.simps
  proof (rule safe_await, rule claim_safe [OF live])
    fix t ord
    assume "consistent t" and "order_of t (o_id ord) = Some ord" and "o_status ord = status"
    then show "safely (\<lambda>_ _. True) no_fuel (case Some ord of
         None \<Rightarrow> Return result
       | Some ord \<Rightarrow>
           await (handler ord result) (\<lambda>(failure, result').
             sweep_batch store config status handler i
               (case failure of None \<Rightarrow> result' | Some _ \<Rightarrow> result'\<lparr>errors := errors result' + 1\<rparr>))) t"
      unfolding option.case by (intro rg.safe_then [OF handler]) (simp_all add: split_beta Suc.IH)
  qed simp_all
qed simp

theorem sweep_safe:
  assumes "consistent s"
  shows "safely (\<lambda>_ _. True) no_fuel (sweep store inventory payment config) s"
proof -
  have pass: "safely (\<lambda>_ _. True) no_fuel (sweepState store config status handler result) t"
    if "consistent t" and "\<not> isTerminal status"
      and "\<And>t ord r. \<lbrakk>consistent t; order_of t (o_id ord) = Some ord; o_status ord = status\<rbrakk> \<Longrightarrow>
        safely (resolved (o_id ord) status) no_fuel (handler ord r) t"
    for t status handler result
    unfolding sweepState_def by (rule batch_safe [OF that])
  show ?thesis
    unfolding sweep_def
    by (simp add: assms, intro impI rg.safe_then [OF pass] pass)
      (simp_all add: assms pending_resolved reserved_resolved authorized_resolved compensating_resolved)
qed

end

interpretation sweeper: order_sweeper orders_impl inventory_impl payment_impl ..

lemma safe_sweeper: "consistent s \<Longrightarrow> safely (\<lambda>_ _. True) no_fuel (sweeper config) s"
  unfolding sweeper_def by (rule sweeper.sweep_safe)

end
