(* ===== verification/Numbers.thy ===== *)
theory Numbers
  imports Complex_Main
begin

text \<open>
  JavaScript numbers as the pricing code uses them. A number is the rational it denotes;
  \<open>double\<close> rounds a real result to the nearest number with 53 significant bits, ties to
  even, which is what every arithmetic operation of the language does with its exact
  result. Not modelled: overflow to infinity above \<open>2 ^ 1024\<close> and the subnormal numbers
  below \<open>2 ^ - 1022\<close>.
\<close>

definition round_even :: "rat \<Rightarrow> int" where
  "round_even x =
     (let n = \<lfloor>x\<rfloor>; d = x - of_int n
      in if d < 1 / 2 then n else if 1 / 2 < d then n + 1 else if even n then n else n + 1)"

text \<open>The scaling to \<open>[2 ^ 52, 2 ^ 53)\<close>, where the numbers are the integers.\<close>

function double :: "rat \<Rightarrow> rat" where
  "double x =
     (if x < 0 then - double (- x)
      else if x = 0 then 0
      else if 2 ^ 53 \<le> x then 2 * double (x / 2)
      else if x < 2 ^ 52 then double (2 * x) / 2
      else of_int (round_even x))"
  by pat_completeness auto

definition scale_class :: "rat \<Rightarrow> nat" where
  "scale_class x = (if x < 0 then 2 else if x < 2 ^ 52 then 1 else 0)"

definition scale_steps :: "rat \<Rightarrow> nat" where
  "scale_steps x = (if 2 ^ 52 \<le> x then nat \<lfloor>x\<rfloor> else nat \<lceil>2 ^ 52 / x\<rceil>)"

lemma halving_ceiling:
  fixes y :: rat
  assumes "1 < y"
  shows "nat \<lceil>y / 2\<rceil> < nat \<lceil>y\<rceil>"
proof -
  have "1 < \<lceil>y\<rceil>" using assms by (simp add: less_ceiling_iff)
  moreover have "y / 2 \<le> of_int \<lceil>y\<rceil> / 2" by simp
  moreover have "of_int \<lceil>y\<rceil> / 2 \<le> (of_int (\<lceil>y\<rceil> - 1) :: rat)"
    using \<open>1 < \<lceil>y\<rceil>\<close> by (simp add: field_simps)
  ultimately have "\<lceil>y / 2\<rceil> \<le> \<lceil>y\<rceil> - 1"
    by (meson ceiling_le order_trans)
  with \<open>1 < \<lceil>y\<rceil>\<close> show ?thesis by simp
qed

lemma halving_floor:
  fixes y :: rat
  assumes "2 \<le> y"
  shows "nat \<lfloor>y / 2\<rfloor> < nat \<lfloor>y\<rfloor>"
proof -
  have 2: "2 \<le> \<lfloor>y\<rfloor>" using assms by (simp add: le_floor_iff)
  have "y < of_int \<lfloor>y\<rfloor> + 1" using floor_correct [of y] by simp
  also have "\<dots> \<le> 2 * of_int \<lfloor>y\<rfloor>" using 2 by simp
  finally have "\<lfloor>y / 2\<rfloor> < \<lfloor>y\<rfloor>" by (simp add: floor_less_iff)
  with 2 show ?thesis by simp
qed

termination double
proof (relation "measures [scale_class, scale_steps]", goal_cases)
  case (2 x)
  then show ?case by (simp add: scale_class_def)
next
  case (3 x)
  have "(2 :: rat) ^ 52 \<le> 2 ^ 53" by simp
  with 3 have "2 ^ 52 \<le> x / 2" "2 ^ 52 \<le> x" "2 \<le> x" by simp_all
  with halving_floor [of x] show ?case
    by (simp add: scale_class_def scale_steps_def)
next
  case (4 x)
  then have "0 < x" by simp
  with 4 have "1 < 2 ^ 52 / x" by simp
  from halving_ceiling [OF this] 4 \<open>0 < x\<close> show ?case
    by (simp add: scale_class_def scale_steps_def field_simps)
qed simp

declare double.simps [simp del]

section \<open>Rounding errors\<close>

lemma round_even_near: "\<bar>of_int (round_even x) - x\<bar> \<le> 1 / 2"
proof -
  have "of_int \<lfloor>x\<rfloor> \<le> x" "x < of_int \<lfloor>x\<rfloor> + 1"
    using floor_correct [of x] by simp_all
  then show ?thesis by (auto simp: round_even_def Let_def abs_le_iff)
qed

lemma round_even_int [simp]: "round_even (of_int n) = n"
  by (simp add: round_even_def)

text \<open>The relative error of one operation is at most \<open>2 ^ - 53\<close>.\<close>

lemma double_error: "0 \<le> x \<Longrightarrow> \<bar>double x - x\<bar> \<le> x / 2 ^ 53"
proof (induction x rule: double.induct)
  case (1 x)
  consider "x = 0" | "2 ^ 53 \<le> x" | "0 < x" "x < 2 ^ 52" | "2 ^ 52 \<le> x" "x < 2 ^ 53"
    using "1.prems" by linarith
  then show ?case
  proof cases
    case 2
    then have "0 < x" "x \<noteq> 0" by simp_all
    with 2 "1.IH"(2) have "\<bar>double (x / 2) - x / 2\<bar> \<le> x / 2 / 2 ^ 53" by simp
    moreover have "double x = 2 * double (x / 2)"
      using 2 \<open>0 < x\<close> by (subst double.simps) simp
    ultimately show ?thesis by (simp add: abs_le_iff field_simps)
  next
    case 3
    with "1.IH"(3) have "\<bar>double (2 * x) - 2 * x\<bar> \<le> 2 * x / 2 ^ 53" by simp
    moreover have "double (2 * x) - 2 * x = 2 * (double x - x)"
      using 3 by (subst (2) double.simps) simp
    ultimately have "2 * \<bar>double x - x\<bar> \<le> 2 * x / 2 ^ 53"
      by (simp only: abs_mult abs_numeral)
    then show ?thesis by simp
  next
    case 4
    then have "double x = of_int (round_even x)" by (subst double.simps) simp
    moreover have "1 / 2 \<le> x / 2 ^ 53" using 4 by (simp add: field_simps)
    ultimately show ?thesis using round_even_near [of x] by simp
  qed (subst double.simps, simp)
qed

text \<open>Integers up to \<open>2 ^ 53\<close> are numbers: arithmetic that stays below is exact.\<close>

lemma double_int: "\<bar>n\<bar> \<le> 2 ^ 53 \<Longrightarrow> double (of_int n) = of_int n"
proof (induction "of_int n :: rat" arbitrary: n rule: double.induct)
  case 1
  consider "n < 0" | "n = 0" | "n = 2 ^ 53" | "0 < n" "n < 2 ^ 52" | "2 ^ 52 \<le> n" "n < 2 ^ 53"
    using "1.prems" by linarith
  then show ?case
  proof cases
    case 1
    with "1.hyps"(1) [of "- n"] "1.prems" show ?thesis by (subst double.simps) simp
  next
    case 3
    have n: "(of_int n :: rat) = 2 ^ 53" by (simp add: 3)
    have "double (of_int (2 ^ 52)) = of_int (2 ^ 52)"
      by (rule "1.hyps"(2)) (simp_all only: n, simp_all)
    then show ?thesis unfolding n by (subst double.simps) simp
  next
    case 4
    then have "(of_int n :: rat) < of_int (2 ^ 52)" "(0 :: rat) < of_int n"
      by (simp_all only: of_int_less_iff of_int_0_less_iff)
    then have "(of_int n :: rat) < 2 ^ 52" "(0 :: rat) < of_int n" by simp_all
    moreover from this 4 "1.hyps"(3) [of "2 * n"] have "double (2 * of_int n) = 2 * of_int n" by simp
    ultimately show ?thesis by (subst double.simps) simp
  next
    case 5
    then have "(of_int n :: rat) < of_int (2 ^ 53)" "of_int (2 ^ 52) \<le> (of_int n :: rat)"
      by (simp_all only: of_int_less_iff of_int_le_iff)
    then have "(of_int n :: rat) < 2 ^ 53" "(2 :: rat) ^ 52 \<le> of_int n" by simp_all
    then show ?thesis by (subst double.simps) simp
  qed (subst double.simps, simp)
qed

section \<open>The operations the pricing code uses\<close>

definition num_mul :: "rat \<Rightarrow> rat \<Rightarrow> rat" where
  "num_mul a b = double (a * b)"

definition num_add :: "rat \<Rightarrow> rat \<Rightarrow> rat" where
  "num_add a b = double (a + b)"

text \<open>\<open>Math.round\<close>: the nearest integer, halves upwards.\<close>

definition math_round :: "rat \<Rightarrow> int" where
  "math_round x = \<lfloor>x + 1 / 2\<rfloor>"

end
