(* ===== verification/Requests.thy ===== *)
theory Requests
  imports Payment Numbers "HOL-Library.Char_ord" "HOL-Library.List_Lexorder" "HOL-Library.Product_Lexorder"
    "HOL-Library.Multiset"
begin

text \<open>
  What crosses the orders API: the request body and its constraints
  (\<open>orders/dto/create-order.dto.ts\<close>), the idempotency key header
  (\<open>common/decorators/idempotency-key.decorator.ts\<close>), the fingerprint of a request
  (\<open>fingerprintRequest\<close> in \<open>orders/orders.service.ts\<close>) and the answer
  (\<open>orders/dto/order-response.dto.ts\<close>). Characters are the code units up to 255. The hash
  is a parameter: theorems speak of the text that is hashed.
\<close>

section \<open>The request\<close>

record item_dto =
  it_product :: string
  it_quantity :: int

record create_order_dto =
  co_customer :: string
  co_address :: string
  co_items :: "item_dto list"

definition ItemDto_valid :: "item_dto \<Rightarrow> bool" where
  "ItemDto_valid item \<longleftrightarrow> is_mongo_id (it_product item) \<and> 1 \<le> it_quantity item \<and> it_quantity item \<le> 1000"

text \<open>\<open>UniqueProductIdsConstraint\<close>: as many different ids as ids.\<close>

definition unique_product_ids :: "item_dto list \<Rightarrow> bool" where
  "unique_product_ids items \<longleftrightarrow>
     length (remdups (map it_product items)) = length (map it_product items)"

text \<open>\<open>SHIPPING_ADDRESS_PATTERN\<close> on Latin-1: letters, numbers, white space and some punctuation.\<close>

definition address_char :: "char \<Rightarrow> bool" where
  "address_char c \<longleftrightarrow>
     (let n = of_char c :: nat
      in (65 \<le> n \<and> n \<le> 90) \<or> (97 \<le> n \<and> n \<le> 122) \<or> n \<in> {170, 181, 186} \<or> (192 \<le> n \<and> n \<notin> {215, 247})
       \<or> (48 \<le> n \<and> n \<le> 57) \<or> n \<in> {178, 179, 185, 188, 189, 190}
       \<or> js_space c
       \<or> c \<in> {CHR '','', CHR ''.'', CHR 0x27, CHR ''#'', CHR ''/'', CHR ''&'', CHR ''-''})"

definition CreateOrderDto_valid :: "create_order_dto \<Rightarrow> bool" where
  "CreateOrderDto_valid dto \<longleftrightarrow>
     is_mongo_id (co_customer dto)
     \<and> 3 \<le> length (co_address dto) \<and> length (co_address dto) \<le> 500 \<and> list_all address_char (co_address dto)
     \<and> co_items dto \<noteq> [] \<and> length (co_items dto) \<le> 100
     \<and> list_all ItemDto_valid (co_items dto) \<and> unique_product_ids (co_items dto)"

text \<open>The header: its first value, trimmed, neither empty nor too long.\<close>

definition extractIdempotencyKey :: "string list \<Rightarrow> exn + string" where
  "extractIdempotencyKey raw =
     (let key = (case raw of [] \<Rightarrow> [] | v # _ \<Rightarrow> trim v)
      in if key = []
         then Inl (BadRequestException (Some ''IDEMPOTENCY_KEY_REQUIRED'')
                [''An Idempotency-Key header is required.''])
         else if length key > MAX_IDEMPOTENCY_KEY_LENGTH
         then Inl (BadRequestException (Some ''IDEMPOTENCY_KEY_TOO_LONG'')
                [''Idempotency-Key must be at most '' @ show_nat MAX_IDEMPOTENCY_KEY_LENGTH @ '' characters.''])
         else Inr key)"

text \<open>
  The flattening of nested validation errors (\<open>common/pipes/create-validation-pipe.ts\<close>):
  a path per error, its own messages before those of its children.
\<close>

datatype validation_error =
  ValidationError (ve_property: string) (ve_constraints: "string list") (ve_children: "validation_error list")

fun collectMessages :: "string \<Rightarrow> validation_error list \<Rightarrow> string list"
  and collectMessage :: "string \<Rightarrow> validation_error \<Rightarrow> string list" where
  "collectMessages parentPath [] = []"
| "collectMessages parentPath (error # errors) = collectMessage parentPath error @ collectMessages parentPath errors"
| "collectMessage parentPath (ValidationError property constraints children) =
     (let path = (if parentPath \<noteq> [] then parentPath @ ''.'' @ property else property)
      in map (\<lambda>message. path @ '': '' @ message) constraints
         @ (if children \<noteq> [] then collectMessages path children else []))"

section \<open>The fingerprint\<close>

text \<open>\<open>JSON.stringify\<close> of a string.\<close>

definition json_hex :: "nat \<Rightarrow> char" where
  "json_hex n = (if n < 10 then char_of (48 + n) else char_of (87 + n))"

definition json_char :: "char \<Rightarrow> string" where
  "json_char c =
     (let n = of_char c :: nat
      in if n = 34 then [CHR 0x5C, CHR 0x22]
         else if n = 92 then [CHR 0x5C, CHR 0x5C]
         else if n = 8 then [CHR 0x5C, CHR ''b'']
         else if n = 9 then [CHR 0x5C, CHR ''t'']
         else if n = 10 then [CHR 0x5C, CHR ''n'']
         else if n = 12 then [CHR 0x5C, CHR ''f'']
         else if n = 13 then [CHR 0x5C, CHR ''r'']
         else if n < 32 then [CHR 0x5C, CHR ''u'', CHR ''0'', CHR ''0'', json_hex (n div 16), json_hex (n mod 16)]
         else [c])"

definition json_string :: "string \<Rightarrow> string" where
  "json_string v = CHR 0x22 # concat (map json_char v) @ [CHR 0x22]"

text \<open>
  \<open>localeCompare\<close> on hexadecimal ids: by the characters up to case, then lower case before
  upper case.
\<close>

definition collation :: "string \<Rightarrow> string \<times> bool list" where
  "collation v = (map lower v, map (\<lambda>c. lower c \<noteq> c) v)"

definition canonical_items :: "create_order_dto \<Rightarrow> item_dto list" where
  "canonical_items dto = sort_key (\<lambda>item. collation (it_product item)) (co_items dto)"

definition json_item :: "item_dto \<Rightarrow> string" where
  "json_item item =
     ''{'' @ json_string ''productId'' @ '':'' @ json_string (it_product item) @ '',''
     @ json_string ''quantity'' @ '':'' @ show_int (it_quantity item) @ ''}''"

definition canonical :: "create_order_dto \<Rightarrow> string" where
  "canonical dto =
     ''{'' @ json_string ''customerId'' @ '':'' @ json_string (co_customer dto) @ '',''
     @ json_string ''shippingAddress'' @ '':'' @ json_string (trim (co_address dto)) @ '',''
     @ json_string ''items'' @ '':['' @ join '','' (map json_item (canonical_items dto)) @ '']}''"

definition fingerprintRequest :: "(string \<Rightarrow> string) \<Rightarrow> create_order_dto \<Rightarrow> string" where
  "fingerprintRequest sha256 dto = sha256 (canonical dto)"

section \<open>The answer\<close>

record order_response =
  or_order :: object_id
  or_status :: order_status
  or_settled :: bool
  or_customer :: object_id
  or_address :: string
  or_items :: "order_item list"
  or_total :: int
  or_warehouse :: "object_id option"
  or_payment :: "payment_result option"
  or_failure :: "failure_code option"
  or_error :: "string option"
  or_created :: date
  or_updated :: date
  or_self :: string

definition OrderResponseDto_from :: "order \<Rightarrow> order_response" where
  "OrderResponseDto_from ord =
     \<lparr>or_order = o_id ord, or_status = o_status ord, or_settled = isTerminal (o_status ord),
      or_customer = o_customer ord, or_address = o_address ord,
      or_items = map (\<lambda>item. \<lparr>oi_product = oi_product item, oi_quantity = oi_quantity item,
                              oi_unit_price = oi_unit_price item\<rparr>) (o_items ord),
      or_total = o_total ord, or_warehouse = o_warehouse ord, or_payment = o_payment ord,
      or_failure = o_failure ord, or_error = o_error ord, or_created = o_created ord,
      or_updated = o_updated ord, or_self = ''/orders/'' @ o_id ord\<rparr>"

section \<open>Prices\<close>

definition toMinorUnits :: "rat \<Rightarrow> int" where
  "toMinorUnits price = math_round (num_mul price 100)"

text \<open>The reduction over the items; the numbers stay numbers, the total is their integer.\<close>

definition total_amount :: "order_item list \<Rightarrow> int" where
  "total_amount items =
     \<lfloor>foldl (\<lambda>sum item. num_add sum (num_mul (of_int (oi_unit_price item)) (of_int (oi_quantity item)))) 0 items\<rfloor>"

text \<open>A price in whole cents, as the nearest number, becomes exactly those cents.\<close>

lemma toMinorUnits_cents:
  assumes "0 \<le> k" and "k \<le> 2 ^ 50"
  shows "toMinorUnits (double (of_int k / 100)) = k"
proof -
  let ?k = "of_int k :: rat" and ?p = "double (of_int k / 100)"
  have k: "0 \<le> ?k" "?k \<le> 2 ^ 50"
    using assms by (simp, metis of_int_le_iff of_int_numeral of_int_power)
  from double_error [of "?k / 100"] k
  have p: "?k / 100 - ?p \<le> ?k / 100 / 2 ^ 53" "?p - ?k / 100 \<le> ?k / 100 / 2 ^ 53"
    by (simp_all only: abs_le_iff minus_diff_eq zero_le_divide_iff) simp_all
  with k have "0 \<le> ?p" by simp
  with double_error [of "?p * 100"]
  have d: "?p * 100 - double (?p * 100) \<le> ?p * 100 / 2 ^ 53" "double (?p * 100) - ?p * 100 \<le> ?p * 100 / 2 ^ 53"
    by (simp_all only: abs_le_iff minus_diff_eq)
  have "\<bar>double (?p * 100) - ?k\<bar> < 1 / 2"
    unfolding abs_less_iff minus_diff_eq using p d k by simp
  then have "\<lfloor>double (?p * 100) + 1 / 2\<rfloor> = k"
    unfolding abs_diff_less_iff by (intro floor_unique) simp_all
  then show ?thesis by (simp add: toMinorUnits_def math_round_def num_mul_def)
qed

definition exact_total :: "order_item list \<Rightarrow> int" where
  "exact_total items = sum_list (map (\<lambda>item. oi_unit_price item * oi_quantity item) items)"

lemma exact_total_bound:
  assumes "\<forall>item \<in> set items. 0 \<le> oi_unit_price item * oi_quantity item \<and> oi_unit_price item * oi_quantity item \<le> b"
  shows "0 \<le> exact_total items \<and> exact_total items \<le> int (length items) * b"
  using assms by (induction items) (auto simp: exact_total_def algebra_simps)

lemma fold_total:
  assumes "0 \<le> a" and "\<forall>item \<in> set items. 0 \<le> oi_unit_price item * oi_quantity item"
    and "a + exact_total items \<le> 2 ^ 53"
  shows "foldl (\<lambda>sum item. num_add sum (num_mul (of_int (oi_unit_price item)) (of_int (oi_quantity item))))
    (of_int a) items = of_int (a + exact_total items)"
  using assms
proof (induction items arbitrary: a)
  case (Cons item items)
  let ?q = "oi_unit_price item * oi_quantity item"
  have rest: "0 \<le> exact_total items" and sum: "exact_total (item # items) = ?q + exact_total items"
    using Cons.prems(2) exact_total_bound [of items] by (auto simp: exact_total_def intro!: sum_list_nonneg)
  have "num_mul (of_int (oi_unit_price item)) (of_int (oi_quantity item)) = (of_int ?q :: rat)"
    using Cons.prems rest sum double_int [of ?q] by (simp add: num_mul_def)
  moreover have "num_add (of_int a) (of_int ?q) = of_int (a + ?q)"
    using Cons.prems rest sum double_int [of "a + ?q"] by (simp add: num_add_def)
  ultimately show ?case
    using Cons.IH [of "a + ?q"] Cons.prems sum by (simp add: algebra_simps)
qed (simp add: exact_total_def)

lemma total_amount_exact:
  assumes "\<forall>item \<in> set items. 0 \<le> oi_unit_price item * oi_quantity item" and "exact_total items \<le> 2 ^ 53"
  shows "total_amount items = exact_total items"
  using fold_total [of 0 items] assms by (simp add: total_amount_def)

section \<open>The fingerprint determines the request\<close>

text \<open>Reading back one character of a JSON string.\<close>

definition unhex :: "char \<Rightarrow> nat" where
  "unhex h = (if of_char h < (58 :: nat) then of_char h - 48 else of_char h - 87)"

definition json_unescape :: "char \<Rightarrow> char" where
  "json_unescape e =
     (if e = CHR ''b'' then CHR 0x08 else if e = CHR ''t'' then CHR 0x09 else if e = CHR ''n'' then CHR 0x0A
      else if e = CHR ''f'' then CHR 0x0C else if e = CHR ''r'' then CHR 0x0D else e)"

fun read_char :: "string \<Rightarrow> (char \<times> string) option" where
  "read_char [] = None"
| "read_char (c # rest) =
     (if c \<noteq> CHR 0x5C then Some (c, rest)
      else case rest of
             [] \<Rightarrow> None
           | e # rest' \<Rightarrow>
               if e = CHR ''u''
               then (case rest' of _ # _ # h # l # tail \<Rightarrow> Some (char_of (unhex h * 16 + unhex l), tail) | _ \<Rightarrow> None)
               else Some (json_unescape e, rest'))"

lemma unhex_json_hex [simp]: "n < 16 \<Longrightarrow> unhex (json_hex n) = n"
  by (simp add: unhex_def json_hex_def of_char_of)

lemma special_chars:
  "char_of (8 :: nat) = CHR 0x08" "char_of (9 :: nat) = CHR 0x09" "char_of (10 :: nat) = CHR 0x0A"
  "char_of (12 :: nat) = CHR 0x0C" "char_of (13 :: nat) = CHR 0x0D" "char_of (34 :: nat) = CHR 0x22"
  "char_of (92 :: nat) = CHR 0x5C"
  by (simp_all add: char_of_def bit_0)

lemma read_json_char: "read_char (json_char c @ rest) = Some (c, rest)"
proof -
  define n :: nat where "n = of_char c"
  then have c: "c = char_of n" by simp
  consider "n \<in> {8, 9, 10, 12, 13, 34, 92}" | "n \<notin> {8, 9, 10, 12, 13, 34, 92}" "n < 32"
    | "n \<notin> {8, 9, 10, 12, 13, 34, 92}" "\<not> n < 32"
    by blast
  then show ?thesis
  proof cases
    case 1
    then show ?thesis
      unfolding c by (auto simp: json_char_def Let_def json_unescape_def special_chars)
  next
    case 2
    then have "json_char c =
        [CHR 0x5C, CHR ''u'', CHR ''0'', CHR ''0'', json_hex (n div 16), json_hex (n mod 16)]"
      by (simp add: json_char_def Let_def flip: n_def)
    moreover have "n div 16 < 16" using 2(2) by simp
    ultimately show ?thesis by (simp add: c)
  next
    case 3
    then have "c \<noteq> CHR 0x5C" by (auto simp: n_def)
    with 3 show ?thesis by (simp add: json_char_def Let_def flip: n_def)
  qed
qed

lemma json_char_no_quote: "json_char c @ x \<noteq> CHR 0x22 # y"
  by (auto simp: json_char_def Let_def split: if_splits)

lemma json_chars_cancel:
  "concat (map json_char a) @ CHR 0x22 # x = concat (map json_char b) @ CHR 0x22 # y \<Longrightarrow> a = b \<and> x = y"
proof (induction a arbitrary: b)
  case Nil
  then show ?case using json_char_no_quote by (cases b) (simp_all, metis)
next
  case (Cons c a)
  show ?case
  proof (cases b)
    case Nil
    with Cons.prems json_char_no_quote show ?thesis by simp
  next
    case b: (Cons d b')
    with Cons.prems
    have "json_char c @ concat (map json_char a) @ CHR 0x22 # x = json_char d @ concat (map json_char b') @ CHR 0x22 # y"
      by simp
    then have "c = d" and "concat (map json_char a) @ CHR 0x22 # x = concat (map json_char b') @ CHR 0x22 # y"
      by (metis read_json_char option.inject prod.inject)+
    with Cons.IH b show ?thesis by blast
  qed
qed

lemma json_string_cancel: "json_string a @ x = json_string b @ y \<Longrightarrow> a = b \<and> x = y"
  by (rule json_chars_cancel) (simp add: json_string_def)

lemma show_nat_cancel:
  assumes "show_nat m @ c # x = show_nat n @ d # y" and "\<not> is_digit c" and "\<not> is_digit d"
  shows "m = n \<and> c # x = d # y"
proof -
  have digits: "takeWhile is_digit (show_nat k @ e # z) = show_nat k" if "\<not> is_digit e" for k e z
    using show_nat_digits [of k] that by (simp add: takeWhile_append2 list_all_iff)
  have "show_nat m = show_nat n"
    using digits [OF assms(2), of m x] digits [OF assms(3), of n y] assms(1) by simp
  then show ?thesis using assms(1) by (metis read_show_nat same_append_eq)
qed

lemma json_item_cancel:
  assumes eq: "json_item a @ x = json_item b @ y" and "0 \<le> it_quantity a" and "0 \<le> it_quantity b"
  shows "a = b \<and> x = y"
proof -
  let ?q = "'','' @ json_string ''quantity'' @ '':''"
  have "json_string (it_product a) @ ?q @ show_int (it_quantity a) @ CHR ''}'' # x =
    json_string (it_product b) @ ?q @ show_int (it_quantity b) @ CHR ''}'' # y"
    using eq by (simp add: json_item_def)
  from json_string_cancel [OF this]
  have p: "it_product a = it_product b"
    and q: "show_nat (nat (it_quantity a)) @ CHR ''}'' # x = show_nat (nat (it_quantity b)) @ CHR ''}'' # y"
    using assms(2,3) by (simp_all add: show_int_def)
  from show_nat_cancel [OF q] assms(2,3) p show ?thesis
    by (simp add: is_digit_def item_dto.equality eq_nat_nat_iff)
qed

lemma json_items_unfold:
  "join '','' (map json_item (item # items)) @ '']}'' =
    json_item item @ (if items = [] then '']}'' else CHR '','' # join '','' (map json_item items) @ '']}'')"
  by (cases items) simp_all

lemma json_items_cancel:
  assumes "join '','' (map json_item as) @ '']}'' = join '','' (map json_item bs) @ '']}''"
    and "\<forall>i \<in> set as. 0 \<le> it_quantity i" and "\<forall>i \<in> set bs. 0 \<le> it_quantity i"
  shows "as = bs"
  using assms
proof (induction as arbitrary: bs)
  case Nil
  have "bs = []"
  proof (rule ccontr)
    assume "bs \<noteq> []"
    then obtain b bs' where "bs = b # bs'" by (cases bs) simp_all
    with Nil.prems(1)
    have "json_item b @ (if bs' = [] then '']}'' else CHR '','' # join '','' (map json_item bs') @ '']}'') = '']}''"
      using json_items_unfold [of b bs'] by simp
    then show False by (simp add: json_item_def)
  qed
  then show ?case ..
next
  case (Cons a as)
  show ?case
  proof (cases bs)
    case Nil
    with Cons.prems(1) have "json_item a @ (if as = [] then '']}'' else CHR '','' # join '','' (map json_item as) @ '']}'') = '']}''"
      unfolding json_items_unfold by simp
    then show ?thesis by (simp add: json_item_def)
  next
    case bs: (Cons b bs')
    have "0 \<le> it_quantity a" "0 \<le> it_quantity b" using Cons.prems(2,3) bs by simp_all
    from json_item_cancel [OF Cons.prems(1) [unfolded bs, unfolded json_items_unfold] this]
    have "a = b" and rest: "(if as = [] then '']}'' else CHR '','' # join '','' (map json_item as) @ '']}'') =
      (if bs' = [] then '']}'' else CHR '','' # join '','' (map json_item bs') @ '']}'')"
      by simp_all
    from rest have "join '','' (map json_item as) @ '']}'' = join '','' (map json_item bs') @ '']}''"
      by (auto split: if_splits)
    from Cons.IH [OF this] Cons.prems(2,3) bs \<open>a = b\<close> show ?thesis by simp
  qed
qed

lemma lower_inj: "lower c = lower d \<Longrightarrow> (lower c \<noteq> c) = (lower d \<noteq> d) \<Longrightarrow> c = d"
  by (auto simp: lower_def Let_def split: if_splits)

lemma collation_inj: "collation v = collation w \<Longrightarrow> v = w"
proof (induction v arbitrary: w)
  case Nil
  then show ?case by (simp add: collation_def)
next
  case (Cons c v)
  then obtain d w' where w: "w = d # w'" by (cases w) (simp_all add: collation_def)
  with Cons.prems have "c = d" by (auto simp: collation_def intro: lower_inj)
  with Cons w show ?case by (simp add: collation_def)
qed

lemma canonical_items_iff:
  assumes "unique_product_ids (co_items a)"
  shows "canonical_items a = canonical_items b \<longleftrightarrow> mset (co_items a) = mset (co_items b)"
proof
  assume "canonical_items a = canonical_items b"
  then have "mset (canonical_items a) = mset (canonical_items b)" by simp
  then show "mset (co_items a) = mset (co_items b)" by (simp add: canonical_items_def)
next
  assume ms: "mset (co_items a) = mset (co_items b)"
  have "distinct (map it_product (co_items a))"
    using assms unfolding unique_product_ids_def by (metis length_remdups_eq remdups_id_iff_distinct)
  then have "inj_on (\<lambda>item. collation (it_product item)) (set (co_items a))"
    by (auto simp: distinct_map inj_on_def dest: collation_inj)
  with ms show "canonical_items a = canonical_items b"
    unfolding canonical_items_def by (intro sort_key_inj_key_eq) simp_all
qed

lemma canonical_cancel:
  assumes eq: "canonical a = canonical b"
    and "\<forall>i \<in> set (co_items a). 0 \<le> it_quantity i" and "\<forall>i \<in> set (co_items b). 0 \<le> it_quantity i"
  shows "co_customer a = co_customer b \<and> trim (co_address a) = trim (co_address b)
    \<and> canonical_items a = canonical_items b"
proof -
  let ?ad = "'','' @ json_string ''shippingAddress'' @ '':''" and ?it = "'','' @ json_string ''items'' @ '':[''"
  let ?rest = "\<lambda>d. join '','' (map json_item (canonical_items d)) @ '']}''"
  have "json_string (co_customer a) @ ?ad @ json_string (trim (co_address a)) @ ?it @ ?rest a =
    json_string (co_customer b) @ ?ad @ json_string (trim (co_address b)) @ ?it @ ?rest b"
    using eq by (simp add: canonical_def)
  from json_string_cancel [OF this]
  have "co_customer a = co_customer b"
    and addr: "json_string (trim (co_address a)) @ ?it @ ?rest a = json_string (trim (co_address b)) @ ?it @ ?rest b"
    by simp_all
  moreover from json_string_cancel [OF addr]
  have "trim (co_address a) = trim (co_address b)" and items: "?rest a = ?rest b" by simp_all
  moreover from json_items_cancel [OF items] assms(2,3)
  have "canonical_items a = canonical_items b" by (simp add: canonical_items_def)
  ultimately show ?thesis by simp
qed

lemma canonical_iff:
  assumes "CreateOrderDto_valid a" and "CreateOrderDto_valid b"
  shows "canonical a = canonical b \<longleftrightarrow>
    co_customer a = co_customer b \<and> trim (co_address a) = trim (co_address b)
    \<and> mset (co_items a) = mset (co_items b)"
proof -
  have "\<forall>i \<in> set (co_items d). 0 \<le> it_quantity i" if "CreateOrderDto_valid d" for d
    using that by (auto simp: CreateOrderDto_valid_def ItemDto_valid_def list_all_iff)
  note quantities = this [OF assms(1)] this [OF assms(2)]
  have items: "canonical_items a = canonical_items b \<longleftrightarrow> mset (co_items a) = mset (co_items b)"
    using assms(1) by (intro canonical_items_iff) (simp add: CreateOrderDto_valid_def)
  show ?thesis
  proof
    assume "canonical a = canonical b"
    from canonical_cancel [OF this quantities] items
    show "co_customer a = co_customer b \<and> trim (co_address a) = trim (co_address b)
      \<and> mset (co_items a) = mset (co_items b)" by simp
  next
    assume same: "co_customer a = co_customer b \<and> trim (co_address a) = trim (co_address b)
      \<and> mset (co_items a) = mset (co_items b)"
    with items have "canonical_items a = canonical_items b" by simp
    with same show "canonical a = canonical b" by (simp only: canonical_def)
  qed
qed

end
