(* ===== verification/Outbox.thy ===== *)
theory Outbox
  imports Invariants
begin

text \<open>
  The transactional outbox: its repository \<open>orders/outbox/outbox.repository.ts\<close> and the relay
  \<open>orders/outbox/outbox-relay.service.ts\<close> that moves committed events to the job queue. The
  queue (BullMQ) is a parameter: \<open>enqueue\<close> is what an accepted \<open>add\<close> does to its jobs. The
  relay's \<open>running\<close> flag is per instance; \<open>relays_running\<close> lists the instances that have
  it set.
\<close>

section \<open>The repository\<close>

definition created_event :: "object_id \<Rightarrow> object_id \<Rightarrow> date \<Rightarrow> outbox_event" where
  "created_event eventId orderId ts =
     \<lparr>e_id = eventId, e_type = ORDER_CREATED_EVENT, e_aggregate = orderId, e_payload_order = orderId,
      e_status = NEW, e_attempts = 0, e_next_retry = ts, e_claimed = None, e_dispatched = None,
      e_error = None\<rparr>"

text \<open>The insertion, under the \<open>_id\<close> index and the \<open>(aggregateId, eventType)\<close> index.\<close>

definition createOrderCreatedEvent :: "object_id \<Rightarrow> world \<Rightarrow> exn + outbox_event list" where
  "createOrderCreatedEvent orderId s =
     (let event = created_event (fresh_id s) orderId (now s)
      in if lookup e_id (outbox s) (e_id event) \<noteq> None then Inl (duplicate_key [''_id''])
         else case insert_unique event_key event (outbox s) of
                None \<Rightarrow> Inl (duplicate_key [''aggregateId'', ''eventType''])
              | Some events \<Rightarrow> Inr events)"

definition claimable_event :: "int \<Rightarrow> date \<Rightarrow> outbox_event \<Rightarrow> bool" where
  "claimable_event claimTimeoutMs ts e \<longleftrightarrow>
     e_status e = NEW \<and> e_next_retry e \<le> ts
     \<and> (case e_claimed e of None \<Rightarrow> True | Some claimed \<Rightarrow> claimed \<le> ts - claimTimeoutMs)"

definition claim_event :: "date \<Rightarrow> outbox_event \<Rightarrow> outbox_event" where
  "claim_event ts e = e\<lparr>e_claimed := Some ts, e_attempts := e_attempts e + 1\<rparr>"

definition claim_next_op :: "int \<Rightarrow> date \<Rightarrow> world \<Rightarrow> (exn + outbox_event option) \<times> world" where
  "claim_next_op claimTimeoutMs ts s =
     (case claim_row e_next_retry e_id (claimable_event claimTimeoutMs ts) (claim_event ts) (outbox s) of
        (claimed, events) \<Rightarrow> (Inr claimed, s\<lparr>outbox := events\<rparr>))"

definition claimNext :: "int \<Rightarrow> outbox_event option io" where
  "claimNext claimTimeoutMs = await (sample now) (\<lambda>ts. db (claim_next_op claimTimeoutMs ts))"

definition update_event :: "(outbox_event \<Rightarrow> bool) \<Rightarrow> (outbox_event \<Rightarrow> outbox_event) \<Rightarrow> unit io" where
  "update_event matches update = db (\<lambda>s. (Inr (), s\<lparr>outbox := update_one matches update (outbox s)\<rparr>))"

definition markDispatched :: "object_id \<Rightarrow> unit io" where
  "markDispatched eventId =
     await (sample now) (\<lambda>ts.
     update_event (\<lambda>e. e_id e = eventId) (\<lambda>e. e\<lparr>e_status := DISPATCHED, e_dispatched := Some ts\<rparr>))"

definition markRetry :: "object_id \<Rightarrow> string \<Rightarrow> int \<Rightarrow> unit io" where
  "markRetry eventId error backoffMs =
     await (sample now) (\<lambda>ts.
     update_event (\<lambda>e. e_id e = eventId)
       (\<lambda>e. e\<lparr>e_status := NEW, e_error := Some error, e_next_retry := ts + backoffMs, e_claimed := None\<rparr>))"

definition markDead :: "object_id \<Rightarrow> string \<Rightarrow> unit io" where
  "markDead eventId error =
     update_event (\<lambda>e. e_id e = eventId)
       (\<lambda>e. e\<lparr>e_status := OUTBOX_FAILED, e_error := Some error, e_claimed := None\<rparr>)"

definition requeueForAggregate :: "object_id \<Rightarrow> unit io" where
  "requeueForAggregate aggregateId =
     await (sample now) (\<lambda>ts.
     update_event (\<lambda>e. e_aggregate e = aggregateId \<and> e_type e = ORDER_CREATED_EVENT)
       (\<lambda>e. e\<lparr>e_status := NEW, e_next_retry := ts, e_claimed := None\<rparr>))"

section \<open>The relay\<close>

record outbox_api =
  outbox_claimNext :: "int \<Rightarrow> outbox_event option io"
  outbox_markDispatched :: "object_id \<Rightarrow> unit io"
  outbox_markRetry :: "object_id \<Rightarrow> string \<Rightarrow> int \<Rightarrow> unit io"
  outbox_markDead :: "object_id \<Rightarrow> string \<Rightarrow> unit io"

definition queue_add :: "(job \<Rightarrow> job list \<Rightarrow> job list) \<Rightarrow> job \<Rightarrow> unit io" where
  "queue_add enqueue j = over queue_link (\<lambda>s. (Inr (), s\<lparr>jobs := enqueue j (jobs s)\<rparr>))"

definition saga_job :: "queue_config \<Rightarrow> object_id \<Rightarrow> string \<Rightarrow> job" where
  "saga_job queueSettings eventId orderId =
     \<lparr>j_id = orderId, j_order = orderId, j_outbox = eventId,
      j_attempts = queue_attempts queueSettings, j_backoff = queue_backoff queueSettings\<rparr>"

definition dispatch_failed :: "outbox_api \<Rightarrow> orders_config \<Rightarrow> queue_config \<Rightarrow> object_id \<Rightarrow> int \<Rightarrow> exn \<Rightarrow> bool io" where
  "dispatch_failed events config queueSettings eventId attempts error =
     (let message = getErrorMessage error
      in if outbox_max_attempts config \<le> attempts
         then await (outbox_markDead events eventId message) (\<lambda>_. Return False)
         else (let backoff = queue_backoff queueSettings * 2 ^ nat (max 0 (attempts - 1))
               in await (outbox_markRetry events eventId message backoff) (\<lambda>_. Return False)))"

definition dispatch :: "outbox_api \<Rightarrow> (job \<Rightarrow> job list \<Rightarrow> job list) \<Rightarrow> orders_config \<Rightarrow> queue_config \<Rightarrow>
    object_id \<Rightarrow> string \<Rightarrow> int \<Rightarrow> bool io" where
  "dispatch events enqueue config queueSettings eventId orderId attempts =
     catching
       (await (queue_add enqueue (saga_job queueSettings eventId orderId)) (\<lambda>_.
        await (outbox_markDispatched events eventId) (\<lambda>_.
        Return True)))
       (dispatch_failed events config queueSettings eventId attempts)"

text \<open>
  The polling loop. An exception ends the pass: it is logged, and the number of events
  dispatched so far is the answer.
\<close>

primrec relay_batch :: "outbox_api \<Rightarrow> (job \<Rightarrow> job list \<Rightarrow> job list) \<Rightarrow> orders_config \<Rightarrow> queue_config \<Rightarrow>
    nat \<Rightarrow> nat \<Rightarrow> nat io" where
  "relay_batch events enqueue config queueSettings 0 dispatched = Return dispatched"
| "relay_batch events enqueue config queueSettings (Suc i) dispatched =
     await (attempt (outbox_claimNext events (outbox_claim_timeout config))) (\<lambda>claimed.
       case claimed of
         Inl e \<Rightarrow> Return dispatched
       | Inr None \<Rightarrow> Return dispatched
       | Inr (Some event) \<Rightarrow>
           await (attempt (dispatch events enqueue config queueSettings
                             (e_id event) (e_aggregate event) (e_attempts event))) (\<lambda>sent.
             case sent of
               Inl e \<Rightarrow> Return dispatched
             | Inr True \<Rightarrow> relay_batch events enqueue config queueSettings i (dispatched + 1)
             | Inr False \<Rightarrow> relay_batch events enqueue config queueSettings i dispatched))"

text \<open>\<open>tick\<close> of one instance: the flag is tested and set in one turn of the event loop.\<close>

definition enter_pass :: "nat \<Rightarrow> bool io" where
  "enter_pass instance_id = Atom (\<lambda>s.
     if instance_id \<in> set (relays_running s) then (s, Return False)
     else (s\<lparr>relays_running := instance_id # relays_running s\<rparr>, Return True))"

definition leave_pass :: "nat \<Rightarrow> unit io" where
  "leave_pass instance_id = Atom (\<lambda>s.
     (s\<lparr>relays_running := removeAll instance_id (relays_running s)\<rparr>, Return ()))"

definition tick :: "outbox_api \<Rightarrow> (job \<Rightarrow> job list \<Rightarrow> job list) \<Rightarrow> orders_config \<Rightarrow> queue_config \<Rightarrow> nat \<Rightarrow> nat io" where
  "tick events enqueue config queueSettings instance_id =
     await (enter_pass instance_id) (\<lambda>entered.
       if \<not> entered then Return 0
       else await (relay_batch events enqueue config queueSettings (outbox_batch_size config) 0) (\<lambda>dispatched.
            await (leave_pass instance_id) (\<lambda>_.
            Return dispatched)))"

definition outbox_impl :: outbox_api where
  "outbox_impl = \<lparr>outbox_claimNext = claimNext, outbox_markDispatched = markDispatched,
     outbox_markRetry = markRetry, outbox_markDead = markDead\<rparr>"

text \<open>The relay of an instance on the program's own repository.\<close>

definition relay :: "(job \<Rightarrow> job list \<Rightarrow> job list) \<Rightarrow> orders_config \<Rightarrow> queue_config \<Rightarrow> nat \<Rightarrow> nat io" where
  "relay enqueue config queueSettings instance_id = tick outbox_impl enqueue config queueSettings instance_id"

section \<open>Claims\<close>

interpretation relay_lease: claim_lease e_id "claimable_event claimTimeoutMs" claim_event claimTimeoutMs
  by unfold_locales (simp_all add: claimable_event_def claim_event_def)

section \<open>Safety of the relay\<close>

text \<open>
  Updates of events that keep their keys, and changes of the queue and the flags, do not
  touch what the invariant and the evolution speak of.
\<close>

lemma events_step:
  assumes inv: "consistent s" and keys: "map event_key events = map event_key (outbox s)"
    and ids: "map e_id events = map e_id (outbox s)"
  shows "acts s (s\<lparr>outbox := events\<rparr>) \<and> consistent (s\<lparr>outbox := events\<rparr>)"
proof -
  let ?u = "s\<lparr>outbox := events\<rparr>"
  have same [simp]: "order_of ?u = order_of s" "movement_of ?u = movement_of s" "charge_of ?u = charge_of s"
    "stock_of ?u = stock_of s"
    by (simp_all add: order_of_def movement_of_def [abs_def] charge_of_def stock_of_def [abs_def])
  have "indexed ?u" using inv by (simp add: consistent_def indexed_def keys ids)
  moreover have "stock_ok ?u" using inv by (simp add: consistent_def stock_ok_def)
  moreover have "announced ?u" using inv lookup_keys [OF keys] by (simp add: consistent_def announced_def)
  moreover have "evolves s ?u" by (auto simp: evolves_def)
  ultimately show ?thesis using inv by (simp add: consistent_def conserves_def acts_def balance_def saga_view_def)
qed

lemma unseen_step:
  assumes "orders u = orders s" "movements u = movements s" "charges u = charges s" "stock u = stock s"
    "outbox u = outbox s"
  shows "consistent u = consistent s" and "acts s u"
proof -
  have same: "order_of u = order_of s" "movement_of u = movement_of s" "charge_of u = charge_of s"
    "stock_of u = stock_of s"
    by (simp_all add: assms order_of_def movement_of_def [abs_def] charge_of_def stock_of_def [abs_def])
  show "consistent u = consistent s"
    by (simp add: consistent_def indexed_def stock_ok_def announced_def same assms)
  show "acts s u"
    by (simp add: conserves_def acts_def evolves_def balance_def saga_view_def same assms)
qed

lemma safe_update_event:
  assumes "\<And>e. e_id (f e) = e_id e" and "\<And>e. event_key (f e) = event_key e"
  shows "safely (\<lambda>_ _. True) no_fuel (update_event P f) s"
  unfolding update_event_def
proof (rule safe_dbI)
  fix t r u
  assume "consistent t" and "(Inr (), t\<lparr>outbox := update_one P f (outbox t)\<rparr>) = (r, u)"
  then show "acts t u \<and> consistent u"
    using events_step [OF _ map_update_one map_update_one] assms by auto
qed simp_all

text \<open>
  The repository as the relay sees it: a claim hands out an event of the collection, and
  nothing the relay does to an event disturbs an order, a ledger or the stock.
\<close>

locale event_store =
  fixes events :: outbox_api
  assumes claim_next_safe:
      "\<lbrakk>consistent s;
        \<And>t e. \<lbrakk>evolves s t; consistent t; e \<in> set (outbox t)\<rbrakk> \<Longrightarrow> Q (Some e) t;
        \<And>t. \<lbrakk>evolves s t; consistent t\<rbrakk> \<Longrightarrow> Q None t;
        \<And>t e. \<lbrakk>evolves s t; consistent t; e \<noteq> OutOfFuel\<rbrakk> \<Longrightarrow> E e t\<rbrakk> \<Longrightarrow>
       safely Q E (outbox_claimNext events claimTimeoutMs) s"
    and mark_dispatched_safe: "consistent s \<Longrightarrow> safely (\<lambda>_ _. True) no_fuel (outbox_markDispatched events eventId) s"
    and mark_retry_safe: "consistent s \<Longrightarrow> safely (\<lambda>_ _. True) no_fuel (outbox_markRetry events eventId msg backoff) s"
    and mark_dead_safe: "consistent s \<Longrightarrow> safely (\<lambda>_ _. True) no_fuel (outbox_markDead events eventId msg) s"
begin

lemma dispatch_safe:
  assumes "consistent s"
  shows "safely (\<lambda>_ _. True) no_fuel (dispatch events enqueue config queueSettings eventId orderId attempts) s"
  unfolding dispatch_def
proof (rule rg.safe_handled [where F = no_fuel, OF _ assms])
  show "safely (\<lambda>_ _. True) no_fuel
      (await (queue_add enqueue (saga_job queueSettings eventId orderId)) (\<lambda>_.
       await (outbox_markDispatched events eventId) (\<lambda>_. Return True))) s"
    unfolding queue_add_def
  proof (rule safe_await, rule safe_over)
    fix t u and r :: "exn + unit"
    assume I: "consistent t" and u: "(Inr (), t\<lparr>jobs := enqueue (saga_job queueSettings eventId orderId) (jobs t)\<rparr>) = (r, u)"
    then have "acts t u \<and> consistent u"
      using unseen_step [of u t] by auto
    moreover have "safely (\<lambda>_ _. True) no_fuel (await (outbox_markDispatched events eventId) (\<lambda>_. Return True)) u"
      if "consistent u"
      by (rule rg.safe_then [OF mark_dispatched_safe [OF that] that]) simp
    ultimately show "acts t u \<and> consistent u \<and> (evolves s u \<longrightarrow> (case r of Inl e \<Rightarrow> no_fuel e u
        | Inr a \<Rightarrow> safely (\<lambda>_ _. True) no_fuel (await (outbox_markDispatched events eventId) (\<lambda>_. Return True)) u))"
      using u by auto
  qed simp
next
  fix e u
  assume "consistent u"
  then show "safely (\<lambda>_ _. True) no_fuel (dispatch_failed events config queueSettings eventId attempts e) u"
    unfolding dispatch_failed_def Let_def
    by (auto intro: rg.safe_then [OF mark_dead_safe] rg.safe_then [OF mark_retry_safe])
qed

lemma relay_batch_safe:
  assumes "consistent s"
  shows "safely (\<lambda>_ _. True) no_fuel (relay_batch events enqueue config queueSettings i dispatched) s"
  using assms
proof (induction i arbitrary: s dispatched)
  case (Suc i)
  have sent: "safely (\<lambda>_ _. True) no_fuel
      (await (attempt (dispatch events enqueue config queueSettings eventId orderId attempts)) (\<lambda>sent.
         case sent of
           Inl e \<Rightarrow> Return dispatched
         | Inr True \<Rightarrow> relay_batch events enqueue config queueSettings i (dispatched + 1)
         | Inr False \<Rightarrow> relay_batch events enqueue config queueSettings i dispatched)) t"
    if "consistent t" for t eventId orderId attempts
  proof (rule rg.safe_then [OF safe_attempt that])
    show "safely (\<lambda>_ _. True) (\<lambda>_ _. True) (dispatch events enqueue config queueSettings eventId orderId attempts) t"
      by (rule safe_conseq [OF dispatch_safe [OF that]]) simp_all
  qed (auto intro: Suc.IH split: sum.split bool.split)
  show ?case
    unfolding relay_batch.simps
    by (rule safe_await, rule safe_attempt, rule claim_next_safe [OF Suc.prems];
        unfold sum.case option.case) (rule sent, simp_all)
qed simp

lemma tick_safe:
  assumes "consistent s"
  shows "safely (\<lambda>_ _. True) no_fuel (tick events enqueue config queueSettings instance_id) s"
proof -
  have flag: "acts t (t\<lparr>relays_running := xs\<rparr>) \<and> consistent (t\<lparr>relays_running := xs\<rparr>)"
    if "consistent t" for t xs
    using that unseen_step [of "t\<lparr>relays_running := xs\<rparr>" t] by simp
  have leave: "safely (\<lambda>_ _. True) no_fuel (await (leave_pass instance_id) (\<lambda>_. Return n)) t" for n :: nat and t
    unfolding leave_pass_def by (rule safe_await, rule safe_AtomI) (auto dest: flag)
  show ?thesis
    unfolding tick_def enter_pass_def
    by (rule safe_await, rule safe_AtomI)
      (auto dest: flag intro!: rg.safe_then [OF relay_batch_safe] leave split: if_splits)
qed

end

interpretation events: event_store outbox_impl
proof
  fix s claimTimeoutMs and Q :: "outbox_event option \<Rightarrow> world \<Rightarrow> bool" and E
  assume Q: "\<And>t e. \<lbrakk>evolves s t; consistent t; e \<in> set (outbox t)\<rbrakk> \<Longrightarrow> Q (Some e) t"
    and none: "\<And>t. \<lbrakk>evolves s t; consistent t\<rbrakk> \<Longrightarrow> Q None t"
    and E: "\<And>t e. \<lbrakk>evolves s t; consistent t; e \<noteq> OutOfFuel\<rbrakk> \<Longrightarrow> E e t"
  have key: "event_key (claim_event ts e) = event_key e" "e_id (claim_event ts e) = e_id e" for ts e
    by (simp_all add: event_key_def claim_event_def)
  have step: "acts t u \<and> consistent u \<and> (r = Inr None \<or> (\<exists>e. r = Inr (Some e) \<and> e \<in> set (outbox u)))"
    if I: "consistent t" and op: "claim_next_op claimTimeoutMs ts t = (r, u)" for t u r ts
  proof (cases "claim_row e_next_retry e_id (claimable_event claimTimeoutMs ts) (claim_event ts) (outbox t)")
    case (Pair claimed rows)
    with op have r: "r = Inr claimed" and u: "u = t\<lparr>outbox := rows\<rparr>" by (simp_all add: claim_next_op_def)
    show ?thesis
    proof (cases claimed)
      case None
      with Pair I show ?thesis by (auto simp: r u dest: claim_row_None)
    next
      case (Some e)
      obtain d where d: "d \<in> set (outbox t)" and e: "e = claim_event ts d"
        and rows: "rows = update_one (\<lambda>x. e_id x = e_id d) (claim_event ts) (outbox t)"
        by (rule claim_row_Some [OF Pair [unfolded Some]]) auto
      have "distinct (map e_id (outbox t))" using I by (simp add: consistent_def indexed_def)
      with d have "claim_event ts d \<in> set (update_one (\<lambda>x. e_id x = e_id d) (claim_event ts) (outbox t))"
        by (intro update_one_in_set)
      with events_step [OF I, of rows] show ?thesis
        by (simp add: r u Some e rows map_update_one key)
    qed
  qed
  have "safely Q E (db (claim_next_op claimTimeoutMs ts)) t" if st: "evolves s t" for t ts
  proof (rule safe_dbI)
    fix t' r u
    assume "consistent t'" and "claim_next_op claimTimeoutMs ts t' = (r, u)"
    from step [OF this] show "acts t' u \<and> consistent u" by simp
  next
    fix t' a u
    assume "consistent t'" and "claim_next_op claimTimeoutMs ts t' = (Inr a, u)" and "evolves t u" and I: "consistent u"
    with step [OF this(1,2)] evolves_trans [OF st] show "Q a u" by (auto intro: Q none)
  qed (auto simp: claim_next_op_def E evolves_trans [OF st] split: prod.splits)
  then show "safely Q E (outbox_claimNext outbox_impl claimTimeoutMs) s"
    unfolding outbox_impl_def outbox_api.simps claimNext_def by (intro safe_await safe_sample)
qed (auto simp: outbox_impl_def markDispatched_def markRetry_def markDead_def event_key_def
    intro!: safe_await safe_sample safe_update_event)

lemma safe_relay: "consistent s \<Longrightarrow> safely (\<lambda>_ _. True) no_fuel (relay enqueue config queueSettings instance_id) s"
  unfolding relay_def by (rule events.tick_safe)

lemma safe_requeue: "safely (\<lambda>_ _. True) no_fuel (requeueForAggregate aggregateId) s"
  unfolding requeueForAggregate_def by (intro safe_await safe_sample safe_update_event) (simp_all add: event_key_def)

end
