(* ===== verification/Orders_Service.thy ===== *)
theory Orders_Service
  imports Requests Orders_Repository Outbox Directories
begin

text \<open>
  Accepting and reading orders: \<open>orders/orders.service.ts\<close> and the routes of
  \<open>orders/orders.controller.ts\<close>. The write is one transaction, so one atomic operation:
  the order under its two unique indexes and the event that announces it.
\<close>

section \<open>The service\<close>

definition resolveReplay :: "order \<Rightarrow> string \<Rightarrow> order_response io" where
  "resolveReplay ord fingerprint =
     (if o_fingerprint ord \<noteq> fingerprint then Throw (IdempotencyKeyReuseError (o_id ord))
      else Return (OrderResponseDto_from ord))"

text \<open>The bounded wait for the request that won the key; the pauses between reads are time only.\<close>

primrec await_attempts :: "nat \<Rightarrow> string \<Rightarrow> string \<Rightarrow> order io" where
  "await_attempts 0 customerId idempotencyKey = Throw ConcurrentRequestError"
| "await_attempts (Suc left) customerId idempotencyKey =
     await (findByIdempotencyKey customerId idempotencyKey) (\<lambda>winner.
       case winner of
         Some ord \<Rightarrow> Return ord
       | None \<Rightarrow> await_attempts left customerId idempotencyKey)"

definition awaitWinner :: "string \<Rightarrow> string \<Rightarrow> order io" where
  "awaitWinner customerId idempotencyKey = await_attempts 5 customerId idempotencyKey"

definition loadProducts :: "create_order_dto \<Rightarrow> product list io" where
  "loadProducts dto =
     catching (getProductsById (map it_product (co_items dto)))
       (\<lambda>error. Throw (UnprocessableOrderError ''PRODUCT_NOT_FOUND'' (getErrorMessage error)))"

definition resolveCoordinates :: "string \<Rightarrow> coordinates io" where
  "resolveCoordinates address =
     catching (getCoordinates address)
       (\<lambda>_. Throw (UnprocessableOrderError ''ADDRESS_NOT_GEOCODABLE''
              (''Could not resolve coordinates for shipping address '' @ quoted address @ ''.'')))"

primrec price_items :: "item_dto list \<Rightarrow> product list \<Rightarrow> exn + order_item list" where
  "price_items [] found = Inr []"
| "price_items (item # items) found =
     (case find (\<lambda>p. pr_id p = it_product item) found of
        None \<Rightarrow> Inl (UnprocessableOrderError ''PRODUCT_NOT_FOUND''
                      (''Product '' @ it_product item @ '' not found.''))
      | Some p \<Rightarrow>
          (case price_items items found of
             Inl e \<Rightarrow> Inl e
           | Inr priced \<Rightarrow>
               Inr (\<lparr>oi_product = ObjectId (it_product item), oi_quantity = it_quantity item,
                     oi_unit_price = toMinorUnits (pr_price p)\<rparr> # priced)))"

definition priceOrder :: "create_order_dto \<Rightarrow> product list \<Rightarrow> exn + (order_item list \<times> int)" where
  "priceOrder dto found =
     (case price_items (co_items dto) found of
        Inl e \<Rightarrow> Inl e
      | Inr items \<Rightarrow> Inr (items, total_amount items))"

definition new_order :: "object_id \<Rightarrow> string \<Rightarrow> string \<Rightarrow> create_order_dto \<Rightarrow> coordinates \<Rightarrow>
    order_item list \<Rightarrow> int \<Rightarrow> date \<Rightarrow> order" where
  "new_order orderId idempotencyKey fingerprint dto coordinates items totalAmount ts =
     \<lparr>o_id = orderId, o_key = idempotencyKey, o_fingerprint = fingerprint,
      o_customer = ObjectId (co_customer dto), o_address = co_address dto, o_coordinates = coordinates,
      o_items = items, o_total = totalAmount, o_warehouse = None, o_status = PENDING, o_payment = None,
      o_error = None, o_failure = None, o_sweep_lease = None, o_sweep_attempts = 0,
      o_created = ts, o_updated = ts\<rparr>"

definition insert_order :: "order \<Rightarrow> order list \<Rightarrow> exn + order list" where
  "insert_order ord ords =
     (if lookup o_id ords (o_id ord) \<noteq> None then Inl (duplicate_key [''_id''])
      else case insert_unique order_key ord ords of
             None \<Rightarrow> Inl (duplicate_key [''customerId'', ''idempotencyKey''])
           | Some ords' \<Rightarrow> Inr ords')"

definition accept_tx :: "(date \<Rightarrow> order) \<Rightarrow> world \<Rightarrow> (exn + unit) \<times> world" where
  "accept_tx ord s =
     (case insert_order (ord (now s)) (orders s) of
        Inl e \<Rightarrow> (Inl e, s)
      | Inr ords \<Rightarrow>
          (case createOrderCreatedEvent (o_id (ord (now s))) s of
             Inl e \<Rightarrow> (Inl e, s)
           | Inr events \<Rightarrow> (Inr (), s\<lparr>orders := ords, outbox := events\<rparr>)))"

text \<open>From the transaction to the answer: the \<open>try\<close>, its \<open>catch\<close> and what follows.\<close>

definition commit_order :: "(date \<Rightarrow> order) \<Rightarrow> object_id \<Rightarrow> string \<Rightarrow> string \<Rightarrow> string \<Rightarrow> order_response io" where
  "commit_order ord orderId customerId idempotencyKey fingerprint =
     await (attempt (db (accept_tx ord))) (\<lambda>committed.
       case committed of
         Inl error \<Rightarrow>
           if \<not> isDuplicateKeyError error (Some ''idempotencyKey'') then Throw error
           else await (awaitWinner customerId idempotencyKey) (\<lambda>winner. resolveReplay winner fingerprint)
       | Inr _ \<Rightarrow>
           await (findById orderId) (\<lambda>created.
             case created of
               None \<Rightarrow> Throw (PlainError
                 (''Order '' @ orderId @ '' vanished immediately after being committed.''))
             | Some c \<Rightarrow> Return (OrderResponseDto_from c)))"

definition acceptOrder :: "(string \<Rightarrow> string) \<Rightarrow> create_order_dto \<Rightarrow> string \<Rightarrow> order_response io" where
  "acceptOrder sha256 dto idempotencyKey =
     (let fingerprint = fingerprintRequest sha256 dto in
      await (findByIdempotencyKey (co_customer dto) idempotencyKey) (\<lambda>existing.
      case existing of
        Some ord \<Rightarrow> resolveReplay ord fingerprint
      | None \<Rightarrow>
          await (getCustomerById (co_customer dto)) (\<lambda>customer.
          case customer of
            None \<Rightarrow> Throw (UnprocessableOrderError ''CUSTOMER_NOT_FOUND''
                            (''Customer '' @ co_customer dto @ '' not found.''))
          | Some _ \<Rightarrow>
              await (loadProducts dto) (\<lambda>found.
              await (resolveCoordinates (co_address dto)) (\<lambda>coordinates.
              case priceOrder dto found of
                Inl e \<Rightarrow> Throw e
              | Inr (items, totalAmount) \<Rightarrow>
                  await (sample fresh_id) (\<lambda>orderId.
                  commit_order (new_order orderId idempotencyKey fingerprint dto coordinates items totalAmount)
                    orderId (co_customer dto) idempotencyKey fingerprint))))))"

definition getOrder :: "object_id \<Rightarrow> order_response io" where
  "getOrder orderId =
     await (findById orderId) (\<lambda>found.
       case found of
         None \<Rightarrow> Throw (OrderNotFoundError orderId)
       | Some ord \<Rightarrow> Return (OrderResponseDto_from ord))"

record paginated_orders =
  po_items :: "order_response list"
  po_total :: nat
  po_page :: nat
  po_limit :: nat

definition listOrders :: "list_orders_filter \<Rightarrow> paginated_orders io" where
  "listOrders query =
     await (list_orders query) (\<lambda>(items, total).
     Return \<lparr>po_items = map OrderResponseDto_from items, po_total = total,
             po_page = lf_page query, po_limit = lf_limit query\<rparr>)"

section \<open>The routes\<close>

text \<open>The constraints of \<open>ListOrdersQueryDto\<close>.\<close>

definition ListOrdersQueryDto_valid :: "list_orders_filter \<Rightarrow> bool" where
  "ListOrdersQueryDto_valid query \<longleftrightarrow>
     (case lf_customer query of None \<Rightarrow> True | Some c \<Rightarrow> is_mongo_id c)
     \<and> 1 \<le> lf_page query \<and> 1 \<le> lf_limit query \<and> lf_limit query \<le> 100"

definition validation_failed :: exn where
  "validation_failed = BadRequestException (Some ''VALIDATION_ERROR'') []"

definition orders_create :: "(string \<Rightarrow> string) \<Rightarrow> string list \<Rightarrow> create_order_dto \<Rightarrow> order_response io" where
  "orders_create sha256 header dto =
     (case extractIdempotencyKey header of
        Inl e \<Rightarrow> Throw e
      | Inr idempotencyKey \<Rightarrow>
          if CreateOrderDto_valid dto then acceptOrder sha256 dto idempotencyKey else Throw validation_failed)"

definition orders_getOne :: "string \<Rightarrow> order_response io" where
  "orders_getOne v = await (path_id v) getOrder"

definition orders_list :: "list_orders_filter \<Rightarrow> paginated_orders io" where
  "orders_list query = (if ListOrdersQueryDto_valid query then listOrders query else Throw validation_failed)"

section \<open>Pricing\<close>

lemma price_items_shape:
  "price_items items found = Inr priced \<Longrightarrow>
     map oi_quantity priced = map it_quantity items
     \<and> map oi_product priced = map (\<lambda>i. ObjectId (it_product i)) items
     \<and> (\<forall>item \<in> set priced. \<exists>p \<in> set found. oi_unit_price item = toMinorUnits (pr_price p))"
proof (induction items arbitrary: priced)
  case (Cons item items)
  then obtain p rest where "find (\<lambda>p. pr_id p = it_product item) found = Some p"
    and "price_items items found = Inr rest"
    and "priced = \<lparr>oi_product = ObjectId (it_product item), oi_quantity = it_quantity item,
                     oi_unit_price = toMinorUnits (pr_price p)\<rparr> # rest"
    by (auto split: option.splits sum.splits)
  with Cons.IH [of rest] show ?case by (auto dest: find_Some_set)
qed simp

lemma priced_quantities:
  assumes "priceOrder dto found = Inr (items, amount)" and "CreateOrderDto_valid dto"
  shows "\<forall>i \<in> set items. 1 \<le> oi_quantity i \<and> oi_quantity i \<le> 1000" and "length items \<le> 100"
proof -
  from assms(1) have "map oi_quantity items = map it_quantity (co_items dto)"
    by (auto simp: priceOrder_def split: sum.splits dest: price_items_shape)
  then have "oi_quantity ` set items = it_quantity ` set (co_items dto)" and len: "length items = length (co_items dto)"
    by (metis list.set_map, metis length_map)
  then show "\<forall>i \<in> set items. 1 \<le> oi_quantity i \<and> oi_quantity i \<le> 1000"
    using assms(2) by (force simp: CreateOrderDto_valid_def ItemDto_valid_def list_all_iff)
  show "length items \<le> 100" using len assms(2) by (simp add: CreateOrderDto_valid_def)
qed

text \<open>Prices up to nine hundred million: a unit price in cents, and totals that lose nothing.\<close>

definition MAX_PRICE :: rat where
  "MAX_PRICE = 900000000"

lemma toMinorUnits_bound:
  assumes "0 \<le> p" and "p \<le> MAX_PRICE"
  shows "0 \<le> toMinorUnits p" and "toMinorUnits p \<le> 90000000000"
proof -
  have p: "0 \<le> p * 100" "p * 100 \<le> 90000000000" using assms by (simp_all add: MAX_PRICE_def)
  from double_error [OF p(1)]
  have d: "p * 100 - double (p * 100) \<le> p * 100 / 2 ^ 53" "double (p * 100) - p * 100 \<le> p * 100 / 2 ^ 53"
    by (simp_all only: abs_le_iff minus_diff_eq)
  have "- (1 / 2) \<le> double (p * 100)" "double (p * 100) < 90000000000 + 1 / 2"
    using d p by (simp_all add: field_simps)
  then show "0 \<le> toMinorUnits p" "toMinorUnits p \<le> 90000000000"
    by (simp_all add: toMinorUnits_def num_mul_def math_round_def le_floor_iff floor_le_iff)
qed

lemma priced_total_exact:
  assumes priced: "priceOrder dto found = Inr (items, amount)" and valid: "CreateOrderDto_valid dto"
    and prices: "\<forall>p \<in> set found. 0 \<le> pr_price p \<and> pr_price p \<le> MAX_PRICE"
  shows "amount = exact_total items" and "0 \<le> amount \<and> amount \<le> 2 ^ 53"
proof -
  have items: "price_items (co_items dto) found = Inr items" and amount: "amount = total_amount items"
    using priced by (auto simp: priceOrder_def split: sum.splits)
  note q = priced_quantities [OF priced valid]
  have each: "0 \<le> oi_unit_price i * oi_quantity i \<and> oi_unit_price i * oi_quantity i \<le> 90000000000 * 1000"
    if i: "i \<in> set items" for i
  proof -
    obtain p where "p \<in> set found" "oi_unit_price i = toMinorUnits (pr_price p)"
      using price_items_shape [OF items] i by blast
    with prices toMinorUnits_bound [of "pr_price p"]
    have "0 \<le> oi_unit_price i" "oi_unit_price i \<le> 90000000000" by simp_all
    moreover have "1 \<le> oi_quantity i" "oi_quantity i \<le> 1000" using q(1) i by simp_all
    ultimately show ?thesis by (intro conjI mult_nonneg_nonneg mult_mono) simp_all
  qed
  have "exact_total items \<le> int (length items) * (90000000000 * 1000)" and "0 \<le> exact_total items"
    using exact_total_bound [of items "90000000000 * 1000"] each by blast+
  with q(2) have "exact_total items \<le> 2 ^ 53" by simp
  with total_amount_exact [of items] each amount \<open>0 \<le> exact_total items\<close>
  show "amount = exact_total items" and "0 \<le> amount \<and> amount \<le> 2 ^ 53" by simp_all
qed

section \<open>The transaction keeps the invariant\<close>

lemma order_ok_new:
  assumes "\<forall>i \<in> set items. 1 \<le> oi_quantity i"
  shows "order_ok (Some (new_order oid key fp dto loc items amount ts)) None None None"
  using assms by (simp add: order_ok_def new_order_def status_classes)

lemma insert_order_new:
  assumes "insert_order ord ords = Inr ords'"
  shows "ords' = ords @ [ord]" and "lookup o_id ords (o_id ord) = None" and "lookup order_key ords (order_key ord) = None"
    and "distinct (map o_id ords) \<Longrightarrow> distinct (map o_id ords')"
    and "distinct (map order_key ords) \<Longrightarrow> distinct (map order_key ords')"
proof -
  from assms have ins: "insert_unique order_key ord ords = Some ords'" and new: "lookup o_id ords (o_id ord) = None"
    by (auto simp: insert_order_def split: option.splits if_splits)
  show eq: "ords' = ords @ [ord]" using ins by (auto simp: insert_unique_def split: if_splits)
  show "lookup o_id ords (o_id ord) = None" by (rule new)
  show "lookup order_key ords (order_key ord) = None" by (rule order_keys.ins_first [OF ins])
  show "distinct (map o_id ords) \<Longrightarrow> distinct (map o_id ords')"
    using new by (auto simp: eq lookup_None)
  show "distinct (map order_key ords) \<Longrightarrow> distinct (map order_key ords')"
    by (rule order_keys.ins_distinct [OF ins])
qed

lemma created_event_new:
  assumes "createOrderCreatedEvent oid s = Inr events"
  shows "events = outbox s @ [created_event (fresh_id s) oid (now s)]"
    and "distinct (map event_key (outbox s)) \<Longrightarrow> distinct (map event_key events)"
    and "distinct (map e_id (outbox s)) \<Longrightarrow> distinct (map e_id events)"
    and "lookup event_key events = (lookup event_key (outbox s))
      ((oid, ORDER_CREATED_EVENT) := Some (created_event (fresh_id s) oid (now s)))"
proof -
  let ?e = "created_event (fresh_id s) oid (now s)"
  from assms have ins: "insert_unique event_key ?e (outbox s) = Some events"
    and new: "lookup e_id (outbox s) (e_id ?e) = None"
    by (auto simp: createOrderCreatedEvent_def Let_def split: option.splits if_splits)
  show eq: "events = outbox s @ [?e]" using ins by (auto simp: insert_unique_def split: if_splits)
  show "distinct (map event_key (outbox s)) \<Longrightarrow> distinct (map event_key events)"
    by (rule event_index.ins_distinct [OF ins])
  show "distinct (map e_id (outbox s)) \<Longrightarrow> distinct (map e_id events)"
    using new by (auto simp: eq lookup_None)
  show "lookup event_key events = (lookup event_key (outbox s)) ((oid, ORDER_CREATED_EVENT) := Some ?e)"
    using event_index.ins_get [OF ins] by (simp add: event_key_def created_event_def)
qed

lemma accept_tx_keeps:
  assumes inv: "consistent s" and tx: "accept_tx ord s = (r, u)"
    and fresh: "\<And>ts. order_ok (Some (ord ts)) None None None \<and> o_status (ord ts) = PENDING"
  shows "acts s u \<and> consistent u" and "r = Inr () \<Longrightarrow> order_of u (o_id (ord (now s))) = Some (ord (now s))"
    and "r = Inl e \<Longrightarrow> e \<noteq> OutOfFuel"
proof -
  let ?new = "ord (now s)"
  have step: "(acts s u \<and> consistent u) \<and> order_of u (o_id ?new) = Some ?new"
    if ins: "insert_order ?new (orders s) = Inr ords" and ev: "createOrderCreatedEvent (o_id ?new) s = Inr events"
    for ords events
  proof -
    note n = insert_order_new [OF ins] and e = created_event_new [OF ev]
    have u: "u = s\<lparr>orders := ords, outbox := events\<rparr>"
      using tx ins ev by (simp add: accept_tx_def)
    have same [simp]: "movement_of u = movement_of s" "charge_of u = charge_of s" "stock_of u = stock_of s"
      "stock u = stock s" "movements u = movements s" "charges u = charges s" "outbox u = events" "orders u = ords"
      by (simp_all add: u movement_of_def [abs_def] charge_of_def [abs_def] stock_of_def [abs_def])
    have none: "order_of s (o_id ?new) = None" using n(2) by (simp add: order_of_def)
    have new: "order_of u = (order_of s)(o_id ?new := Some ?new)"
      using n(1,2) by (auto simp: order_of_def lookup_append fun_eq_iff split: option.splits)
    have "order_ok (order_of s (o_id ?new)) (movement_of s (o_id ?new) RESERVE)
        (movement_of s (o_id ?new) RELEASE) (charge_of s (o_id ?new))"
      using inv unfolding consistent_def by blast
    then have bare: "movement_of s (o_id ?new) k = None" "charge_of s (o_id ?new) = None" for k
      by (cases k; simp add: none order_ok_def)+
    have "indexed u" using inv n(4,5) e(2,3) by (simp add: consistent_def indexed_def)
    moreover have "stock_ok u" using inv by (simp add: consistent_def stock_ok_def)
    moreover have "announced u" using inv by (auto simp: consistent_def announced_def new e(4))
    moreover have "order_ok (order_of u x) (movement_of u x RESERVE) (movement_of u x RELEASE) (charge_of u x)" for x
      using inv fresh by (cases "x = o_id ?new") (simp_all add: new bare consistent_def)
    moreover have "evolves s u" using none by (auto simp: evolves_def new)
    moreover have "saga_view u x = saga_view s x \<or> saga_event (saga_view s x) (saga_view u x)" for x
    proof (cases "x = o_id ?new")
      case True
      have "o_status ?new = PENDING" using fresh by simp
      then have "saga_view s x = no_order" "saga_view u x = no_order\<lparr>sv_status := Some PENDING\<rparr>"
        by (simp_all add: True saga_view_def no_order_def none bare new)
      then show ?thesis by (simp add: saga_event.accept)
    qed (simp add: saga_view_def new)
    ultimately show ?thesis by (simp add: consistent_def conserves_def acts_def balance_def new)
  qed
  show "acts s u \<and> consistent u"
    using step tx inv by (auto simp: accept_tx_def split: sum.splits)
  show "r = Inr () \<Longrightarrow> order_of u (o_id ?new) = Some ?new"
    using step tx by (auto simp: accept_tx_def split: sum.splits)
  show "r = Inl e \<Longrightarrow> e \<noteq> OutOfFuel"
    using tx by (auto simp: accept_tx_def insert_order_def createOrderCreatedEvent_def Let_def duplicate_key_def
        split: sum.splits option.splits if_splits)
qed

section \<open>Safety of the routes\<close>

text \<open>
  What an accepted request is answered with: the order of that customer and key, created
  by a request of the same fingerprint, as it was at some moment up to now.
\<close>

definition answered :: "object_id \<Rightarrow> string \<Rightarrow> string \<Rightarrow> order_response \<Rightarrow> world \<Rightarrow> bool" where
  "answered customerId key fingerprint r s \<longleftrightarrow>
     (\<exists>ord. order_of s (or_order r) = Some ord \<and> order_key ord = (customerId, key)
        \<and> o_fingerprint ord = fingerprint \<and> or_total r = o_total ord)"

lemma order_of_key:
  "lookup order_key (orders s) k = Some ord \<Longrightarrow> consistent s \<Longrightarrow>
     order_of s (o_id ord) = Some ord \<and> order_key ord = k"
  by (auto simp: order_of_def consistent_def indexed_def lookup_distinct dest: lookup_in_set)

lemma response_simps [simp]:
  "or_order (OrderResponseDto_from ord) = o_id ord" "or_total (OrderResponseDto_from ord) = o_total ord"
  by (simp_all add: OrderResponseDto_from_def)

lemma safe_resolveReplay:
  assumes "order_of s (o_id ord) = Some ord" and "order_key ord = (customerId, key)"
  shows "safely (answered customerId key fingerprint) no_fuel (resolveReplay ord fingerprint) s"
  using assms by (auto simp: resolveReplay_def answered_def)

lemma safe_await_attempts:
  assumes "\<And>t ord. \<lbrakk>evolves s t; consistent t; order_of t (o_id ord) = Some ord;
      order_key ord = (ObjectId customerId, key)\<rbrakk> \<Longrightarrow> Q ord t"
  shows "safely Q no_fuel (await_attempts n customerId key) s"
  using assms
proof (induction n arbitrary: s)
  case (Suc n)
  show ?case
    unfolding await_attempts.simps findByIdempotencyKey_def
  proof (rule safe_await, rule safe_db_read)
    fix t
    assume st: "evolves s t" and I: "consistent t"
    have "safely Q no_fuel (await_attempts n customerId key) t"
      using Suc.prems evolves_trans [OF st] by (intro Suc.IH) blast
    then show "safely Q no_fuel (case lookup order_key (orders t) (ObjectId customerId, key) of
        Some ord \<Rightarrow> Return ord | None \<Rightarrow> await_attempts n customerId key) t"
      using Suc.prems [OF st I] order_of_key [OF _ I] by (auto split: option.split)
  qed simp
qed simp

lemma safe_commit_order:
  assumes I: "consistent s" and fresh: "\<And>ts. order_ok (Some (ord ts)) None None None \<and> o_status (ord ts) = PENDING"
    and ord: "\<And>ts. o_id (ord ts) = orderId \<and> order_key (ord ts) = (ObjectId customerId, key)
      \<and> o_fingerprint (ord ts) = fingerprint"
  shows "safely (answered (ObjectId customerId) key fingerprint) no_fuel
    (commit_order ord orderId customerId key fingerprint) s"
  unfolding commit_order_def
proof (rule safe_await, rule safe_attempt, rule safe_dbI)
  fix t r u
  assume "consistent t" and "accept_tx ord t = (r, u)"
  then show "acts t u \<and> consistent u" by (rule accept_tx_keeps(1) [OF _ _ fresh])
next
  fix t u and a :: unit
  assume It: "consistent t" and tx: "accept_tx ord t = (Inr a, u)" and I: "consistent u"
  have tx: "accept_tx ord t = (Inr (), u)" using tx by simp
  have known: "order_of u orderId = Some (ord (now t))"
    using accept_tx_keeps(2) [OF It tx fresh refl] ord by simp
  have "safely (answered (ObjectId customerId) key fingerprint) no_fuel
      (await (findById orderId) (\<lambda>created.
         case created of
           None \<Rightarrow> Throw (PlainError (''Order '' @ orderId @ '' vanished immediately after being committed.''))
         | Some c \<Rightarrow> Return (OrderResponseDto_from c))) u"
    unfolding findById_def
  proof (rule safe_await, rule safe_db_read)
    fix v
    assume "evolves u v"
    then obtain c where c: "order_of v orderId = Some c" and same: "request_of c = request_of (ord (now t))"
      by (rule evolves_orderE [OF _ known])
    moreover have "o_id c = orderId" using c by (rule order_of_id)
    moreover have "order_key c = (ObjectId customerId, key)" "o_fingerprint c = fingerprint"
      using same ord [of "now t"] by (simp_all add: request_of_eq order_key_def)
    ultimately show "safely (answered (ObjectId customerId) key fingerprint) no_fuel (case order_of v orderId of
           None \<Rightarrow> Throw (PlainError (''Order '' @ orderId @ '' vanished immediately after being committed.''))
         | Some c \<Rightarrow> Return (OrderResponseDto_from c)) v"
      by (simp add: answered_def)
  qed simp
  then show "safely (answered (ObjectId customerId) key fingerprint) no_fuel
      (case Inr a of Inl error \<Rightarrow>
         if \<not> isDuplicateKeyError error (Some ''idempotencyKey'') then Throw error
         else await (awaitWinner customerId key) (\<lambda>winner. resolveReplay winner fingerprint)
       | Inr _ \<Rightarrow> await (findById orderId) (\<lambda>created.
           case created of
             None \<Rightarrow> Throw (PlainError (''Order '' @ orderId @ '' vanished immediately after being committed.''))
           | Some c \<Rightarrow> Return (OrderResponseDto_from c))) u"
    by (simp only: sum.case)
next
  fix t u e
  assume It: "consistent t" and tx: "accept_tx ord t = (Inl e, u)" and I: "consistent u"
  have "safely (answered (ObjectId customerId) key fingerprint) no_fuel
      (await (awaitWinner customerId key) (\<lambda>winner. resolveReplay winner fingerprint)) u"
    unfolding awaitWinner_def by (rule safe_await, rule safe_await_attempts) (rule safe_resolveReplay)
  with accept_tx_keeps(3) [OF It tx fresh refl]
  show "safely (answered (ObjectId customerId) key fingerprint) no_fuel
      (case Inl e of Inl error \<Rightarrow>
         if \<not> isDuplicateKeyError error (Some ''idempotencyKey'') then Throw error
         else await (awaitWinner customerId key) (\<lambda>winner. resolveReplay winner fingerprint)
       | Inr _ \<Rightarrow> await (findById orderId) (\<lambda>created.
           case created of
             None \<Rightarrow> Throw (PlainError (''Order '' @ orderId @ '' vanished immediately after being committed.''))
           | Some c \<Rightarrow> Return (OrderResponseDto_from c))) u"
    by simp
qed simp

theorem safe_acceptOrder:
  assumes I: "consistent s" and valid: "CreateOrderDto_valid dto"
  shows "safely (answered (ObjectId (co_customer dto)) key (fingerprintRequest sha256 dto)) no_fuel
    (acceptOrder sha256 dto key) s"
proof -
  let ?Q = "answered (ObjectId (co_customer dto)) key (fingerprintRequest sha256 dto)"
  have commit: "safely ?Q no_fuel (case priceOrder dto found of
      Inl e \<Rightarrow> Throw e
    | Inr (items, totalAmount) \<Rightarrow>
        await (sample fresh_id) (\<lambda>orderId.
        commit_order (new_order orderId key (fingerprintRequest sha256 dto) dto coordinates items totalAmount)
          orderId (co_customer dto) key (fingerprintRequest sha256 dto))) t" for found coordinates t
  proof (cases "priceOrder dto found")
    case (Inl e)
    have "e \<noteq> OutOfFuel" if "price_items items found = Inl e" for items
      using that by (induction items) (auto split: option.splits sum.splits)
    with Inl show ?thesis by (auto simp: priceOrder_def split: sum.splits)
  next
    case (Inr priced)
    obtain items amount where p: "priceOrder dto found = Inr (items, amount)" using Inr by (cases priced) simp
    have "order_ok (Some (new_order oid key fp dto coordinates items amount ts)) None None None" for oid fp ts
      using priced_quantities(1) [OF p valid] by (intro order_ok_new) auto
    then have "safely ?Q no_fuel
        (await (sample fresh_id) (\<lambda>orderId.
         commit_order (new_order orderId key (fingerprintRequest sha256 dto) dto coordinates items amount)
           orderId (co_customer dto) key (fingerprintRequest sha256 dto))) t"
      by (intro safe_await safe_sample safe_commit_order) (simp_all add: new_order_def order_key_def)
    then show ?thesis by (simp add: p)
  qed
  have products: "consistent t \<Longrightarrow> safely (\<lambda>_ _. True) no_fuel (loadProducts dto) t" for t
    unfolding loadProducts_def
    by (rule rg.safe_handled [OF safe_getProductsById]) simp_all
  have place: "consistent t \<Longrightarrow> safely (\<lambda>_ _. True) no_fuel (resolveCoordinates a) t" for a t
    unfolding resolveCoordinates_def
    by (rule rg.safe_handled [OF safe_getCoordinates]) simp_all
  have rest: "safely ?Q no_fuel
      (await (getCustomerById (co_customer dto)) (\<lambda>customer.
          case customer of
            None \<Rightarrow> Throw (UnprocessableOrderError ''CUSTOMER_NOT_FOUND''
                            (''Customer '' @ co_customer dto @ '' not found.''))
          | Some _ \<Rightarrow>
              await (loadProducts dto) (\<lambda>found.
              await (resolveCoordinates (co_address dto)) (\<lambda>coordinates.
              case priceOrder dto found of
                Inl e \<Rightarrow> Throw e
              | Inr (items, totalAmount) \<Rightarrow>
                  await (sample fresh_id) (\<lambda>orderId.
                  commit_order (new_order orderId key (fingerprintRequest sha256 dto) dto coordinates items totalAmount)
                    orderId (co_customer dto) key (fingerprintRequest sha256 dto)))))) t" if "consistent t" for t
    by (rule rg.safe_then [OF safe_getCustomerById [OF that] that])
      (auto intro!: rg.safe_then [OF products] rg.safe_then [OF place] commit split: option.split)
  show ?thesis
    unfolding acceptOrder_def Let_def findByIdempotencyKey_def
    by (rule safe_await, rule safe_db_read, rule safe_option, rule rest)
      (auto intro!: safe_resolveReplay dest: order_of_key)
qed

lemma safe_orders_create: "consistent s \<Longrightarrow> safely (\<lambda>_ _. True) no_fuel (orders_create sha256 header dto) s"
  by (auto simp: orders_create_def validation_failed_def BadRequestException_def extractIdempotencyKey_def Let_def
      intro: safe_conseq [OF safe_acceptOrder] split: sum.split)

lemma safe_orders_getOne: "safely (\<lambda>_ _. True) no_fuel (orders_getOne v) s"
  unfolding orders_getOne_def
  by (rule safe_await, rule safe_path_id)
    (auto simp: getOrder_def findById_def intro!: safe_await safe_db_read split: option.split)

lemma safe_orders_list: "safely (\<lambda>_ _. True) no_fuel (orders_list query) s"
  by (auto simp: orders_list_def listOrders_def list_orders_def validation_failed_def BadRequestException_def
      intro!: safe_await safe_db_read)

end
