(* ===== verification/Mockdata.thy ===== *)
theory Mockdata
  imports Orders_Service Inventory
begin

text \<open>
  The management side of the mock providers, \<open>mockdata/mockdata-*.service.ts\<close> and their
  controllers: the directories the program is tested against, and the stock and warehouses
  it really uses. A service's operation has the name of its collection and its own; the
  controller's route that calls it is named after the HTTP method. A quantity of stock is a
  whole number here. The lookups the program's own clients call are in the theories \<open>Payment\<close>
  and \<open>Directories\<close>.
\<close>

section \<open>Operations on one collection\<close>

text \<open>\<open>findOneAndUpdate\<close> with \<open>upsert\<close>: the updated or inserted document and the collection.\<close>

definition upsert :: "('d \<Rightarrow> bool) \<Rightarrow> ('d \<Rightarrow> 'd) \<Rightarrow> 'd \<Rightarrow> 'd list \<Rightarrow> 'd \<times> 'd list" where
  "upsert P f new ds =
     (case find P ds of
        Some d \<Rightarrow> (f d, update_one P f ds)
      | None \<Rightarrow> (new, ds @ [new]))"

text \<open>\<open>deleteOne\<close>: the first document the filter matches, and how many there were.\<close>

primrec delete_one :: "('d \<Rightarrow> bool) \<Rightarrow> 'd list \<Rightarrow> nat \<times> 'd list" where
  "delete_one P [] = (0, [])"
| "delete_one P (d # ds) = (if P d then (1, ds) else (case delete_one P ds of (n, es) \<Rightarrow> (n, d # es)))"

definition removed :: "string \<Rightarrow> object_id \<Rightarrow> nat \<Rightarrow> unit io" where
  "removed what oid deletedCount =
     (if deletedCount = 0 then Throw (NotFoundException (what @ '' '' @ oid @ '' not found.'')) else Return ())"

text \<open>A \<open>@Body()\<close> parameter: the validation pipe in front of the handler.\<close>

definition validated :: "('b \<Rightarrow> bool) \<Rightarrow> ('b \<Rightarrow> 'a io) \<Rightarrow> 'b \<Rightarrow> 'a io" where
  "validated valid handler body = (if valid body then handler body else Throw validation_failed)"

section \<open>Stock (mockdata-stock.service.ts)\<close>

record add_stock_dto =
  as_warehouse :: string
  as_product :: string
  as_quantity :: int

definition AddStockDto_valid :: "add_stock_dto \<Rightarrow> bool" where
  "AddStockDto_valid dto \<longleftrightarrow> is_mongo_id (as_warehouse dto) \<and> is_mongo_id (as_product dto) \<and> 0 < as_quantity dto"

definition stock_list :: "stock_row list io" where
  "stock_list = db_read stock"

definition add_stock_op :: "add_stock_dto \<Rightarrow> world \<Rightarrow> (exn + stock_row) \<times> world" where
  "add_stock_op dto s =
     (let key = (ObjectId (as_warehouse dto), ObjectId (as_product dto))
      in case upsert (\<lambda>r. stock_key r = key) (\<lambda>r. r\<lparr>s_quantity := s_quantity r + as_quantity dto\<rparr>)
                 \<lparr>s_warehouse = fst key, s_product = snd key, s_quantity = as_quantity dto\<rparr> (stock s) of
           (row, rows) \<Rightarrow> (Inr row, s\<lparr>stock := rows\<rparr>))"

definition addStock :: "add_stock_dto \<Rightarrow> stock_row io" where
  "addStock dto = db (add_stock_op dto)"

definition stock_post :: "add_stock_dto \<Rightarrow> stock_row io" where
  "stock_post = validated AddStockDto_valid addStock"

definition stock_index :: "stock_row list io" where
  "stock_index = stock_list"

section \<open>Warehouses (mockdata-warehouses.service.ts)\<close>

text \<open>\<open>@IsLatitude\<close> and \<open>@IsLongitude\<close>.\<close>

definition is_latitude :: "rat \<Rightarrow> bool" where
  "is_latitude v \<longleftrightarrow> - 90 \<le> v \<and> v \<le> 90"

definition is_longitude :: "rat \<Rightarrow> bool" where
  "is_longitude v \<longleftrightarrow> - 180 \<le> v \<and> v \<le> 180"

record create_warehouse_dto =
  dw_latitude :: rat
  dw_longitude :: rat

definition CreateWarehouseDto_valid :: "create_warehouse_dto \<Rightarrow> bool" where
  "CreateWarehouseDto_valid dto \<longleftrightarrow> is_latitude (dw_latitude dto) \<and> is_longitude (dw_longitude dto)"

definition warehouses_list :: "warehouse list io" where
  "warehouses_list = db_read warehouses"

definition warehouses_create :: "create_warehouse_dto \<Rightarrow> warehouse io" where
  "warehouses_create dto =
     db (\<lambda>s. let w = \<lparr>w_id = fresh_id s,
                     w_location = \<lparr>latitude = dw_latitude dto, longitude = dw_longitude dto\<rparr>\<rparr>
             in case insert_unique w_id w (warehouses s) of
                  None \<Rightarrow> (Inl (duplicate_key [''_id'']), s)
                | Some ws \<Rightarrow> (Inr w, s\<lparr>warehouses := ws\<rparr>))"

definition warehouses_remove :: "object_id \<Rightarrow> unit io" where
  "warehouses_remove oid =
     await (db (\<lambda>s. case delete_one (\<lambda>w. w_id w = oid) (warehouses s) of
                      (n, ws) \<Rightarrow> (Inr n, s\<lparr>warehouses := ws\<rparr>)))
       (removed ''Warehouse'' oid)"

definition warehouses_index :: "warehouse list io" where
  "warehouses_index = warehouses_list"

definition warehouses_post :: "create_warehouse_dto \<Rightarrow> warehouse io" where
  "warehouses_post = validated CreateWarehouseDto_valid warehouses_create"

definition warehouses_delete :: "string \<Rightarrow> unit io" where
  "warehouses_delete v = await (path_id v) warehouses_remove"

section \<open>Customers (mockdata-customers.service.ts)\<close>

record create_customer_dto =
  dc_name :: string
  dc_card :: string

definition CreateCustomerDto_valid :: "create_customer_dto \<Rightarrow> bool" where
  "CreateCustomerDto_valid dto \<longleftrightarrow> text_within 200 (dc_name dto) \<and> text_within 200 (dc_card dto)"

definition customers_list :: "customer list io" where
  "customers_list = db_read customers"

definition customers_create :: "create_customer_dto \<Rightarrow> customer io" where
  "customers_create dto =
     db (\<lambda>s. let c = \<lparr>cu_id = fresh_id s, cu_name = dc_name dto, cu_card = dc_card dto\<rparr>
             in case insert_unique cu_id c (customers s) of
                  None \<Rightarrow> (Inl (duplicate_key [''_id'']), s)
                | Some cs \<Rightarrow> (Inr c, s\<lparr>customers := cs\<rparr>))"

definition customers_remove :: "object_id \<Rightarrow> unit io" where
  "customers_remove oid =
     await (db (\<lambda>s. case delete_one (\<lambda>c. cu_id c = oid) (customers s) of
                      (n, cs) \<Rightarrow> (Inr n, s\<lparr>customers := cs\<rparr>)))
       (removed ''Customer'' oid)"

definition customers_index :: "customer list io" where
  "customers_index = customers_list"

definition customers_post :: "create_customer_dto \<Rightarrow> customer io" where
  "customers_post = validated CreateCustomerDto_valid customers_create"

definition customers_delete :: "string \<Rightarrow> unit io" where
  "customers_delete v = await (path_id v) customers_remove"

section \<open>Products (mockdata-products.service.ts)\<close>

record create_product_dto =
  dp_name :: string
  dp_description :: "string option"
  dp_price :: rat

definition CreateProductDto_valid :: "create_product_dto \<Rightarrow> bool" where
  "CreateProductDto_valid dto \<longleftrightarrow> text_within 200 (dp_name dto)
     \<and> (case dp_description dto of None \<Rightarrow> True | Some d \<Rightarrow> length d \<le> 1000) \<and> 0 < dp_price dto"

definition products_create :: "create_product_dto \<Rightarrow> product io" where
  "products_create dto =
     db (\<lambda>s. let p = \<lparr>pr_id = fresh_id s, pr_name = dp_name dto, pr_description = dp_description dto,
                     pr_price = dp_price dto\<rparr>
             in case insert_unique pr_id p (products s) of
                  None \<Rightarrow> (Inl (duplicate_key [''_id'']), s)
                | Some ps \<Rightarrow> (Inr p, s\<lparr>products := ps\<rparr>))"

definition products_post :: "create_product_dto \<Rightarrow> product io" where
  "products_post = validated CreateProductDto_valid products_create"

section \<open>Credit cards (mockdata-credit-cards.service.ts)\<close>

record create_credit_card_dto =
  dk_number :: string
  dk_status :: card_status
  dk_reason :: "string option option"

definition CreateCreditCardDto_valid :: "create_credit_card_dto \<Rightarrow> bool" where
  "CreateCreditCardDto_valid dto \<longleftrightarrow> text_within 200 (dk_number dto)
     \<and> (case dk_reason dto of Some (Some r) \<Rightarrow> length r \<le> 1000 | _ \<Rightarrow> True)"

definition cards_list :: "credit_card list io" where
  "cards_list = db_read cards"

text \<open>An absent \<open>declineReason\<close> is left out of the update; \<open>null\<close> takes the old one away.\<close>

definition given :: "'v option option \<Rightarrow> 'v option \<Rightarrow> 'v option" where
  "given new old = (case new of None \<Rightarrow> old | Some v \<Rightarrow> v)"

definition cards_create :: "create_credit_card_dto \<Rightarrow> credit_card io" where
  "cards_create dto =
     db (\<lambda>s. case upsert (\<lambda>c. cc_number c = dk_number dto)
                    (\<lambda>c. c\<lparr>cc_status := dk_status dto, cc_reason := given (dk_reason dto) (cc_reason c)\<rparr>)
                    \<lparr>cc_id = fresh_id s, cc_number = dk_number dto, cc_status = dk_status dto, cc_reason = given (dk_reason dto) None\<rparr>
                    (cards s) of
               (c, cs) \<Rightarrow> (Inr c, s\<lparr>cards := cs\<rparr>))"

definition cards_remove :: "object_id \<Rightarrow> unit io" where
  "cards_remove oid =
     await (db (\<lambda>s. case delete_one (\<lambda>c. cc_id c = oid) (cards s) of (n, cs) \<Rightarrow> (Inr n, s\<lparr>cards := cs\<rparr>)))
       (removed ''Credit card'' oid)"

definition cards_index :: "credit_card list io" where
  "cards_index = cards_list"

definition cards_post :: "create_credit_card_dto \<Rightarrow> credit_card io" where
  "cards_post = validated CreateCreditCardDto_valid cards_create"

definition cards_delete :: "string \<Rightarrow> unit io" where
  "cards_delete v = await (path_id v) cards_remove"

section \<open>Addresses (mockdata-addresses.service.ts)\<close>

definition DEFAULT_ADDRESSES :: "(string \<times> coordinates) list" where
  "DEFAULT_ADDRESSES =
     [(''Los Angeles'', \<lparr>latitude = 34.0522, longitude = - 118.2437\<rparr>),
      (''Chicago'', \<lparr>latitude = 41.8781, longitude = - 87.6298\<rparr>),
      (''Houston'', \<lparr>latitude = 29.7604, longitude = - 95.3698\<rparr>),
      (''Phoenix'', \<lparr>latitude = 33.4484, longitude = - 112.074\<rparr>),
      (''Philadelphia'', \<lparr>latitude = 40.2603, longitude = - 76.8852\<rparr>),
      (''Miami'', \<lparr>latitude = 27.9944, longitude = - 81.751\<rparr>),
      (''Buenos Aires'', \<lparr>latitude = - 34.6037, longitude = - 58.3816\<rparr>)]"

text \<open>The seeding at start-up; the driver makes up an id for each, here \<open>ids\<close>.\<close>

definition addresses_onModuleInit :: "object_id list \<Rightarrow> unit io" where
  "addresses_onModuleInit ids =
     await (db_read (\<lambda>s. length (addresses s))) (\<lambda>count.
       if count > 0 then Return ()
       else db (\<lambda>s. (Inr (), s\<lparr>addresses := addresses s @
              map (\<lambda>(oid, address, location). \<lparr>ad_id = oid, ad_address = address, ad_location = location\<rparr>)
                (zip ids DEFAULT_ADDRESSES)\<rparr>)))"

definition addresses_list :: "mock_address list io" where
  "addresses_list = db_read addresses"

record create_address_dto =
  da_address :: string
  da_latitude :: rat
  da_longitude :: rat

definition CreateAddressDto_valid :: "create_address_dto \<Rightarrow> bool" where
  "CreateAddressDto_valid dto \<longleftrightarrow> text_within 500 (da_address dto)
     \<and> is_latitude (da_latitude dto) \<and> is_longitude (da_longitude dto)"

definition addresses_create :: "create_address_dto \<Rightarrow> mock_address io" where
  "addresses_create dto =
     (let trimmed = trim (da_address dto);
          location = \<lparr>latitude = da_latitude dto, longitude = da_longitude dto\<rparr>
      in db (\<lambda>s. case upsert (\<lambda>a. same_address (ad_address a) trimmed)
                       (\<lambda>a. a\<lparr>ad_address := trimmed, ad_location := location\<rparr>)
                       \<lparr>ad_id = fresh_id s, ad_address = trimmed, ad_location = location\<rparr>
                       (addresses s) of
                  (a, as) \<Rightarrow> (Inr a, s\<lparr>addresses := as\<rparr>)))"

definition addresses_remove :: "object_id \<Rightarrow> unit io" where
  "addresses_remove oid =
     await (db (\<lambda>s. case delete_one (\<lambda>a. ad_id a = oid) (addresses s) of (n, as) \<Rightarrow> (Inr n, s\<lparr>addresses := as\<rparr>)))
       (removed ''Address'' oid)"

definition addresses_index :: "mock_address list io" where
  "addresses_index = addresses_list"

definition addresses_post :: "create_address_dto \<Rightarrow> mock_address io" where
  "addresses_post = validated CreateAddressDto_valid addresses_create"

definition addresses_delete :: "string \<Rightarrow> unit io" where
  "addresses_delete v = await (path_id v) addresses_remove"

section \<open>What they do\<close>

text \<open>After a deletion the collection has one document fewer, and none by that id if ids are unique.\<close>

lemma delete_one_key:
  assumes "distinct (map key ds)"
  shows "delete_one (\<lambda>d. key d = k) ds =
    (if k \<in> key ` set ds then (1, filter (\<lambda>d. key d \<noteq> k) ds) else (0, ds))"
  using assms by (induction ds) (auto simp: image_iff intro!: filter_True [symmetric])

lemma customer_removed:
  assumes "db_link s = Up" and "distinct (map cu_id (customers s))"
  shows "run (customers_remove cid) s =
    (if cid \<in> cu_id ` set (customers s)
     then (Inr (), s\<lparr>customers := filter (\<lambda>c. cu_id c \<noteq> cid) (customers s)\<rparr>)
     else (Inl (NotFoundException (''Customer '' @ cid @ '' not found.'')), s))"
  using delete_one_key [OF assms(2), of cid] assms(1)
  by (simp add: customers_remove_def run_simps removed_def)

lemma find_update_one:
  assumes "find P ds = Some d" and "P (f d)"
  shows "find P (update_one P f ds) = Some (f d)"
  using assms by (induction ds) (auto split: if_splits)

text \<open>After an upsert, the filter finds the document the upsert answered with.\<close>

lemma upsert_find:
  assumes "upsert P f new ds = (d, ds')" and "\<And>e. P e \<Longrightarrow> P (f e)" and "P new"
  shows "find P ds' = Some d"
proof (cases "find P ds")
  case None
  with assms show ?thesis by (auto simp: upsert_def find_append)
next
  case (Some e)
  with assms(2) have "P (f e)" by (auto dest: find_Some_set)
  with Some assms(1) show ?thesis by (auto simp: upsert_def find_update_one)
qed

lemma upsert_stored: "upsert P f new ds = (d, ds') \<Longrightarrow> (\<And>e. P e \<Longrightarrow> P (f e)) \<Longrightarrow> P new \<Longrightarrow> d \<in> set ds'"
  using upsert_find [of P f new ds d ds'] by (metis find_Some_set)

lemma delete_one_last: "key d = k \<Longrightarrow> k \<notin> key ` set ds \<Longrightarrow> delete_one (\<lambda>e. key e = k) (ds @ [d]) = (1, ds)"
  by (induction ds) auto

lemma add_stock_level:
  assumes op: "add_stock_op dto s = (r, u)" and dist: "distinct (map stock_key (stock s))"
  shows "level (stock u) w p = level (stock s) w p +
    (if (ObjectId (as_warehouse dto), ObjectId (as_product dto)) = (w, p) then as_quantity dto else 0)"
proof -
  let ?k = "(ObjectId (as_warehouse dto), ObjectId (as_product dto))"
  let ?new = "\<lparr>s_warehouse = fst ?k, s_product = snd ?k, s_quantity = as_quantity dto\<rparr>"
  show ?thesis
  proof (cases "find (\<lambda>r. stock_key r = ?k) (stock s)")
    case None
    then have "stock u = stock s @ [?new]" and "lookup stock_key (stock s) ?k = None"
      using op by (auto simp: add_stock_op_def upsert_def lookup_def)
    then show ?thesis
      by (auto simp: level_def lookup_append stock_key_def split: option.splits)
  next
    case (Some row)
    then have "stock u = update_one (\<lambda>r. stock_key r = ?k \<and> True)
        (\<lambda>r. r\<lparr>s_quantity := s_quantity r + as_quantity dto\<rparr>) (stock s)"
      using op by (auto simp: add_stock_op_def upsert_def)
    with level_adjust [OF dist, of ?k "\<lambda>_. True" "as_quantity dto"] Some show ?thesis by simp
  qed
qed

end
