(* ===== verification/System.thy ===== *)
theory System
  imports Sweeper Orders_Service Mockdata
begin

text \<open>
  The whole program: any number of processes on the shared state, their atomic operations
  interleaved in any order. A process is what remains of one activity: a route being
  served, a job being worked on, a relay pass, a sweep. Between any two operations the
  environment may do anything to the clock, the links, the random source, the queue and the
  mock directories; stock may be added; a process may be lost at any point (a crash).
\<close>

section \<open>Configurations and steps\<close>

record setting =
  sha256 :: "string \<Rightarrow> string"
  enqueue :: "job \<Rightarrow> job list \<Rightarrow> job list"
  orders_settings :: orders_config
  queue_settings :: queue_config

datatype activity =
    CreateOrder "string list" create_order_dto
  | GetOrder string
  | ListOrders list_orders_filter
  | ProcessJob object_id
  | ReconciliationSweep
  | RelayTick nat
  | Requeue object_id

definition forget :: "'a io \<Rightarrow> unit io" where
  "forget p = await p (\<lambda>_. Return ())"

primrec activity_program :: "setting \<Rightarrow> activity \<Rightarrow> unit io" where
  "activity_program c (CreateOrder header dto) = forget (orders_create (sha256 c) header dto)"
| "activity_program c (GetOrder v) = forget (orders_getOne v)"
| "activity_program c (ListOrders query) = forget (orders_list query)"
| "activity_program c (ProcessJob orderId) = worker orderId"
| "activity_program c ReconciliationSweep = forget (sweeper (orders_settings c))"
| "activity_program c (RelayTick instance_id) =
     forget (relay (enqueue c) (orders_settings c) (queue_settings c) instance_id)"
| "activity_program c (Requeue orderId) = requeueForAggregate orderId"

text \<open>
  \<open>supplied\<close> is kept for the statement of conservation only: how much of a product has been
  added at a warehouse since the start.
\<close>

record system =
  supplied :: "object_id \<Rightarrow> object_id \<Rightarrow> int"
  world_of :: world
  processes :: "unit io list"

definition untouched :: "world \<Rightarrow> world \<Rightarrow> bool" where
  "untouched s t \<longleftrightarrow> orders t = orders s \<and> stock t = stock s \<and> movements t = movements s
     \<and> charges t = charges s \<and> outbox t = outbox s"

definition restocked :: "add_stock_dto \<Rightarrow> (object_id \<Rightarrow> object_id \<Rightarrow> int) \<Rightarrow> object_id \<Rightarrow> object_id \<Rightarrow> int" where
  "restocked dto amounts = (\<lambda>w p. amounts w p +
     (if (ObjectId (as_warehouse dto), ObjectId (as_product dto)) = (w, p) then as_quantity dto else 0))"

inductive step :: "setting \<Rightarrow> system \<Rightarrow> system \<Rightarrow> bool" for c where
  environment: "untouched (world_of g) t \<Longrightarrow> step c g (g\<lparr>world_of := t\<rparr>)"
| restock: "AddStockDto_valid dto \<Longrightarrow> add_stock_op dto (world_of g) = (r, t) \<Longrightarrow>
    step c g (g\<lparr>world_of := t, supplied := restocked dto (supplied g)\<rparr>)"
| spawn: "step c g (g\<lparr>processes := processes g @ [activity_program c act]\<rparr>)"
| turn: "i < length (processes g) \<Longrightarrow> processes g ! i = Atom f \<Longrightarrow> f (world_of g) = (t, p) \<Longrightarrow>
    step c g (g\<lparr>world_of := t, processes := (processes g)[i := p]\<rparr>)"
| crash: "i < length (processes g) \<Longrightarrow>
    step c g (g\<lparr>processes := take i (processes g) @ drop (Suc i) (processes g)\<rparr>)"

inductive_cases stepE: "step c g h"

definition start :: "world \<Rightarrow> system" where
  "start s = \<lparr>supplied = (\<lambda>_ _. 0), world_of = s, processes = []\<rparr>"

definition reachable :: "setting \<Rightarrow> world \<Rightarrow> system \<Rightarrow> bool" where
  "reachable c s g \<longleftrightarrow> (step c)\<^sup>*\<^sup>* (start s) g"

text \<open>A database before the first order: any stock, nothing ordered.\<close>

definition fresh_database :: "world \<Rightarrow> bool" where
  "fresh_database s \<longleftrightarrow> orders s = [] \<and> movements s = [] \<and> charges s = [] \<and> outbox s = []
     \<and> distinct (map stock_key (stock s)) \<and> list_all (\<lambda>r. 0 \<le> s_quantity r) (stock s)"

section \<open>The invariant\<close>

definition sound :: "system \<Rightarrow> bool" where
  "sound g \<longleftrightarrow> consistent (world_of g) \<and> (\<forall>p \<in> set (processes g). safely (\<lambda>_ _. True) no_fuel p (world_of g))"

lemma fresh_consistent: "fresh_database s \<Longrightarrow> consistent s"
  by (simp add: fresh_database_def consistent_def indexed_def stock_ok_def announced_def order_of_def movement_of_def
      charge_of_def order_ok_def list_all_iff)

lemma untouched_step:
  assumes "untouched s t"
  shows "consistent t = consistent s" and "acts s t"
  using assms unseen_step [of t s] by (simp_all add: untouched_def)

lemma add_stock_keeps:
  assumes inv: "consistent s" and valid: "AddStockDto_valid dto" and op: "add_stock_op dto s = (r, u)"
  shows "consistent u" and "evolves s u" and "saga_view u oid = saga_view s oid"
    and "balance u w p = balance s w p +
      (if (ObjectId (as_warehouse dto), ObjectId (as_product dto)) = (w, p) then as_quantity dto else 0)"
proof -
  let ?k = "(ObjectId (as_warehouse dto), ObjectId (as_product dto))"
  let ?new = "\<lparr>s_warehouse = fst ?k, s_product = snd ?k, s_quantity = as_quantity dto\<rparr>"
  let ?f = "\<lambda>r. r\<lparr>s_quantity := s_quantity r + as_quantity dto\<rparr>"
  have key [simp]: "stock_key ?new = ?k" and keyf: "stock_key (?f r) = stock_key r" for r
    by (simp_all add: stock_key_def)
  have q: "0 < as_quantity dto" using valid by (simp add: AddStockDto_valid_def)
  have dist: "distinct (map stock_key (stock s))" and nonneg: "\<forall>r \<in> set (stock s). 0 \<le> s_quantity r"
    using inv by (simp_all add: consistent_def indexed_def stock_ok_def)
  define rows where rows: "rows = (if lookup stock_key (stock s) ?k = None then stock s @ [?new]
      else update_one (\<lambda>r. stock_key r = ?k) ?f (stock s))"
  have u: "u = s\<lparr>stock := rows\<rparr>"
    using op by (cases "lookup stock_key (stock s) ?k")
      (simp_all add: rows add_stock_op_def upsert_def lookup_def Let_def)
  have same [simp]: "order_of u = order_of s" "movement_of u = movement_of s" "charge_of u = charge_of s"
    "movements u = movements s" "stock u = rows"
    by (simp_all add: u order_of_def movement_of_def [abs_def] charge_of_def)
  have "distinct (map stock_key rows)"
    using dist key [simplified] by (auto simp: rows lookup_None map_update_one [where g = stock_key, OF keyf])
  then have "indexed u" using inv by (simp add: u consistent_def indexed_def)
  moreover have "stock_of u w p \<noteq> None" if "stock_of s w p \<noteq> None" for w p
    using that lookup_keys [OF map_update_one [where g = stock_key, OF keyf]]
    by (auto simp: stock_of_def rows lookup_append simp del: not_None_eq split: option.splits)
  then have "stock_ok u"
    using inv nonneg q by (fastforce simp: consistent_def stock_ok_def rows dest!: set_update_one)
  moreover have "announced u" using inv by (simp add: u consistent_def announced_def order_of_def)
  ultimately show "consistent u" using inv by (simp add: consistent_def)
  show "evolves s u" by (auto simp: evolves_def)
  show "saga_view u oid = saga_view s oid" by (simp add: saga_view_def)
  show "balance u w p = balance s w p + (if ?k = (w, p) then as_quantity dto else 0)"
    using add_stock_level [OF op dist, of w p] by (simp add: balance_def)
qed

lemma safe_forget: "safely (\<lambda>_ _. True) no_fuel p s \<Longrightarrow> safely (\<lambda>_ _. True) no_fuel (forget p) s"
  unfolding forget_def by (rule safe_await) (erule safe_conseq, simp_all)

lemma activity_safe: "consistent s \<Longrightarrow> safely (\<lambda>_ _. True) no_fuel (activity_program c act) s"
  by (cases act)
    (simp_all add: safe_forget safe_orders_create safe_orders_getOne safe_orders_list safe_sweeper safe_relay
      safe_requeue safe_conseq [OF safe_worker])

text \<open>
  One step of the system: soundness is kept, the state evolves, stock comes from supply
  only, and each order sees one event of its specification or none.
\<close>

lemma step_sound:
  assumes "step c g h" and "sound g"
  shows "sound h \<and> evolves (world_of g) (world_of h) \<and>
    (\<forall>w p. balance (world_of h) w p - supplied h w p = balance (world_of g) w p - supplied g w p) \<and>
    (\<forall>oid. saga_view (world_of h) oid = saga_view (world_of g) oid
       \<or> saga_event (saga_view (world_of g) oid) (saga_view (world_of h) oid))"
  using assms
proof (cases rule: step.cases)
  case (environment t)
  note [simp] = untouched_step [OF environment(2)]
  have "evolves (world_of g) t" by (rule acts_evolves) simp
  with environment assms(2) show ?thesis
    using untouched_step(2) [OF environment(2)]
    by (auto simp: sound_def acts_def conserves_def intro: rg.safe_later)
next
  case (restock dto r t)
  have I: "consistent (world_of g)" using assms(2) by (simp add: sound_def)
  note keeps = add_stock_keeps [OF I restock(2,3)]
  with restock assms(2) show ?thesis
    by (auto simp: sound_def restocked_def intro: rg.safe_later)
next
  case (spawn act)
  with assms(2) show ?thesis by (auto simp: sound_def activity_safe)
next
  case (turn i f t p)
  have I: "consistent (world_of g)" and safe: "safely (\<lambda>_ _. True) no_fuel (Atom f) (world_of g)"
    using assms(2) turn(3) nth_mem [OF turn(2)] unfolding sound_def by metis+
  note now = rg.safe_now [OF safe I turn(4)]
  have "safely (\<lambda>_ _. True) no_fuel q t" if "q \<in> set ((processes g)[i := p])" for q
    using that now assms(2) set_update_subset_insert [of "processes g" i p]
    by (auto simp: sound_def intro: rg.safe_later)
  with now turn show ?thesis by (simp add: sound_def acts_def conserves_def)
next
  case (crash i)
  with assms(2) show ?thesis
    by (auto simp: sound_def dest: in_set_takeD in_set_dropD)
qed

lemma steps_sound:
  assumes "(step c)\<^sup>*\<^sup>* g h" and "sound g"
  shows "sound h \<and> evolves (world_of g) (world_of h) \<and>
    (\<forall>w p. balance (world_of h) w p - supplied h w p = balance (world_of g) w p - supplied g w p)"
  using assms
proof (induction rule: rtranclp_induct)
  case (step h i)
  with step_sound [OF step.hyps(2)] show ?case
    by (auto intro: evolves_trans)
qed simp

lemma reachable_sound:
  assumes "reachable c s g" and "fresh_database s"
  shows "sound g" and "consistent (world_of g)" and "evolves s (world_of g)"
    and "balance (world_of g) w p = level (stock s) w p + supplied g w p"
proof -
  have "sound (start s)" using fresh_consistent [OF assms(2)] by (simp add: sound_def start_def)
  with steps_sound assms(1)
  have "sound g \<and> evolves (world_of (start s)) (world_of g) \<and> (\<forall>w p. balance (world_of g) w p - supplied g w p
      = balance (world_of (start s)) w p - supplied (start s) w p)"
    unfolding reachable_def by blast
  moreover have "balance s w p = level (stock s) w p"
    using assms(2) by (simp add: balance_def fresh_database_def moved_def)
  ultimately show "sound g" "consistent (world_of g)" "evolves s (world_of g)"
    "balance (world_of g) w p = level (stock s) w p + supplied g w p"
    by (simp_all add: sound_def start_def algebra_simps)
qed

text \<open>Each order's life is a run of the specification.\<close>

lemma steps_events:
  assumes "(step c)\<^sup>*\<^sup>* g h" and "sound g"
  shows "saga_event\<^sup>*\<^sup>* (saga_view (world_of g) oid) (saga_view (world_of h) oid)"
  using assms
proof (induction rule: rtranclp_induct)
  case (step h i)
  with steps_sound [OF step.hyps(1)] step_sound [OF step.hyps(2)] show ?case
    by (metis rtranclp.rtrancl_into_rtrancl)
qed simp

lemma fresh_view: "fresh_database s \<Longrightarrow> saga_view s oid = no_order"
  by (simp add: fresh_database_def saga_view_def no_order_def order_of_def movement_of_def charge_of_def)

text \<open>What consistency says of a paid order, and of a charge.\<close>

lemma filter_key: "distinct (map key ds) \<Longrightarrow> lookup key ds k = Some d \<Longrightarrow> filter (\<lambda>x. key x = k) ds = [d]"
  by (induction ds) (auto simp: filter_empty_conv image_iff split: if_splits)

lemma settled_paid:
  assumes "consistent s" and "order_of s oid = Some ord" and "paid (o_status ord)"
  shows "\<exists>chg r. filter (\<lambda>x. c_key x = oid) (charges s) = [chg] \<and> c_status chg = SUCCEEDED
      \<and> c_amount chg = o_total ord \<and> o_payment ord = Some r \<and> records_charge r chg"
    and "\<exists>m. movement_of s oid RESERVE = Some m \<and> o_warehouse ord = Some (m_warehouse m)
      \<and> m_items m = reservation_items ord"
    and "movement_of s oid RELEASE = None"
proof -
  note ok = consistent_order [OF assms(1,2)]
  have dist: "distinct (map c_key (charges s))" using assms(1) by (simp add: consistent_def indexed_def)
  from ok assms(3) obtain chg r where chg: "charge_of s oid = Some chg" "c_status chg = SUCCEEDED"
    "o_payment ord = Some r" "records_charge r chg" "c_amount chg = o_total ord"
    unfolding order_ok_def by auto
  with filter_key [OF dist, of oid chg]
  show "\<exists>chg r. filter (\<lambda>x. c_key x = oid) (charges s) = [chg] \<and> c_status chg = SUCCEEDED
      \<and> c_amount chg = o_total ord \<and> o_payment ord = Some r \<and> records_charge r chg"
    by (simp add: charge_of_def)
  have st: "\<not> unreserved (o_status ord)" "\<not> unwinding (o_status ord)"
    using assms(3) by (auto simp: status_classes)
  with ok show "\<exists>m. movement_of s oid RESERVE = Some m \<and> o_warehouse ord = Some (m_warehouse m)
      \<and> m_items m = reservation_items ord"
    by (auto simp: order_ok_def)
  show "movement_of s oid RELEASE = None"
    using ok st by (simp add: order_ok_def)
qed

lemma charge_has_order:
  assumes "consistent s" and "chg \<in> set (charges s)"
  shows "\<exists>ord. order_of s (c_key chg) = Some ord \<and> c_amount chg = o_total ord \<and> \<not> unreserved (o_status ord)"
proof -
  have "charge_of s (c_key chg) = Some chg"
    using assms by (simp add: charge_of_def consistent_def indexed_def lookup_distinct)
  moreover have "order_ok (order_of s (c_key chg)) (movement_of s (c_key chg) RESERVE)
      (movement_of s (c_key chg) RELEASE) (charge_of s (c_key chg))"
    using assms(1) unfolding consistent_def by blast
  ultimately show ?thesis
    by (cases "order_of s (c_key chg)") (auto simp: order_ok_def)
qed

end
