(* ===== verification/Outcomes.thy ===== *)
theory Outcomes
  imports System
begin

text \<open>
  What the saga and the sweeper do when nothing interferes and no call is lost: the runs of
  the worker and of the sweeper's handlers, computed to their final state. Together with
  the safety theorems, which hold under any interference, these say that the code not only
  avoids wrong outcomes but reaches the right one.
\<close>

text \<open>
  A world in which every link works, the gateway injects no fault, and the driver takes the
  text of an ObjectId for one.
\<close>

definition calm :: "world \<Rightarrow> bool" where
  "calm s \<longleftrightarrow> db_link s = Up \<and> http_link s = Up
     \<and> \<not> random s < failure_rate (payment_settings s) \<and> \<not> random s < lost_response_rate (payment_settings s)
     \<and> (\<forall>v. is_mongo_id v \<longrightarrow> id_valid s v)"

section \<open>Transitions\<close>

definition swapped :: "object_id \<Rightarrow> order_status \<Rightarrow> order_status \<Rightarrow> transition_patch \<Rightarrow> world \<Rightarrow> world" where
  "swapped oid frm to patch s =
     s\<lparr>orders := update_one (\<lambda>x. o_id x = oid \<and> o_status x = frm) (apply_transition to patch (now s)) (orders s)\<rparr>"

lemma swapped_simps [simp]:
  "movements (swapped oid frm to patch s) = movements s" "stock (swapped oid frm to patch s) = stock s"
  "charges (swapped oid frm to patch s) = charges s" "customers (swapped oid frm to patch s) = customers s"
  "cards (swapped oid frm to patch s) = cards s" "now (swapped oid frm to patch s) = now s"
  "db_link (swapped oid frm to patch s) = db_link s" "uuid (swapped oid frm to patch s) = uuid s"
  "calm (swapped oid frm to patch s) = calm s"
  "movement_of (swapped oid frm to patch s) = movement_of s" "charge_of (swapped oid frm to patch s) = charge_of s"
  by (simp_all add: swapped_def calm_def movement_of_def [abs_def] charge_of_def [abs_def])

lemma order_of_swapped:
  assumes "consistent s" and "order_of s oid = Some ord" and "o_status ord = frm"
  shows "order_of (swapped oid frm to patch s) = (order_of s)(oid := Some (apply_transition to patch (now s) ord))"
  using order_of_update [OF assms(1), of "apply_transition to patch (now s)" oid "\<lambda>x. o_status x = frm"] assms(2,3)
  by (simp add: swapped_def)

lemma run_transition:
  assumes "db_link s = Up" and "consistent s" and "order_of s oid = Some ord" and "o_status ord = frm"
  shows "run (transition oid frm to patch) s =
    (Inr (Some (apply_transition to patch (now s) ord)), swapped oid frm to patch s)"
  using find_by_id [OF assms(2,3), of "\<lambda>x. o_status x = frm"] assms
  by (simp add: transition_def run_db transition_op_def Let_def swapped_def)

lemma run_transition_lost:
  assumes "db_link s = Up" and "consistent s" and "order_of s oid = Some ord" and "o_status ord \<noteq> frm"
  shows "run (transition oid frm to patch) s = (Inr None, s)"
proof -
  have none: "find (\<lambda>x. o_id x = oid \<and> o_status x = frm) (orders s) = None"
    using find_by_id [OF assms(2,3), of "\<lambda>x. o_status x = frm"] assms(4) by simp
  then have "update_one (\<lambda>x. o_id x = oid \<and> o_status x = frm) f (orders s) = orders s" for f
    by (intro update_one_id) (auto simp: find_None_iff)
  with none assms(1) show ?thesis
    by (simp add: transition_def run_db transition_op_def Let_def)
qed

lemma swapped_consistent:
  assumes "consistent s" and "order_of s oid = Some ord" and "may_take s oid frm to patch"
  shows "consistent (swapped oid frm to patch s)" and "conserves s (swapped oid frm to patch s)"
  using transition_op_keeps(1) [OF assms] acts_conserves by (simp_all add: transition_op_def Let_def swapped_def)

section \<open>Reserving\<close>

lemma update_one_other: "d \<in> set ds \<Longrightarrow> \<not> P d \<Longrightarrow> d \<in> set (update_one P f ds)"
  by (induction ds) auto

lemma decrement_sufficient:
  assumes "distinct (map i_product items)"
    and "\<forall>i \<in> set items. \<exists>r \<in> set rows. can_serve w i r"
  shows "\<exists>rows'. decrement_items w items rows = Inr rows'"
  using assms
proof (induction items arbitrary: rows)
  case (Cons i items)
  let ?rows = "update_one (can_serve w i) (\<lambda>r. r\<lparr>s_quantity := s_quantity r - i_quantity i\<rparr>) rows"
  have "\<exists>r \<in> set ?rows. can_serve w j r" if "j \<in> set items" for j
  proof -
    from Cons.prems(2) that obtain r where r: "r \<in> set rows" "can_serve w j r" by auto
    from Cons.prems(1) that have "i_product i \<noteq> i_product j" by (auto simp: image_iff)
    with r(2) have "\<not> can_serve w i r" by (simp add: can_serve_def)
    with r show ?thesis by (blast intro: update_one_other)
  qed
  with Cons.IH [of ?rows] Cons.prems(1) have "\<exists>rows'. decrement_items w items ?rows = Inr rows'" by simp
  moreover have "find (can_serve w i) rows \<noteq> None"
    using Cons.prems(2) by (auto simp: find_None_iff)
  ultimately show ?case by simp
qed simp

lemma sufficient_serves:
  assumes "c \<in> set (aggregate_warehouses loc items s)" and "hasSufficientStock c items"
  shows "\<forall>i \<in> set items. \<exists>r \<in> set (stock s). can_serve (ws_id c) i r"
  using assms
  by (fastforce simp: aggregate_warehouses_def hasSufficientStock_def list_all_iff list_ex_iff can_serve_def stock_key_def)

text \<open>The nearest warehouse that can serve every item.\<close>

definition nearest_sufficient :: "coordinates \<Rightarrow> reservation_item list \<Rightarrow> world \<Rightarrow> warehouse_with_stock option" where
  "nearest_sufficient loc items s = find (\<lambda>c. hasSufficientStock c items) (aggregate_warehouses loc items s)"

lemma find_filter: "find P xs = Some x \<Longrightarrow> \<exists>rest. filter P xs = x # rest"
  by (induction xs) (auto split: if_splits)

definition reserved_world :: "object_id \<Rightarrow> object_id \<Rightarrow> reservation_item list \<Rightarrow> world \<Rightarrow> world" where
  "reserved_world oid w items s =
     (case decrement_items w items (stock s) of
        Inl _ \<Rightarrow> s
      | Inr rows \<Rightarrow> s\<lparr>movements := movements s @ [\<lparr>m_order = oid, m_kind = RESERVE, m_warehouse = w, m_items = items\<rparr>],
                      stock := rows\<rparr>)"

lemma run_reserveForOrder:
  assumes up: "db_link s = Up" and I: "consistent s" and new: "movement_of s oid RESERVE = None"
    and dist: "distinct (map i_product items)" and near: "nearest_sufficient loc items s = Some c"
  shows "run (reserveForOrder oid loc items) s =
    (Inr \<lparr>rr_warehouse = ws_id c, rr_replayed = False\<rparr>, reserved_world oid (ws_id c) items s)"
    and "reserve_tx oid (ws_id c) items s = (Inr True, reserved_world oid (ws_id c) items s)"
    and "movements (reserved_world oid (ws_id c) items s) =
      movements s @ [\<lparr>m_order = oid, m_kind = RESERVE, m_warehouse = ws_id c, m_items = items\<rparr>]"
proof -
  from near have mem: "c \<in> set (aggregate_warehouses loc items s)" and ok: "hasSufficientStock c items"
    by (auto simp: nearest_sufficient_def dest: find_Some_set)
  obtain rows where dec: "decrement_items (ws_id c) items (stock s) = Inr rows"
    using decrement_sufficient [OF dist sufficient_serves [OF mem ok]] by blast
  show tx: "reserve_tx oid (ws_id c) items s = (Inr True, reserved_world oid (ws_id c) items s)"
    using new dec
    by (simp add: reserve_tx_def insert_movement_def insert_unique_def movement_of_def lookup_None movement_key_def
        reserved_world_def)
  show "movements (reserved_world oid (ws_id c) items s) =
      movements s @ [\<lparr>m_order = oid, m_kind = RESERVE, m_warehouse = ws_id c, m_items = items\<rparr>]"
    using dec by (simp add: reserved_world_def)
  obtain rest where cands: "filter (\<lambda>c. hasSufficientStock c items) (aggregate_warehouses loc items s) = c # rest"
    using near find_filter unfolding nearest_sufficient_def by metis
  show "run (reserveForOrder oid loc items) s =
    (Inr \<lparr>rr_warehouse = ws_id c, rr_replayed = False\<rparr>, reserved_world oid (ws_id c) items s)"
    by (simp add: reserveForOrder_def run_simps up new findCandidateWarehouses_def cands tryReserveAt_def tx)
qed

lemma run_reserveForOrder_none:
  assumes "db_link s = Up" and "movement_of s oid RESERVE = None" and "nearest_sufficient loc items s = None"
  shows "run (reserveForOrder oid loc items) s = (Inl NoWarehouseAvailableError, s)"
proof -
  have "filter (\<lambda>c. hasSufficientStock c items) (aggregate_warehouses loc items s) = []"
    using assms(3) by (auto simp: nearest_sufficient_def find_None_iff filter_empty_conv)
  with assms show ?thesis
    by (simp add: reserveForOrder_def run_simps findCandidateWarehouses_def)
qed

section \<open>Charging\<close>

lemma run_path_id: "calm s \<Longrightarrow> is_mongo_id v \<Longrightarrow> run (path_id v) s = (Inr (ObjectId v), s)"
  by (simp add: path_id_def run_simps ParseObjectIdPipe_def calm_def)

lemma run_getCustomerById:
  assumes "calm s" and "is_mongo_id cid" and "lookup cu_id (customers s) (ObjectId cid) = found"
  shows "run (getCustomerById cid) s = (Inr found, s)"
proof (cases found)
  case None
  with assms have "run (customers_getOne cid) s = (Inl (NotFoundException (''Customer '' @ ObjectId cid @ '' not found.'')), s)"
    using run_path_id is_mongo_ObjectId
    by (simp add: customers_getOne_def customers_findById_def run_simps calm_def)
  from run_fetchJson_error [OF _ this] assms None show ?thesis
    by (simp add: getCustomerById_def run_simps calm_def NotFoundException_def exception_filter_def domain_error_def)
next
  case (Some c)
  with assms have "run (customers_getOne cid) s = (Inr c, s)"
    using run_path_id is_mongo_ObjectId
    by (simp add: customers_getOne_def customers_findById_def run_simps calm_def)
  from run_fetchJson [OF _ this] assms Some show ?thesis
    by (simp add: getCustomerById_def run_simps calm_def ok_status_def)
qed

text \<open>The charge the gateway makes for a card: declined exactly when the card is pinned so.\<close>

definition card_state :: "string \<Rightarrow> world \<Rightarrow> credit_card option" where
  "card_state number s = find (\<lambda>c. cc_number c = number) (cards s)"

definition pinned_decline :: "string \<Rightarrow> world \<Rightarrow> bool" where
  "pinned_decline number s = (case card_state number s of None \<Rightarrow> False | Some cc \<Rightarrow> cc_status cc = DECLINE)"

definition charge_made :: "authorize_dto \<Rightarrow> world \<Rightarrow> psp_charge" where
  "charge_made dto s = new_charge dto (card_state (a_card dto) s) (pinned_decline (a_card dto) s) (uuid s)"

definition charged_world :: "authorize_dto \<Rightarrow> world \<Rightarrow> world" where
  "charged_world dto s = s\<lparr>charges := charges s @ [(charge_made dto s)\<lparr>c_created := Some (now s)\<rparr>]\<rparr>"

lemma charged_world_simps [simp]:
  "calm (charged_world dto s) = calm s" "order_of (charged_world dto s) = order_of s"
  "movement_of (charged_world dto s) = movement_of s" "now (charged_world dto s) = now s"
  "stock (charged_world dto s) = stock s" "db_link (charged_world dto s) = db_link s"
  by (simp_all add: charged_world_def calm_def order_of_def movement_of_def [abs_def])

lemma charge_of_charged:
  "charge_of s (a_key dto) = None \<Longrightarrow>
     charge_of (charged_world dto s) (a_key dto) = Some ((charge_made dto s)\<lparr>c_created := Some (now s)\<rparr>)"
  by (simp add: charge_of_def charged_world_def lookup_append charge_made_def new_charge_def)

lemma run_authorize:
  assumes calm: "calm s" and valid: "AuthorizeChargeDto_valid dto" and new: "charge_of s (a_key dto) = None"
  shows "run (authorize dto) s = (Inr (toResult (charge_made dto s)), charged_world dto s)"
proof -
  have up: "db_link s = Up" "http_link s = Up" and lucky: "\<not> random s < failure_rate (payment_settings s)"
    "\<not> random s < lost_response_rate (payment_settings s)"
    using calm by (simp_all add: calm_def)
  have declined: "run (is_declined (card_state (a_card dto) s)) s = (Inr (pinned_decline (a_card dto) s), s)"
    using lucky by (simp add: is_declined_def pinned_decline_def run_simps split: option.split)
  have insert: "insert_charge (charge_made dto s) s = (Inr (), charged_world dto s)"
    using new by (simp add: insert_charge_def insert_unique_def charge_of_def lookup_None charge_made_def new_charge_def
        charged_world_def)
  have up': "db_link (charged_world dto s) = Up" "http_link (charged_world dto s) = Up"
    and lucky': "\<not> random (charged_world dto s) < lost_response_rate (payment_settings (charged_world dto s))"
    using up lucky by (simp_all add: charged_world_def)
  have "run (psp_post_authorize dto) s = (Inr (toResult (charge_made dto s)), charged_world dto s)"
    using declined insert lucky'
    by (simp add: psp_post_authorize_def valid psp_authorize_def run_simps up new findByCardNumber_def psp_charge_card_def
        charge_made_def card_state_def)
  from run_fetchJson [OF up(2) this up'(2)] show ?thesis
    by (simp add: authorize_def run_simps ok_status_def)
qed

section \<open>The rounds of the worker\<close>

lemma reserved_world_simps [simp]:
  "calm (reserved_world oid w items s) = calm s" "order_of (reserved_world oid w items s) = order_of s"
  "charge_of (reserved_world oid w items s) = charge_of s" "now (reserved_world oid w items s) = now s"
  "customers (reserved_world oid w items s) = customers s" "cards (reserved_world oid w items s) = cards s"
  "db_link (reserved_world oid w items s) = db_link s" "uuid (reserved_world oid w items s) = uuid s"
  by (simp_all add: reserved_world_def calm_def order_of_def [abs_def] charge_of_def [abs_def] split: sum.splits)

lemma run_round:
  assumes "db_link s = Up" and "order_of s oid = Some ord"
  shows "run (process orders_impl inventory payment directory (Suc rounds) oid) s =
    run (if isTerminal (o_status ord)
         then if o_status ord = FAILED
              then await (inventory_releaseForOrder inventory oid) (\<lambda>_. Return ())
              else Return ()
         else case o_status ord of
                PENDING \<Rightarrow>
                  await (saga_reserve orders_impl inventory ord) (\<lambda>_.
                  process orders_impl inventory payment directory rounds oid)
              | STOCK_RESERVED \<Rightarrow>
                  await (saga_authorize orders_impl payment directory ord) (\<lambda>_.
                  process orders_impl inventory payment directory rounds oid)
              | PAYMENT_AUTHORIZED \<Rightarrow>
                  await (saga_complete orders_impl ord) (\<lambda>_.
                  process orders_impl inventory payment directory rounds oid)
              | COMPENSATING \<Rightarrow> saga_compensate orders_impl inventory ord
              | _ \<Rightarrow> Return ()) s"
proof -
  have "orders_findById orders_impl = findById" by (simp add: orders_impl_def)
  with assms show ?thesis
    unfolding process.simps by (simp add: run_await run_db_read findById_def)
qed

lemma worker_unfold:
  "worker oid = process orders_impl inventory_impl payment_impl customers_impl (Suc (Suc (Suc (Suc 0)))) oid"
proof -
  have "saga_rounds = Suc (Suc (Suc (Suc 0)))" by (simp add: saga_rounds_def)
  then show ?thesis by (simp only: worker_def)
qed

lemma inventory_impl_release [simp]: "inventory_releaseForOrder inventory_impl = releaseForOrder"
  by (simp add: inventory_impl_def)

text \<open>
  One round from each status, to the explicit world it leaves. \<open>at_status\<close> collects what
  the next round needs to know.
\<close>

definition at_status :: "world \<Rightarrow> object_id \<Rightarrow> order \<Rightarrow> order_status \<Rightarrow> bool" where
  "at_status s oid ord st \<longleftrightarrow> consistent s \<and> order_of s oid = Some ord \<and> o_status ord = st"

lemma at_status_swapped:
  assumes "at_status s oid ord frm" and "may_take s oid frm to patch"
  shows "at_status (swapped oid frm to patch s) oid (apply_transition to patch (now s) ord) to"
  using assms swapped_consistent [of s oid ord frm to patch] order_of_swapped [of s oid ord frm to patch]
  by (simp add: at_status_def)

lemma run_swap:
  assumes "at_status s oid ord frm" and "db_link s = Up"
  shows "run (orders_transition orders_impl oid frm to patch) s =
    (Inr (Some (apply_transition to patch (now s) ord)), swapped oid frm to patch s)"
  using assms run_transition [of s oid ord frm to patch] by (simp add: at_status_def orders_impl_def)

lemma round_reserve:
  assumes pending: "at_status s oid ord PENDING" and calm: "calm s" and new: "movement_of s oid RESERVE = None"
    and dist: "distinct (map i_product (reservation_items ord))"
    and near: "nearest_sufficient (o_coordinates ord) (reservation_items ord) s = Some c"
  defines "w \<equiv> reserved_world oid (ws_id c) (reservation_items ord) s"
  defines "t \<equiv> swapped oid PENDING STOCK_RESERVED (reserved_patch (ws_id c)) w"
  shows "run (saga_reserve orders_impl inventory_impl ord) s = (Inr (), t)"
    and "at_status t oid (apply_transition STOCK_RESERVED (reserved_patch (ws_id c)) (now s) ord) STOCK_RESERVED"
    and "conserves s t"
proof -
  have I: "consistent s" and known: "order_of s oid = Some ord" and up: "db_link s = Up"
    using pending calm by (simp_all add: at_status_def calm_def)
  note oid = order_of_id [OF known]
  note reserve = run_reserveForOrder [OF up I new dist near, folded w_def]
  note keeps = reserve_tx_keeps [OF I known reserve(2)]
  have w: "at_status w oid ord PENDING"
    using pending keeps(1) by (simp add: at_status_def w_def)
  have may: "may_take w oid PENDING STOCK_RESERVED (reserved_patch (ws_id c))"
    using keeps(2) [OF refl] by (auto simp: may_take_def)
  show "run (saga_reserve orders_impl inventory_impl ord) s = (Inr (), t)"
    using reserve(1) run_swap [OF w] up
    by (simp add: saga_reserve_def run_simps inventory_impl_def oid t_def w_def)
  show "at_status t oid (apply_transition STOCK_RESERVED (reserved_patch (ws_id c)) (now s) ord) STOCK_RESERVED"
    using at_status_swapped [OF w may] by (simp add: t_def w_def)
  have "conserves w t"
    unfolding t_def using w by (intro swapped_consistent [OF _ _ may]) (auto simp: at_status_def)
  with keeps(1) show "conserves s t"
    by (blast intro: conserves_trans acts_conserves)
qed

definition charge_request :: "order \<Rightarrow> customer \<Rightarrow> authorize_dto" where
  "charge_request ord cu = \<lparr>a_key = o_id ord, a_card = cu_card cu, a_amount = o_total ord,
     a_description = ''ORDER '' @ o_id ord\<rparr>"

lemma charge_made_simps [simp]:
  "c_key (charge_made dto s) = a_key dto" "c_amount (charge_made dto s) = a_amount dto"
  "c_status (charge_made dto s) = (if pinned_decline (a_card dto) s then DECLINED else SUCCEEDED)"
  by (simp_all add: charge_made_def new_charge_def)

lemma charged_consistent:
  assumes res: "at_status s oid ord STOCK_RESERVED" and new: "charge_of s oid = None"
  shows "consistent (charged_world (charge_request ord cu) s)" and "conserves s (charged_world (charge_request ord cu) s)"
proof -
  let ?c = "charge_made (charge_request ord cu) s"
  have I: "consistent s" and known: "order_of s oid = Some ord" and st: "\<not> unreserved (o_status ord)"
    using res by (simp_all add: at_status_def unreserved_def)
  note oid = order_of_id [OF known]
  have key: "c_key ?c = oid" by (simp add: charge_request_def oid)
  have "insert_charge ?c s = (Inr (), charged_world (charge_request ord cu) s)"
    using new key by (simp add: insert_charge_def insert_unique_def charge_of_def lookup_None charged_world_def)
  from insert_charge_keeps(1) [OF I _ st _ this] known key
  show "consistent (charged_world (charge_request ord cu) s)" "conserves s (charged_world (charge_request ord cu) s)"
    by (simp_all add: charge_request_def acts_conserves)
qed

definition decline_patch :: "payment_result \<Rightarrow> transition_patch" where
  "decline_patch r = unwind_patch PAYMENT_DECLINED
     (case p_error r of Some msg \<Rightarrow> msg | None \<Rightarrow> ''Payment declined.'') (Some r)"

text \<open>The charge happens whatever has become of the order since it was read.\<close>

lemma run_saga_authorize:
  assumes oid: "o_id ord = oid" and calm: "calm s" and new: "charge_of s oid = None"
    and hex: "is_mongo_id (o_customer ord)" and cu: "lookup cu_id (customers s) (ObjectId (o_customer ord)) = Some cu"
    and valid: "AuthorizeChargeDto_valid (charge_request ord cu)"
  defines "r \<equiv> toResult (charge_made (charge_request ord cu) s)"
  shows "run (saga_authorize orders_impl payment_impl customers_impl ord) s =
    run (await (if p_success r
                then orders_transition orders_impl oid STOCK_RESERVED PAYMENT_AUTHORIZED (paid_patch r)
                else orders_transition orders_impl oid STOCK_RESERVED COMPENSATING (decline_patch r)) (\<lambda>_. Return ()))
      (charged_world (charge_request ord cu) s)"
proof -
  have "run (authorize (charge_request ord cu)) s = (Inr r, charged_world (charge_request ord cu) s)"
    unfolding r_def by (rule run_authorize [OF calm valid]) (simp add: new charge_request_def oid)
  then have "run (authorize \<lparr>a_key = oid, a_card = cu_card cu, a_amount = o_total ord,
      a_description = ''ORDER '' @ oid\<rparr>) s = (Inr r, charged_world (charge_request ord cu) s)"
    by (simp add: charge_request_def oid)
  then show ?thesis
    using run_getCustomerById [OF calm hex cu]
    by (simp add: saga_authorize_def run_await customers_impl_def payment_impl_def oid decline_patch_def)
qed

lemma round_authorize:
  assumes res: "at_status s oid ord STOCK_RESERVED" and calm: "calm s" and new: "charge_of s oid = None"
    and hex: "is_mongo_id (o_customer ord)" and cu: "lookup cu_id (customers s) (ObjectId (o_customer ord)) = Some cu"
    and valid: "AuthorizeChargeDto_valid (charge_request ord cu)" and accepted: "\<not> pinned_decline (cu_card cu) s"
  defines "w \<equiv> charged_world (charge_request ord cu) s"
  defines "r \<equiv> toResult (charge_made (charge_request ord cu) s)"
  defines "t \<equiv> swapped oid STOCK_RESERVED PAYMENT_AUTHORIZED (paid_patch r) w"
  shows "run (saga_authorize orders_impl payment_impl customers_impl ord) s = (Inr (), t)"
    and "at_status t oid (apply_transition PAYMENT_AUTHORIZED (paid_patch r) (now s) ord) PAYMENT_AUTHORIZED"
    and "conserves s t"
proof -
  have known: "order_of s oid = Some ord" and up: "db_link s = Up"
    using res calm by (simp_all add: at_status_def calm_def)
  note oid = order_of_id [OF known]
  have key: "a_key (charge_request ord cu) = oid" by (simp add: charge_request_def oid)
  have w: "at_status w oid ord STOCK_RESERVED"
    using res charged_consistent [OF res new, of cu] by (simp add: at_status_def w_def)
  have chg: "charge_of w oid = Some ((charge_made (charge_request ord cu) s)\<lparr>c_created := Some (now s)\<rparr>)"
    using charge_of_charged [of s "charge_request ord cu"] new by (simp add: key w_def)
  have "records_charge r ((charge_made (charge_request ord cu) s)\<lparr>c_created := Some (now s)\<rparr>)"
    by (simp add: records_charge_def r_def toResult_def)
  with accepted chg have may: "may_take w oid STOCK_RESERVED PAYMENT_AUTHORIZED (paid_patch r)"
    by (auto simp: may_take_def charge_request_def)
  have success: "p_success r" using accepted by (simp add: r_def toResult_def charge_request_def)
  show "run (saga_authorize orders_impl payment_impl customers_impl ord) s = (Inr (), t)"
    using run_saga_authorize [OF oid calm new hex cu valid] success run_swap [OF w] up
    by (simp add: run_await t_def w_def flip: r_def)
  show "at_status t oid (apply_transition PAYMENT_AUTHORIZED (paid_patch r) (now s) ord) PAYMENT_AUTHORIZED"
    using at_status_swapped [OF w may] by (simp add: t_def w_def)
  have "conserves w t"
    unfolding t_def using w by (intro swapped_consistent [OF _ _ may]) (auto simp: at_status_def)
  with charged_consistent(2) [OF res new, of cu] show "conserves s t"
    unfolding w_def by (blast intro: conserves_trans)
qed

lemma round_complete:
  assumes paid: "at_status s oid ord PAYMENT_AUTHORIZED" and calm: "calm s"
  shows "run (saga_complete orders_impl ord) s = (Inr (), swapped oid PAYMENT_AUTHORIZED COMPLETED no_patch s)"
    and "at_status (swapped oid PAYMENT_AUTHORIZED COMPLETED no_patch s) oid
      (apply_transition COMPLETED no_patch (now s) ord) COMPLETED"
    and "conserves s (swapped oid PAYMENT_AUTHORIZED COMPLETED no_patch s)"
proof -
  have may: "may_take s oid PAYMENT_AUTHORIZED COMPLETED no_patch" by (simp add: may_take_def)
  have up: "db_link s = Up" and oid: "o_id ord = oid"
    using paid calm order_of_id by (auto simp: at_status_def calm_def)
  show "run (saga_complete orders_impl ord) s = (Inr (), swapped oid PAYMENT_AUTHORIZED COMPLETED no_patch s)"
    using run_swap [OF paid up] by (simp add: saga_complete_def run_simps oid)
  show "at_status (swapped oid PAYMENT_AUTHORIZED COMPLETED no_patch s) oid
      (apply_transition COMPLETED no_patch (now s) ord) COMPLETED"
    by (rule at_status_swapped [OF paid may])
  show "conserves s (swapped oid PAYMENT_AUTHORIZED COMPLETED no_patch s)"
    using paid by (intro swapped_consistent [OF _ _ may]) (auto simp: at_status_def)
qed

text \<open>Everything in place for the happy path.\<close>

definition servable :: "world \<Rightarrow> order \<Rightarrow> warehouse_with_stock \<Rightarrow> customer \<Rightarrow> bool" where
  "servable s ord c cu \<longleftrightarrow>
     movement_of s (o_id ord) RESERVE = None \<and> distinct (map i_product (reservation_items ord))
     \<and> nearest_sufficient (o_coordinates ord) (reservation_items ord) s = Some c
     \<and> is_mongo_id (o_customer ord) \<and> lookup cu_id (customers s) (ObjectId (o_customer ord)) = Some cu
     \<and> AuthorizeChargeDto_valid (charge_request ord cu)"

lemma pending_uncharged:
  "at_status s oid ord PENDING \<Longrightarrow> charge_of s oid = None"
  using consistent_order by (force simp: at_status_def order_ok_def unreserved_def)

lemma charge_request_same [simp]: "charge_request (apply_transition to patch ts ord) cu = charge_request ord cu"
  by (simp add: charge_request_def)

lemma request_fields [simp]:
  "o_customer (apply_transition to patch ts ord) = o_customer ord"
  "o_coordinates (apply_transition to patch ts ord) = o_coordinates ord"
  by (simp_all add: apply_transition_def)

lemma worker_completes_run:
  assumes pending: "at_status s oid ord PENDING" and calm: "calm s" and serv: "servable s ord c cu"
    and accepted: "\<not> pinned_decline (cu_card cu) s"
  shows "\<exists>t ord'. run (worker oid) s = (Inr (), t) \<and> conserves s t \<and> calm t \<and> at_status t oid ord' COMPLETED
    \<and> o_warehouse ord' = Some (ws_id c)"
proof -
  have known: "order_of s oid = Some ord" using pending by (simp add: at_status_def)
  note oid = order_of_id [OF known]
  have new: "movement_of s oid RESERVE = None" and dist: "distinct (map i_product (reservation_items ord))"
    and near: "nearest_sufficient (o_coordinates ord) (reservation_items ord) s = Some c"
    and hex: "is_mongo_id (o_customer ord)" and cu: "lookup cu_id (customers s) (ObjectId (o_customer ord)) = Some cu"
    and valid: "AuthorizeChargeDto_valid (charge_request ord cu)"
    using serv by (simp_all add: servable_def oid)
  define t1 where "t1 = swapped oid PENDING STOCK_RESERVED (reserved_patch (ws_id c))
      (reserved_world oid (ws_id c) (reservation_items ord) s)"
  define ord1 where "ord1 = apply_transition STOCK_RESERVED (reserved_patch (ws_id c)) (now s) ord"
  note r1 = round_reserve [OF pending calm new dist near, folded t1_def ord1_def]
  have calm1: "calm t1" and same1: "charge_of t1 = charge_of s" "customers t1 = customers s" "cards t1 = cards s"
    using calm by (simp_all add: t1_def)
  have pin1: "\<not> pinned_decline (cu_card cu) t1"
    using accepted same1 by (simp add: pinned_decline_def card_state_def)
  define t2 where "t2 = swapped oid STOCK_RESERVED PAYMENT_AUTHORIZED
      (paid_patch (toResult (charge_made (charge_request ord1 cu) t1))) (charged_world (charge_request ord1 cu) t1)"
  define ord2 where "ord2 = apply_transition PAYMENT_AUTHORIZED
      (paid_patch (toResult (charge_made (charge_request ord1 cu) t1))) (now t1) ord1"
  have r2: "run (saga_authorize orders_impl payment_impl customers_impl ord1) t1 = (Inr (), t2)"
      "at_status t2 oid ord2 PAYMENT_AUTHORIZED" "conserves t1 t2"
    using round_authorize [OF r1(2) calm1, of cu] pending_uncharged [OF pending] hex cu valid pin1 same1
    by (simp_all add: t2_def ord2_def ord1_def)
  have calm2: "calm t2" using calm1 by (simp add: t2_def)
  define t3 where "t3 = swapped oid PAYMENT_AUTHORIZED COMPLETED no_patch t2"
  define ord3 where "ord3 = apply_transition COMPLETED no_patch (now t2) ord2"
  note r3 = round_complete [OF r2(2) calm2, folded t3_def ord3_def]
  have calm3: "calm t3" using calm2 by (simp add: t3_def)
  have "run (worker oid) s = (Inr (), t3)"
    using pending calm r1 calm1 r2 calm2 r3 calm3
    unfolding worker_unfold
    by (simp add: run_round run_await at_status_def calm_def del: process.simps)
  moreover have "o_warehouse ord3 = Some (ws_id c)"
    by (simp add: ord3_def ord2_def ord1_def patch_defs)
  moreover have "conserves s t3"
    using r1(3) r2(3) r3(3) by (blast intro: conserves_trans)
  ultimately show ?thesis using calm3 r3(2) by blast
qed

section \<open>Unwinding\<close>

lemma release_frame:
  assumes "release_tx oid s = (r, t)"
  shows "order_of t = order_of s" and "charge_of t = charge_of s" and "calm t = calm s" and "db_link t = db_link s"
    and "now t = now s"
  using assms by (auto simp: release_tx_def order_of_def charge_of_def calm_def split: option.splits sum.splits)

lemma release_again:
  assumes "release_tx oid s = (r, t)" and "movement_of s oid RESERVE = None \<or> movement_of s oid RELEASE \<noteq> None"
  shows "r = Inr Noop" and "t = s"
  using assms by (auto simp: release_tx_def split: option.splits)

lemma release_appends:
  assumes "release_tx oid s = (Inr out, t)" and "movement_of s oid RESERVE = Some m" and "movement_of s oid RELEASE = None"
  shows "movements t = movements s @
    [\<lparr>m_order = oid, m_kind = RELEASE, m_warehouse = m_warehouse m, m_items = m_items m\<rparr>]"
  using assms by (auto simp: release_tx_def insert_movement_def insert_unique_def split: option.splits sum.splits if_splits)

text \<open>A reservation and its release cancel out, in every product at every warehouse.\<close>

lemma released_levels:
  assumes "conserves s t" and "m_kind rsv = RESERVE" and "m_kind rel = RELEASE"
    and "m_warehouse rel = m_warehouse rsv" and "m_items rel = m_items rsv"
    and "movements t = (movements s @ [rsv]) @ [rel]"
  shows "level (stock t) w p = level (stock s) w p"
proof -
  have "balance t w p = balance s w p" using assms(1) by (simp add: conserves_def)
  then show ?thesis
    by (simp only: balance_def assms(6) moved_append) (simp add: movement_quantity_def assms split: if_splits)
qed

text \<open>A release in a calm world: it returns, and no reservation of the order is left unreleased.\<close>

lemma run_release:
  assumes unw: "at_status s oid ord st" "unwinding st" and up: "db_link s = Up"
  shows "\<exists>out t. run (releaseForOrder oid) s = (Inr out, t) \<and> release_tx oid s = (Inr out, t)
    \<and> at_status t oid ord st \<and> conserves s t
    \<and> (movement_of t oid RESERVE \<noteq> None \<longrightarrow> movement_of t oid RELEASE \<noteq> None)"
proof -
  obtain r t where tx: "release_tx oid s = (r, t)" by (cases "release_tx oid s")
  have I: "consistent s" and known: "order_of s oid = Some ord" and st: "unwinding (o_status ord)"
    using unw by (simp_all add: at_status_def)
  note keeps = release_tx_keeps [OF I known st tx] and frame = release_frame [OF tx]
  from keeps(2) obtain out where r: "r = Inr out" by blast
  have "movement_of t oid RELEASE \<noteq> None" if rsv: "movement_of t oid RESERVE \<noteq> None"
  proof (cases "movement_of s oid RESERVE = None")
    case True
    then have "t = s" using release_again(2) [OF tx] by blast
    with True rsv show ?thesis by simp
  qed (use keeps(2) in blast)
  with keeps(1) frame unw tx up r show ?thesis
    by (auto simp: at_status_def releaseForOrder_def run_simps intro: acts_conserves)
qed

lemma round_compensate:
  assumes unw: "at_status s oid ord COMPENSATING" and up: "db_link s = Up"
  shows "\<exists>t. run (saga_compensate orders_impl inventory_impl ord) s = (Inr (), t) \<and> conserves s t
    \<and> at_status t oid (apply_transition COMPENSATED no_patch (now s) ord) COMPENSATED
    \<and> (\<forall>m. movement_of s oid RESERVE = Some m \<longrightarrow> movement_of s oid RELEASE = None \<longrightarrow> movements t = movements s @
         [\<lparr>m_order = oid, m_kind = RELEASE, m_warehouse = m_warehouse m, m_items = m_items m\<rparr>])"
proof -
  have oid: "o_id ord = oid" using unw order_of_id by (auto simp: at_status_def)
  have "unwinding COMPENSATING" by (simp add: unwinding_def)
  from run_release [OF unw this up] obtain out t
    where rel: "run (releaseForOrder oid) s = (Inr out, t)" and tx: "release_tx oid s = (Inr out, t)"
      and t: "at_status t oid ord COMPENSATING" and st: "conserves s t"
      and both: "movement_of t oid RESERVE \<noteq> None \<longrightarrow> movement_of t oid RELEASE \<noteq> None" by blast
  have "movement_of t oid RESERVE \<noteq> None"
    using t consistent_order [of t oid ord] by (auto simp: at_status_def order_ok_def unreserved_def)
  with both have may: "may_take t oid COMPENSATING COMPENSATED no_patch" by (simp add: may_take_def)
  have up': "db_link t = Up" and now: "now t = now s" using release_frame [OF tx] up by simp_all
  have "run (saga_compensate orders_impl inventory_impl ord) s = (Inr (), swapped oid COMPENSATING COMPENSATED no_patch t)"
    using rel run_swap [OF t up'] by (simp add: saga_compensate_def run_await inventory_impl_def oid)
  moreover have "conserves t (swapped oid COMPENSATING COMPENSATED no_patch t)"
    using t by (intro swapped_consistent [OF _ _ may]) (auto simp: at_status_def)
  with st have "conserves s (swapped oid COMPENSATING COMPENSATED no_patch t)"
    by (blast intro: conserves_trans)
  ultimately show ?thesis
    using at_status_swapped [OF t may] release_appends [OF tx]
    by (intro exI [of _ "swapped oid COMPENSATING COMPENSATED no_patch t"]) (simp add: now)
qed

lemma round_decline:
  assumes res: "at_status s oid ord STOCK_RESERVED" and calm: "calm s" and new: "charge_of s oid = None"
    and hex: "is_mongo_id (o_customer ord)" and cu: "lookup cu_id (customers s) (ObjectId (o_customer ord)) = Some cu"
    and valid: "AuthorizeChargeDto_valid (charge_request ord cu)" and refused: "pinned_decline (cu_card cu) s"
  defines "w \<equiv> charged_world (charge_request ord cu) s"
  defines "r \<equiv> toResult (charge_made (charge_request ord cu) s)"
  defines "t \<equiv> swapped oid STOCK_RESERVED COMPENSATING (decline_patch r) w"
  shows "run (saga_authorize orders_impl payment_impl customers_impl ord) s = (Inr (), t)"
    and "at_status t oid (apply_transition COMPENSATING (decline_patch r) (now s) ord) COMPENSATING"
    and "conserves s t"
proof -
  have known: "order_of s oid = Some ord" and up: "db_link s = Up"
    using res calm by (simp_all add: at_status_def calm_def)
  note oid = order_of_id [OF known]
  have w: "at_status w oid ord STOCK_RESERVED"
    using res charged_consistent [OF res new, of cu] by (simp add: at_status_def w_def)
  have may: "may_take w oid STOCK_RESERVED COMPENSATING (decline_patch r)"
    by (auto simp: may_take_def decline_patch_def)
  have "\<not> p_success r" using refused by (simp add: r_def toResult_def charge_request_def)
  then show "run (saga_authorize orders_impl payment_impl customers_impl ord) s = (Inr (), t)"
    using run_saga_authorize [OF oid calm new hex cu valid] run_swap [OF w] up
    by (simp add: run_await t_def w_def flip: r_def)
  show "at_status t oid (apply_transition COMPENSATING (decline_patch r) (now s) ord) COMPENSATING"
    using at_status_swapped [OF w may] by (simp add: t_def w_def)
  have "conserves w t"
    unfolding t_def using w by (intro swapped_consistent [OF _ _ may]) (auto simp: at_status_def)
  with charged_consistent(2) [OF res new, of cu] show "conserves s t"
    unfolding w_def by (blast intro: conserves_trans)
qed

lemma worker_declines_run:
  assumes pending: "at_status s oid ord PENDING" and calm: "calm s" and serv: "servable s ord c cu"
    and refused: "pinned_decline (cu_card cu) s"
  shows "\<exists>t ord'. run (worker oid) s = (Inr (), t) \<and> conserves s t \<and> at_status t oid ord' COMPENSATED
    \<and> o_failure ord' = Some PAYMENT_DECLINED \<and> (\<forall>w p. level (stock t) w p = level (stock s) w p)"
proof -
  have known: "order_of s oid = Some ord" and ok: "order_ok (Some ord) (movement_of s oid RESERVE)
      (movement_of s oid RELEASE) (charge_of s oid)"
    using pending consistent_order [of s oid ord] by (simp_all add: at_status_def)
  note oid = order_of_id [OF known]
  have new: "movement_of s oid RESERVE = None" and dist: "distinct (map i_product (reservation_items ord))"
    and near: "nearest_sufficient (o_coordinates ord) (reservation_items ord) s = Some c"
    and hex: "is_mongo_id (o_customer ord)" and cu: "lookup cu_id (customers s) (ObjectId (o_customer ord)) = Some cu"
    and valid: "AuthorizeChargeDto_valid (charge_request ord cu)"
    using serv by (simp_all add: servable_def oid)
  define t1 where "t1 = swapped oid PENDING STOCK_RESERVED (reserved_patch (ws_id c))
      (reserved_world oid (ws_id c) (reservation_items ord) s)"
  define ord1 where "ord1 = apply_transition STOCK_RESERVED (reserved_patch (ws_id c)) (now s) ord"
  note r1 = round_reserve [OF pending calm new dist near, folded t1_def ord1_def]
  have calm1: "calm t1" and same1: "charge_of t1 = charge_of s" "customers t1 = customers s" "cards t1 = cards s"
    using calm by (simp_all add: t1_def)
  have pin1: "pinned_decline (cu_card cu) t1"
    using refused same1 by (simp add: pinned_decline_def card_state_def)
  define r where "r = toResult (charge_made (charge_request ord1 cu) t1)"
  define t2 where "t2 = swapped oid STOCK_RESERVED COMPENSATING (decline_patch r) (charged_world (charge_request ord1 cu) t1)"
  define ord2 where "ord2 = apply_transition COMPENSATING (decline_patch r) (now t1) ord1"
  have r2: "run (saga_authorize orders_impl payment_impl customers_impl ord1) t1 = (Inr (), t2)"
      "at_status t2 oid ord2 COMPENSATING" "conserves t1 t2"
    using round_decline [OF r1(2) calm1, of cu] pending_uncharged [OF pending] hex cu valid pin1 same1
    by (simp_all add: t2_def ord2_def ord1_def r_def)
  have up2: "db_link t2 = Up" using calm1 by (simp add: t2_def calm_def)
  from round_compensate [OF r2(2) up2] obtain t
    where r3: "run (saga_compensate orders_impl inventory_impl ord2) t2 = (Inr (), t)" "conserves t2 t"
      "at_status t oid (apply_transition COMPENSATED no_patch (now t2) ord2) COMPENSATED"
    and released: "\<And>m. movement_of t2 oid RESERVE = Some m \<Longrightarrow> movement_of t2 oid RELEASE = None \<Longrightarrow>
      movements t = movements t2 @
        [\<lparr>m_order = oid, m_kind = RELEASE, m_warehouse = m_warehouse m, m_items = m_items m\<rparr>]" by blast
  let ?m = "\<lparr>m_order = oid, m_kind = RESERVE, m_warehouse = ws_id c, m_items = reservation_items ord\<rparr>"
  have "consistent s" "db_link s = Up" using pending calm by (simp_all add: at_status_def calm_def)
  note ledger = run_reserveForOrder(3) [OF this(2,1) new dist near]
  have none: "movement_of s oid RELEASE = None" using ok new by (auto simp: order_ok_def)
  have "movements t2 = movements s @ [?m]" using ledger by (simp add: t2_def t1_def charged_world_def)
  moreover from this have "movement_of t2 oid RESERVE = Some ?m" "movement_of t2 oid RELEASE = None"
    using new none by (simp_all add: movement_of_def lookup_append movement_key_def)
  note released [OF this]
  ultimately have "movements t = (movements s @ [?m]) @
      [\<lparr>m_order = oid, m_kind = RELEASE, m_warehouse = ws_id c, m_items = reservation_items ord\<rparr>]" by simp
  note moved = this
  have "run (worker oid) s = (Inr (), t)"
    using pending calm r1 calm1 r2 up2 r3(1)
    unfolding worker_unfold
    by (simp add: run_round run_await at_status_def calm_def del: process.simps)
  moreover have st: "conserves s t"
    using r1(3) r2(3) r3(2) by (blast intro: conserves_trans)
  moreover have "\<forall>w p. level (stock t) w p = level (stock s) w p"
    using released_levels [OF st _ _ _ _ moved] by simp
  moreover have "o_failure (apply_transition COMPENSATED no_patch (now t2) ord2) = Some PAYMENT_DECLINED"
    by (simp add: ord2_def decline_patch_def patch_defs)
  ultimately show ?thesis using r3(3) by blast
qed

text \<open>No warehouse can serve the order: it fails, and nothing else has changed.\<close>

lemma worker_out_of_stock_run:
  assumes pending: "at_status s oid ord PENDING" and calm: "calm s" and new: "movement_of s oid RESERVE = None"
    and none: "nearest_sufficient (o_coordinates ord) (reservation_items ord) s = None"
  shows "\<exists>t ord'. run (worker oid) s = (Inr (), t) \<and> at_status t oid ord' FAILED \<and> o_failure ord' = Some OUT_OF_STOCK
    \<and> stock t = stock s \<and> movements t = movements s \<and> charges t = charges s \<and> db_link t = Up"
proof -
  let ?patch = "failed_patch OUT_OF_STOCK (exn_message NoWarehouseAvailableError)"
  let ?t = "swapped oid PENDING FAILED ?patch s" and ?ord = "apply_transition FAILED ?patch (now s) ord"
  have I: "consistent s" and known: "order_of s oid = Some ord" and up: "db_link s = Up"
    using pending calm by (simp_all add: at_status_def calm_def)
  note oid = order_of_id [OF known]
  have may: "may_take s oid PENDING FAILED ?patch" by (auto simp: may_take_def)
  note t = at_status_swapped [OF pending may]
  have reserve: "run (saga_reserve orders_impl inventory_impl ord) s = (Inr (), ?t)"
    using run_reserveForOrder_none [OF up new none] run_swap [OF pending up]
    by (simp add: saga_reserve_def run_await run_catching inventory_impl_def oid del: exn_message.simps)
  have release: "run (releaseForOrder oid) ?t = (Inr Noop, ?t)"
    using new up by (simp add: releaseForOrder_def run_catching run_db release_tx_def)
  have "run (worker oid) s = (Inr (), ?t)"
    using pending t reserve release up
    unfolding worker_unfold
    by (simp add: run_round run_await at_status_def del: process.simps exn_message.simps)
  with t show ?thesis by (intro exI [of _ ?t] exI [of _ ?ord]) (simp add: patch_defs up)
qed

text \<open>A job delivered again for a settled order changes nothing.\<close>

lemma worker_redelivered_run:
  assumes settled: "at_status s oid ord st" "isTerminal st" and up: "db_link s = Up"
    and released: "st = FAILED \<longrightarrow> movement_of s oid RESERVE = None \<or> movement_of s oid RELEASE \<noteq> None"
  shows "run (worker oid) s = (Inr (), s)"
proof -
  have "run (releaseForOrder oid) s = (Inr Noop, s)" if "st = FAILED"
    using released that up release_again [of oid s "fst (release_tx oid s)" "snd (release_tx oid s)"]
    by (cases "release_tx oid s") (auto simp: releaseForOrder_def run_catching run_db)
  then show ?thesis
    using settled up unfolding worker_unfold
    by (simp add: run_round run_await at_status_def del: process.simps)
qed

end
