(* ===== verification/Recovery.thy ===== *)
theory Recovery
  imports Outcomes
begin

text \<open>
  Undisturbed runs of the sweeper's handlers, whole or stopped between two steps. The
  handlers look at nothing of the claimed document but its id, so the theorems are about
  the order as the database has it when the handler runs.
\<close>

section \<open>The sweeper's handlers\<close>

lemma run_counting:
  "run (counting result p k) s = (case run p s of (Inl e, t) \<Rightarrow> (Inr (Some e, result), t) | (Inr a, t) \<Rightarrow> run (k a) t)"
  by (simp add: counting_def run_await run_attempt split: prod.splits sum.splits)

lemma resolvePending_run:
  assumes pending: "at_status s (o_id claimed) ord PENDING" and up: "db_link s = Up"
  shows "\<exists>t ord'. run (resolvePending orders_impl inventory_impl claimed result) s =
      (Inr (None, result\<lparr>markedFailed := markedFailed result + 1\<rparr>), t)
    \<and> at_status t (o_id claimed) ord' FAILED \<and> o_failure ord' = Some RECONCILED_TIMEOUT
    \<and> (movement_of t (o_id claimed) RESERVE \<noteq> None \<longrightarrow> movement_of t (o_id claimed) RELEASE \<noteq> None)"
proof -
  let ?oid = "o_id claimed" and ?patch = "failed_patch RECONCILED_TIMEOUT timeout_message"
  let ?w = "swapped ?oid PENDING FAILED ?patch s" and ?ord = "apply_transition FAILED ?patch (now s) ord"
  have "may_take s ?oid PENDING FAILED ?patch" by (auto simp: may_take_def)
  note w = at_status_swapped [OF pending this]
  have "unwinding FAILED" by (simp add: unwinding_def)
  from run_release [OF w this] up obtain out t
    where rel: "run (releaseForOrder ?oid) ?w = (Inr out, t)" and t: "at_status t ?oid ?ord FAILED"
      and both: "movement_of t ?oid RESERVE \<noteq> None \<longrightarrow> movement_of t ?oid RELEASE \<noteq> None" by auto
  have "run (resolvePending orders_impl inventory_impl claimed result) s =
      (Inr (None, result\<lparr>markedFailed := markedFailed result + 1\<rparr>), t)"
    using run_swap [OF pending up] rel by (simp add: resolvePending_def run_counting)
  with t both show ?thesis by (intro exI [of _ t] exI [of _ ?ord]) (simp add: patch_defs)
qed

text \<open>The handler stopped between its two steps.\<close>

lemma resolvePending_stranded:
  assumes pending: "at_status s (o_id claimed) ord PENDING" and up: "db_link s = Up"
  defines "t \<equiv> swapped (o_id claimed) PENDING FAILED (failed_patch RECONCILED_TIMEOUT timeout_message) s"
  shows "fst (advance 1 (s, resolvePending orders_impl inventory_impl claimed result)) = t"
    and "at_status t (o_id claimed) (apply_transition FAILED (failed_patch RECONCILED_TIMEOUT timeout_message) (now s) ord) FAILED"
proof -
  have "may_take s (o_id claimed) PENDING FAILED (failed_patch RECONCILED_TIMEOUT timeout_message)" by (auto simp: may_take_def)
  from at_status_swapped [OF pending this] show "at_status t (o_id claimed)
     (apply_transition FAILED (failed_patch RECONCILED_TIMEOUT timeout_message) (now s) ord) FAILED" by (simp add: t_def)
  show "fst (advance 1 (s, resolvePending orders_impl inventory_impl claimed result)) = t"
    using up by (simp add: resolvePending_def counting_def attempt_def orders_impl_def transition_def db_def over_def
       transition_op_def Let_def t_def swapped_def)
qed

lemma run_getByIdempotencyKey:
  assumes calm: "calm s" and short: "length k \<le> MAX_IDEMPOTENCY_KEY_LENGTH"
  shows "run (getByIdempotencyKey k) s = (Inr (map_option toResult (charge_of s k)), s)"
proof (cases "charge_of s k")
  case None
  with assms have "run (psp_getCharge k) s =
      (Inl (NotFoundException (''No charge recorded for idempotency key '' @ quoted k @ ''.'')), s)"
    by (simp add: psp_getCharge_def psp_getByIdempotencyKey_def run_simps calm_def)
  from run_fetchJson_error [OF _ this] calm None show ?thesis
    by (simp add: getByIdempotencyKey_def run_await calm_def NotFoundException_def exception_filter_def domain_error_def)
next
  case (Some c)
  with assms have "run (psp_getCharge k) s = (Inr (toResult c), s)"
    by (simp add: psp_getCharge_def psp_getByIdempotencyKey_def run_simps calm_def)
  from run_fetchJson [OF _ this] calm Some show ?thesis
    by (simp add: getByIdempotencyKey_def run_await calm_def ok_status_def)
qed

text \<open>The charge is on record: the order is carried forward and settled.\<close>

lemma resolveReserved_charged_run:
  assumes res: "at_status s (o_id claimed) ord STOCK_RESERVED" and calm: "calm s"
    and short: "length (o_id claimed) \<le> MAX_IDEMPOTENCY_KEY_LENGTH"
    and chg: "charge_of s (o_id claimed) = Some c" and paid: "c_status c = SUCCEEDED"
  shows "\<exists>t ord'. run (resolveReserved orders_impl inventory_impl payment_impl claimed result) s =
      (Inr (None, result\<lparr>authorized := authorized result + 1, completed := completed result + 1\<rparr>), t)
    \<and> at_status t (o_id claimed) ord' COMPLETED \<and> o_payment ord' = Some (toResult c)"
proof -
  let ?oid = "o_id claimed" and ?patch = "paid_patch (toResult c)"
  let ?w = "swapped ?oid STOCK_RESERVED PAYMENT_AUTHORIZED ?patch s"
  let ?ord = "apply_transition PAYMENT_AUTHORIZED ?patch (now s) ord"
  have up: "db_link s = Up" using calm by (simp add: calm_def)
  have "may_take s ?oid STOCK_RESERVED PAYMENT_AUTHORIZED ?patch"
    using chg paid toResult_records [OF chg] by (auto simp: may_take_def intro!: exI [of _ "toResult c"])
  note w = at_status_swapped [OF res this]
  have "may_take ?w ?oid PAYMENT_AUTHORIZED COMPLETED no_patch" by (simp add: may_take_def)
  note t = at_status_swapped [OF w this]
  have "run (resolveReserved orders_impl inventory_impl payment_impl claimed result) s =
      (Inr (None, result\<lparr>authorized := authorized result + 1, completed := completed result + 1\<rparr>),
       swapped ?oid PAYMENT_AUTHORIZED COMPLETED no_patch ?w)"
    using run_getByIdempotencyKey [OF calm short] chg paid run_swap [OF res up] run_swap [OF w] up
    by (simp add: resolveReserved_def run_counting payment_impl_def toResult_def Let_def)
  with t show ?thesis by (intro exI) (auto simp: patch_defs)
qed

text \<open>No successful charge is on record: the stock is given back.\<close>

lemma resolveReserved_uncharged_run:
  assumes res: "at_status s (o_id claimed) ord STOCK_RESERVED" and calm: "calm s"
    and short: "length (o_id claimed) \<le> MAX_IDEMPOTENCY_KEY_LENGTH"
    and unpaid: "\<forall>c. charge_of s (o_id claimed) = Some c \<longrightarrow> c_status c \<noteq> SUCCEEDED"
  shows "\<exists>t ord'. run (resolveReserved orders_impl inventory_impl payment_impl claimed result) s =
      (Inr (None, result\<lparr>compensated := compensated result + 1\<rparr>), t)
    \<and> at_status t (o_id claimed) ord' COMPENSATED \<and> conserves s t
    \<and> o_failure ord' = Some (if charge_of s (o_id claimed) = None then RECONCILED_NO_CHARGE else PAYMENT_DECLINED)
    \<and> calm t \<and> charge_of t = charge_of s \<and> customers t = customers s \<and> cards t = cards s"
proof -
  let ?oid = "o_id claimed"
  define charge where "charge = map_option toResult (charge_of s ?oid)"
  let ?w = "swapped ?oid STOCK_RESERVED COMPENSATING (uncharged_patch charge) s"
  let ?ord = "apply_transition COMPENSATING (uncharged_patch charge) (now s) ord"
  have up: "db_link s = Up" using calm by (simp add: calm_def)
  have may: "may_take s ?oid STOCK_RESERVED COMPENSATING (uncharged_patch charge)"
    by (auto simp: may_take_def uncharged_patch_def split: option.split)
  note w = at_status_swapped [OF res may]
  have "unwinding COMPENSATING" by (simp add: unwinding_def)
  from run_release [OF w this] up obtain out t
    where rel: "run (releaseForOrder ?oid) ?w = (Inr out, t)" and tx: "release_tx ?oid ?w = (Inr out, t)"
      and t: "at_status t ?oid ?ord COMPENSATING" and wt: "conserves ?w t"
      and both: "movement_of t ?oid RESERVE \<noteq> None \<longrightarrow> movement_of t ?oid RELEASE \<noteq> None" by auto
  note frame = release_frame [OF tx]
  have more: "customers t = customers s" "cards t = cards s"
    using tx by (auto simp: release_tx_def split: option.splits sum.splits)
  have "movement_of t ?oid RESERVE \<noteq> None"
    using t consistent_order [of t ?oid ?ord] by (auto simp: at_status_def order_ok_def unreserved_def)
  with both have may': "may_take t ?oid COMPENSATING COMPENSATED no_patch" by (simp add: may_take_def)
  let ?u = "swapped ?oid COMPENSATING COMPENSATED no_patch t"
  have "\<not> (case charge of Some r \<Rightarrow> p_success r | None \<Rightarrow> False)"
    using unpaid by (auto simp: charge_def toResult_def split: option.split)
  then have "run (resolveReserved orders_impl inventory_impl payment_impl claimed result) s =
      (Inr (None, result\<lparr>compensated := compensated result + 1\<rparr>), ?u)"
    using run_getByIdempotencyKey [OF calm short] run_swap [OF res up] rel run_swap [OF t] frame up
    by (simp add: resolveReserved_def releaseAndSettle_def run_counting payment_impl_def flip: charge_def)
  moreover have "conserves s ?w" "conserves t ?u"
    using res t by (auto intro: swapped_consistent [OF _ _ may] swapped_consistent [OF _ _ may'] simp: at_status_def)
  with wt have "conserves s ?u" by (blast intro: conserves_trans)
  moreover have "o_failure ?ord = Some (if charge_of s ?oid = None then RECONCILED_NO_CHARGE else PAYMENT_DECLINED)"
    by (auto simp: uncharged_patch_def charge_def patch_defs split: option.split)
  ultimately show ?thesis
    using at_status_swapped [OF t may'] frame calm more
    by (intro exI [of _ ?u] exI [of _ "apply_transition COMPENSATED no_patch (now t) ?ord"]) simp
qed

text \<open>
  The race the CAS does not close: a worker that read the order while its stock was
  reserved charges the card after the sweeper has compensated the order.
\<close>

lemma late_charge_run:
  assumes res: "at_status s (o_id ord) ord STOCK_RESERVED" and calm: "calm s"
    and short: "length (o_id ord) \<le> MAX_IDEMPOTENCY_KEY_LENGTH" and new: "charge_of s (o_id ord) = None"
    and hex: "is_mongo_id (o_customer ord)" and cu: "lookup cu_id (customers s) (ObjectId (o_customer ord)) = Some cu"
    and valid: "AuthorizeChargeDto_valid (charge_request ord cu)" and accepted: "\<not> pinned_decline (cu_card cu) s"
  shows "\<exists>t u ord' c.
    run (resolveReserved orders_impl inventory_impl payment_impl ord result) s =
      (Inr (None, result\<lparr>compensated := compensated result + 1\<rparr>), t)
    \<and> run (saga_authorize orders_impl payment_impl customers_impl ord) t = (Inr (), u)
    \<and> at_status u (o_id ord) ord' COMPENSATED
    \<and> charge_of u (o_id ord) = Some c \<and> c_status c = SUCCEEDED \<and> c_amount c = o_total ord"
proof -
  let ?oid = "o_id ord"
  from resolveReserved_uncharged_run [OF res calm short, of result] new obtain t ord'
    where run: "run (resolveReserved orders_impl inventory_impl payment_impl ord result) s =
        (Inr (None, result\<lparr>compensated := compensated result + 1\<rparr>), t)"
      and t: "at_status t ?oid ord' COMPENSATED" and st: "conserves s t" and calm': "calm t" and same: "charge_of t = charge_of s"
        "customers t = customers s" "cards t = cards s" by auto
  have accepted': "\<not> pinned_decline (cu_card cu) t"
    using accepted same by (simp add: pinned_decline_def card_state_def)
  have newt: "charge_of t ?oid = None" using new same by simp
  let ?u = "charged_world (charge_request ord cu) t"
  have known: "order_of t ?oid = Some ord'" and I: "consistent t" using t by (simp_all add: at_status_def)
  have "o_status ord' = COMPENSATED" using t by (simp add: at_status_def)
  moreover have "o_total ord' = o_total ord"
    using evolves_order [OF conserves_evolves [OF st], of ?oid ord] res known
    by (auto simp: at_status_def order_evolves_def request_of_eq)
  moreover have key: "c_key (charge_made (charge_request ord cu) t) = ?oid" by (simp add: charge_request_def)
  have "insert_charge (charge_made (charge_request ord cu) t) t = (Inr (), ?u)"
    using newt key by (simp add: insert_charge_def insert_unique_def charge_of_def lookup_None charged_world_def)
  from insert_charge_keeps(1) [OF I _ _ _ this, of ord'] key known calculation
  have "consistent ?u" by (simp add: charge_request_def unreserved_def)
  ultimately have u: "at_status ?u ?oid ord' COMPENSATED" using known by (simp add: at_status_def)
  have "run (orders_transition orders_impl ?oid STOCK_RESERVED PAYMENT_AUTHORIZED patch) ?u = (Inr None, ?u)" for patch
    using run_transition_lost [of ?u ?oid ord' STOCK_RESERVED PAYMENT_AUTHORIZED patch] u calm'
    by (simp add: orders_impl_def at_status_def calm_def)
  then have "run (saga_authorize orders_impl payment_impl customers_impl ord) t = (Inr (), ?u)"
    using run_saga_authorize [OF refl calm', of ord cu] new hex cu same valid accepted'
    by (simp add: run_await toResult_def charge_request_def)
  moreover have "charge_of ?u ?oid = Some ((charge_made (charge_request ord cu) t)\<lparr>c_created := Some (now t)\<rparr>)"
    using charge_of_charged [of t "charge_request ord cu"] new same by (simp add: charge_request_def)
  ultimately show ?thesis
    using run u accepted' by (intro exI conjI) (assumption | simp add: charge_request_def)+
qed

end
