(* ===== verification/Settling.thy ===== *)
theory Settling
  imports Recovery
begin

text \<open>
  Undisturbed sweeps: what each handler does to the order it is given and to the others
  (\<open>handled\<close>), a claim, a pass over one status (\<open>swept\<close>), and a whole sweep (\<open>passed\<close>).
\<close>

section \<open>What one handler does to the orders\<close>

text \<open>
  \<open>handled s oid ord t\<close>: from \<open>s\<close> to \<open>t\<close> the order \<open>oid\<close> has become \<open>ord\<close> and no other order has
  changed; the charges, the clock and the calm of the world are what they were.
\<close>

definition handled :: "world \<Rightarrow> object_id \<Rightarrow> order \<Rightarrow> world \<Rightarrow> bool" where
  "handled s oid ord t \<longleftrightarrow> consistent t \<and> calm t \<and> now t = now s \<and> charge_of t = charge_of s
     \<and> order_of t = (order_of s)(oid \<mapsto> ord)"

lemma handled_trans: "handled s oid a t \<Longrightarrow> handled t oid b u \<Longrightarrow> handled s oid b u"
  by (simp add: handled_def)

lemma handled_at: "handled s oid ord t \<Longrightarrow> o_status ord = st \<Longrightarrow> at_status t oid ord st"
  by (simp add: handled_def at_status_def)

lemma handled_swap:
  assumes "at_status s oid ord frm" and "calm s" and "may_take s oid frm to patch"
  shows "run (orders_transition orders_impl oid frm to patch) s =
      (Inr (Some (apply_transition to patch (now s) ord)), swapped oid frm to patch s)"
    and "handled s oid (apply_transition to patch (now s) ord) (swapped oid frm to patch s)"
  using assms run_swap [of s oid ord frm to patch] at_status_swapped [of s oid ord frm to patch]
    order_of_swapped [of s oid ord frm to patch]
  by (simp_all add: handled_def at_status_def calm_def [of s])

lemma handled_release:
  assumes "at_status s oid ord st" and "calm s" and "unwinding st"
  shows "\<exists>out t. run (releaseForOrder oid) s = (Inr out, t) \<and> handled s oid ord t
    \<and> (movement_of t oid RESERVE \<noteq> None \<longrightarrow> movement_of t oid RELEASE \<noteq> None)"
proof -
  have up: "db_link s = Up" using assms(2) by (simp add: calm_def)
  from run_release [OF assms(1,3) up] obtain out t where run: "run (releaseForOrder oid) s = (Inr out, t)"
    and tx: "release_tx oid s = (Inr out, t)" and t: "at_status t oid ord st"
    and both: "movement_of t oid RESERVE \<noteq> None \<longrightarrow> movement_of t oid RELEASE \<noteq> None" by auto
  have "handled s oid ord t"
    using release_frame [OF tx] t assms(1,2) by (auto simp: handled_def at_status_def)
  with run both show ?thesis by blast
qed

section \<open>The handlers\<close>

text \<open>The status a stale order is settled in.\<close>

definition verdict :: "world \<Rightarrow> order \<Rightarrow> order_status" where
  "verdict s ord =
     (case o_status ord of
        PENDING \<Rightarrow> FAILED
      | STOCK_RESERVED \<Rightarrow>
          (case charge_of s (o_id ord) of
             None \<Rightarrow> COMPENSATED
           | Some chg \<Rightarrow> if c_status chg = SUCCEEDED then COMPLETED else COMPENSATED)
      | PAYMENT_AUTHORIZED \<Rightarrow> COMPLETED
      | COMPENSATING \<Rightarrow> COMPENSATED
      | st \<Rightarrow> st)"

lemma verdict_terminal: "isTerminal (verdict s ord)"
  by (auto simp: verdict_def isTerminal_def TERMINAL_STATUSES_def split: order_status.split option.split)

text \<open>How many orders a pass has counted as settled.\<close>

definition settled_count :: "reconciliation_result \<Rightarrow> int" where
  "settled_count r = markedFailed r + completed r + compensated r"

definition settled_by :: "(order \<Rightarrow> reconciliation_result \<Rightarrow> handled io) \<Rightarrow> world \<Rightarrow> order \<Rightarrow> order \<Rightarrow>
    reconciliation_result \<Rightarrow> bool" where
  "settled_by handler s claimed ord result \<longleftrightarrow>
     (\<exists>t ord' result'. run (handler claimed result) s = (Inr (None, result'), t) \<and> handled s (o_id claimed) ord' t
        \<and> o_status ord' = verdict s ord \<and> settled_count result' = settled_count result + 1
        \<and> errors result' = errors result)"

lemma settled_byI:
  assumes "run (handler claimed result) s = (Inr (None, result'), t)" and "handled s (o_id claimed) ord' t"
    and "o_status ord' = verdict s ord" and "settled_count result' = settled_count result + 1" and "errors result' = errors result"
  shows "settled_by handler s claimed ord result"
  using assms by (auto simp: settled_by_def)

lemma resolvePending_settles:
  assumes pending: "at_status s (o_id claimed) ord PENDING" and calm: "calm s"
  shows "settled_by (resolvePending orders_impl inventory_impl) s claimed ord result"
proof -
  let ?oid = "o_id claimed" and ?patch = "failed_patch RECONCILED_TIMEOUT timeout_message"
  have "may_take s ?oid PENDING FAILED ?patch" by (auto simp: may_take_def)
  note swap = handled_swap [OF pending calm this]
  let ?w = "swapped ?oid PENDING FAILED ?patch s" and ?ord = "apply_transition FAILED ?patch (now s) ord"
  have w: "at_status ?w ?oid ?ord FAILED" using handled_at [OF swap(2)] by simp
  have "calm ?w" "unwinding FAILED" using calm by (simp_all add: unwinding_def)
  from handled_release [OF w this] obtain out t
    where "run (releaseForOrder ?oid) ?w = (Inr out, t)" and t: "handled ?w ?oid ?ord t" by blast
  with swap(1) have "run (resolvePending orders_impl inventory_impl claimed result) s =
      (Inr (None, result\<lparr>markedFailed := markedFailed result + 1\<rparr>), t)"
    by (simp add: resolvePending_def run_counting)
  from settled_byI [where handler = "resolvePending orders_impl inventory_impl" and claimed = claimed, OF this handled_trans [OF swap(2) t]] pending show ?thesis
    by (simp add: at_status_def verdict_def settled_count_def)
qed

lemma releaseAndSettle_handles:
  assumes unw: "at_status s (o_id claimed) ord COMPENSATING" and calm: "calm s"
  shows "\<exists>t ord'. run (releaseAndSettle orders_impl inventory_impl claimed result) s =
      (Inr (None, result\<lparr>compensated := compensated result + 1\<rparr>), t)
    \<and> handled s (o_id claimed) ord' t \<and> o_status ord' = COMPENSATED"
proof -
  let ?oid = "o_id claimed"
  have "unwinding COMPENSATING" by (simp add: unwinding_def)
  from handled_release [OF unw calm this] obtain out t where rel: "run (releaseForOrder ?oid) s = (Inr out, t)"
    and t: "handled s ?oid ord t" and both: "movement_of t ?oid RESERVE \<noteq> None \<longrightarrow> movement_of t ?oid RELEASE \<noteq> None"
    by blast
  have st: "o_status ord = COMPENSATING" using unw by (simp add: at_status_def)
  note at = handled_at [OF t st]
  have calm': "calm t" and "movement_of t ?oid RESERVE \<noteq> None"
    using t at consistent_order [of t ?oid ord] by (auto simp: handled_def at_status_def order_ok_def unreserved_def)
  with both have "may_take t ?oid COMPENSATING COMPENSATED no_patch" by (simp add: may_take_def)
  note swap = handled_swap [OF at calm' this]
  then show ?thesis
    using rel handled_trans [OF t swap(2)]
    by (intro exI [of _ "swapped ?oid COMPENSATING COMPENSATED no_patch t"]
        exI [of _ "apply_transition COMPENSATED no_patch (now t) ord"])
      (simp add: releaseAndSettle_def run_counting)
qed

lemma resolveCompensating_settles:
  assumes "at_status s (o_id claimed) ord COMPENSATING" and "calm s"
  shows "settled_by (resolveCompensating orders_impl inventory_impl) s claimed ord result"
proof -
  from releaseAndSettle_handles [OF assms, of result] obtain t ord'
    where "run (resolveCompensating orders_impl inventory_impl claimed result) s =
        (Inr (None, result\<lparr>compensated := compensated result + 1\<rparr>), t)"
      and "handled s (o_id claimed) ord' t" "o_status ord' = COMPENSATED"
    by (auto simp: resolveCompensating_def)
  from settled_byI [where handler = "resolveCompensating orders_impl inventory_impl" and claimed = claimed, OF this(1,2)] this(3) assms(1) show ?thesis
    by (simp add: at_status_def verdict_def settled_count_def)
qed

lemma resolveAuthorized_settles:
  assumes paid: "at_status s (o_id claimed) ord PAYMENT_AUTHORIZED" and calm: "calm s"
  shows "settled_by (resolveAuthorized orders_impl) s claimed ord result"
proof -
  have "may_take s (o_id claimed) PAYMENT_AUTHORIZED COMPLETED no_patch" by (simp add: may_take_def)
  note swap = handled_swap [OF paid calm this]
  then have "run (resolveAuthorized orders_impl claimed result) s =
      (Inr (None, result\<lparr>completed := completed result + 1\<rparr>), swapped (o_id claimed) PAYMENT_AUTHORIZED COMPLETED no_patch s)"
    by (simp add: resolveAuthorized_def run_counting)
  from settled_byI [where handler = "resolveAuthorized orders_impl" and claimed = claimed, OF this swap(2)] paid show ?thesis
    by (simp add: at_status_def verdict_def settled_count_def)
qed

lemma resolveReserved_settles:
  assumes res: "at_status s (o_id claimed) ord STOCK_RESERVED" and calm: "calm s"
    and short: "length (o_id claimed) \<le> MAX_IDEMPOTENCY_KEY_LENGTH"
  shows "settled_by (resolveReserved orders_impl inventory_impl payment_impl) s claimed ord result"
proof -
  let ?oid = "o_id claimed"
  note lookup = run_getByIdempotencyKey [OF calm short]
  have oid: "o_id ord = ?oid" using res order_of_id by (auto simp: at_status_def)
  show ?thesis
  proof (cases "\<exists>chg. charge_of s ?oid = Some chg \<and> c_status chg = SUCCEEDED")
    case True
    then obtain chg where chg: "charge_of s ?oid = Some chg" "c_status chg = SUCCEEDED" by blast
    let ?patch = "paid_patch (toResult chg)"
    have "may_take s ?oid STOCK_RESERVED PAYMENT_AUTHORIZED ?patch"
      using chg toResult_records [OF chg(1)] by (auto simp: may_take_def intro!: exI [of _ "toResult chg"])
    note swap = handled_swap [OF res calm this]
    let ?w = "swapped ?oid STOCK_RESERVED PAYMENT_AUTHORIZED ?patch s"
    let ?ord = "apply_transition PAYMENT_AUTHORIZED ?patch (now s) ord"
    have w: "at_status ?w ?oid ?ord PAYMENT_AUTHORIZED" using handled_at [OF swap(2)] by simp
    have "calm ?w" "may_take ?w ?oid PAYMENT_AUTHORIZED COMPLETED no_patch" using calm by (simp_all add: may_take_def)
    note swap' = handled_swap [OF w this]
    let ?counted = "result\<lparr>authorized := authorized result + 1, completed := completed result + 1\<rparr>"
    have "run (resolveReserved orders_impl inventory_impl payment_impl claimed result) s =
        (Inr (None, ?counted), swapped ?oid PAYMENT_AUTHORIZED COMPLETED no_patch ?w)"
      using swap(1) swap'(1) chg lookup
      by (simp add: resolveReserved_def run_counting payment_impl_def toResult_def Let_def)
    from settled_byI [where handler = "resolveReserved orders_impl inventory_impl payment_impl" and claimed = claimed, OF this handled_trans [OF swap(2) swap'(2)]] res chg show ?thesis
      by (simp add: verdict_def at_status_def oid settled_count_def)
  next
    case False
    define charge where "charge = map_option toResult (charge_of s ?oid)"
    have may: "may_take s ?oid STOCK_RESERVED COMPENSATING (uncharged_patch charge)"
      by (auto simp: may_take_def uncharged_patch_def split: option.split)
    note swap = handled_swap [OF res calm may]
    let ?w = "swapped ?oid STOCK_RESERVED COMPENSATING (uncharged_patch charge) s"
    have w: "at_status ?w ?oid (apply_transition COMPENSATING (uncharged_patch charge) (now s) ord) COMPENSATING"
      using handled_at [OF swap(2)] by simp
    have "calm ?w" using calm by simp
    from releaseAndSettle_handles [OF w this, of result] obtain t ord'
      where settle: "run (releaseAndSettle orders_impl inventory_impl claimed result) ?w =
          (Inr (None, result\<lparr>compensated := compensated result + 1\<rparr>), t)"
        and t: "handled ?w ?oid ord' t" "o_status ord' = COMPENSATED" by blast
    have unpaid: "\<not> (case charge of Some r \<Rightarrow> p_success r | None \<Rightarrow> False)"
      using False by (auto simp: charge_def toResult_def split: option.split)
    with swap(1) settle lookup have "run (resolveReserved orders_impl inventory_impl payment_impl claimed result) s =
        (Inr (None, result\<lparr>compensated := compensated result + 1\<rparr>), t)"
      by (simp add: resolveReserved_def run_counting payment_impl_def flip: charge_def)
    from settled_byI [where handler = "resolveReserved orders_impl inventory_impl payment_impl" and claimed = claimed, OF this handled_trans [OF swap(2) t(1)]] res False t(2) show ?thesis
      by (auto simp: verdict_def at_status_def oid settled_count_def split: option.split)
  qed
qed

section \<open>One claim\<close>

text \<open>The orders a pass is about: of its status and stale now.\<close>

definition waiting :: "orders_config \<Rightarrow> order_status \<Rightarrow> world \<Rightarrow> object_id set" where
  "waiting config st s =
     {oid. \<exists>ord. order_of s oid = Some ord \<and> stale st (sweeper_stale_after config) (now s) ord}"

lemma waiting_orders: "waiting config st s \<subseteq> dom (order_of s)"
  by (auto simp: waiting_def)

lemma order_of_listed: "order_of s oid = Some ord \<Longrightarrow> ord \<in> set (orders s) \<and> o_id ord = oid"
  unfolding order_of_def using lookup_in_set lookup_key by metis

lemma finite_waiting [simp]: "finite (waiting config st s)"
proof (rule finite_subset)
  show "waiting config st s \<subseteq> o_id ` set (orders s)"
    using order_of_listed by (fastforce simp: waiting_def)
qed simp

lemma in_orders: "consistent s \<Longrightarrow> ord \<in> set (orders s) \<Longrightarrow> order_of s (o_id ord) = Some ord"
  by (simp add: order_of_def consistent_def indexed_def lookup_distinct)

lemma run_claim:
  assumes I: "consistent s" and calm: "calm s" and live: "\<not> isTerminal st"
  shows "waiting config st s = {} \<Longrightarrow> run (claimStale st (sweeper_stale_after config) l) s = (Inr None, s)"
    and "waiting config st s \<noteq> {} \<Longrightarrow> \<exists>ord t. o_id ord \<in> waiting config st s \<and> o_status ord = st
      \<and> order_of s (o_id ord) = Some ord
      \<and> run (claimStale st (sweeper_stale_after config) l) s = (Inr (Some (lease_order l (now s) ord)), t)
      \<and> handled s (o_id ord) (lease_order l (now s) ord) t"
proof -
  let ?P = "stale st (sweeper_stale_after config) (now s)"
  have run: "run (claimStale st (sweeper_stale_after config) l) s =
      claim_op st (sweeper_stale_after config) l (now s) s"
    using calm by (simp add: claimStale_def run_simps calm_def)
  have none: "find_least o_updated ?P (orders s) = None \<longleftrightarrow> waiting config st s = {}"
  proof -
    have "(\<forall>d \<in> set (orders s). \<not> ?P d) \<longleftrightarrow> (\<forall>oid ord. order_of s oid = Some ord \<longrightarrow> \<not> ?P ord)"
      using in_orders [OF I] lookup_in_set [of o_id "orders s"] unfolding order_of_def by blast
    then show ?thesis by (auto simp: find_least_None waiting_def)
  qed
  { assume "waiting config st s = {}"
    with none run show "run (claimStale st (sweeper_stale_after config) l) s = (Inr None, s)"
      by (simp add: claim_op_def claim_row_def) }
  assume "waiting config st s \<noteq> {}"
  with none obtain ord where least: "find_least o_updated ?P (orders s) = Some ord" by auto
  let ?t = "s\<lparr>orders := update_one (\<lambda>x. o_id x = o_id ord \<and> True) (lease_order l (now s)) (orders s)\<rparr>"
  from find_least_Some [OF least] in_orders [OF I] have ord: "order_of s (o_id ord) = Some ord" "?P ord" by blast+
  have op: "claim_op st (sweeper_stale_after config) l (now s) s = (Inr (Some (lease_order l (now s) ord)), ?t)"
    using least by (simp add: claim_op_def claim_row_def)
  have "handled s (o_id ord) (lease_order l (now s) ord) ?t"
    using claim_op_keeps(1) [OF I live op] order_of_update [OF I, of "lease_order l (now s)" "o_id ord" "\<lambda>_. True"] ord calm
    by (simp add: handled_def calm_def charge_of_def fun_eq_iff)
  with ord run op show "\<exists>ord t. o_id ord \<in> waiting config st s \<and> o_status ord = st
      \<and> order_of s (o_id ord) = Some ord
      \<and> run (claimStale st (sweeper_stale_after config) l) s = (Inr (Some (lease_order l (now s) ord)), t)
      \<and> handled s (o_id ord) (lease_order l (now s) ord) t"
    by (intro exI [of _ ord] exI [of _ ?t]) (auto simp: waiting_def stale_def)
qed

section \<open>A pass over one status\<close>

text \<open>The orders \<open>ids\<close> have their verdict, every other order is as it was.\<close>

definition swept :: "object_id set \<Rightarrow> world \<Rightarrow> world \<Rightarrow> bool" where
  "swept ids s t \<longleftrightarrow> consistent t \<and> calm t \<and> now t = now s \<and> charge_of t = charge_of s
     \<and> (\<forall>oid \<in> ids. \<exists>ord ord'. order_of s oid = Some ord \<and> order_of t oid = Some ord' \<and> o_status ord' = verdict s ord)
     \<and> (\<forall>oid. oid \<notin> ids \<longrightarrow> order_of t oid = order_of s oid)"

definition short_ids :: "world \<Rightarrow> bool" where
  "short_ids s \<longleftrightarrow> (\<forall>oid \<in> dom (order_of s). length oid \<le> MAX_IDEMPOTENCY_KEY_LENGTH)"

lemma swept_dom: "swept ids s t \<Longrightarrow> dom (order_of t) = dom (order_of s)"
  unfolding swept_def dom_def by (metis option.distinct(1))

lemma swept_short: "swept ids s t \<Longrightarrow> short_ids t = short_ids s"
  by (simp add: short_ids_def swept_dom)

lemma swept_none: "consistent s \<Longrightarrow> calm s \<Longrightarrow> swept {} s s"
  by (simp add: swept_def)

lemma verdict_same: "charge_of t = charge_of s \<Longrightarrow> verdict t ord = verdict s ord"
  by (cases "o_status ord") (simp_all add: verdict_def)

lemma verdict_leased [simp]: "verdict s (lease_order l ts ord) = verdict s ord"
  by (cases "o_status ord") (simp_all add: verdict_def)

lemma swept_in:
  "swept ids s t \<Longrightarrow> oid \<in> ids \<Longrightarrow>
    \<exists>ord ord'. order_of s oid = Some ord \<and> order_of t oid = Some ord' \<and> o_status ord' = verdict s ord"
  by (simp add: swept_def)

lemma swept_out: "swept ids s t \<Longrightarrow> oid \<notin> ids \<Longrightarrow> order_of t oid = order_of s oid"
  by (simp add: swept_def)

lemma swept_trans:
  assumes "swept ids s t" and "swept ids' t u" and "ids \<inter> ids' = {}"
  shows "swept (ids \<union> ids') s u"
proof -
  have "\<exists>ord ord'. order_of s oid = Some ord \<and> order_of u oid = Some ord' \<and> o_status ord' = verdict s ord"
    if "oid \<in> ids \<union> ids'" for oid
  proof (cases "oid \<in> ids")
    case True
    with assms(3) have "oid \<notin> ids'" by blast
    from swept_in [OF assms(1) True] swept_out [OF assms(2) this] show ?thesis by simp
  next
    case False
    with that have "oid \<in> ids'" by blast
    from swept_in [OF assms(2) this] swept_out [OF assms(1) False] assms(1) show ?thesis
      by (simp add: swept_def verdict_same [of t s])
  qed
  moreover have "order_of u oid = order_of s oid" if "oid \<notin> ids \<union> ids'" for oid
    using that swept_out [OF assms(1), of oid] swept_out [OF assms(2), of oid] by simp
  ultimately show ?thesis using assms(1,2) by (simp add: swept_def)
qed

text \<open>What is settled is not waiting any more, and nothing else starts to.\<close>

lemma swept_waiting:
  assumes "swept ids s t" and "\<not> isTerminal st"
  shows "waiting config st t = waiting config st s - ids"
proof (rule set_eqI)
  fix oid
  have dead: "\<not> stale st (sweeper_stale_after config) ts ord" if "o_status ord = verdict s cur" for ts ord cur
    using that assms(2) verdict_terminal [of s cur] by (auto simp: stale_def)
  have now: "now t = now s" using assms(1) by (simp add: swept_def)
  show "oid \<in> waiting config st t \<longleftrightarrow> oid \<in> waiting config st s - ids"
  proof (cases "oid \<in> ids")
    case True
    from swept_in [OF assms(1) True] dead show ?thesis using True by (fastforce simp: waiting_def)
  next
    case False
    with swept_out [OF assms(1) False] now show ?thesis by (simp add: waiting_def)
  qed
qed

lemma sweep_batch_settles:
  assumes handler: "\<And>s claimed ord result. \<lbrakk>at_status s (o_id claimed) ord st; calm s;
      length (o_id claimed) \<le> MAX_IDEMPOTENCY_KEY_LENGTH\<rbrakk> \<Longrightarrow> settled_by handler s claimed ord result"
    and live: "\<not> isTerminal st"
    and s: "consistent s" "calm s" "short_ids s"
  shows "\<exists>t out ids. run (sweep_batch orders_impl config st handler n result) s = (Inr out, t) \<and> swept ids s t
    \<and> ids \<subseteq> waiting config st s \<and> card ids = min n (card (waiting config st s))
    \<and> settled_count out = settled_count result + int (card ids) \<and> errors out = errors result"
  using s
proof (induction n arbitrary: s result)
  case 0
  then show ?case by (intro exI [of _ s] exI [of _ result] exI [of _ "{}"]) (simp add: swept_none)
next
  case (Suc n)
  note claim = run_claim [OF Suc.prems(1,2) live, of config "sweeper_lease config"]
  show ?case
  proof (cases "waiting config st s = {}")
    case True
    with claim(1) Suc.prems show ?thesis
      by (intro exI [of _ s] exI [of _ result] exI [of _ "{}"])
        (simp add: swept_none run_await orders_impl_def)
  next
    case False
    from claim(2) [OF this] obtain ord t where ord: "o_id ord \<in> waiting config st s" "o_status ord = st"
        "order_of s (o_id ord) = Some ord"
      and run: "run (claimStale st (sweeper_stale_after config) (sweeper_lease config)) s =
        (Inr (Some (lease_order (sweeper_lease config) (now s) ord)), t)"
      and t: "handled s (o_id ord) (lease_order (sweeper_lease config) (now s) ord) t" by blast
    let ?claimed = "lease_order (sweeper_lease config) (now s) ord"
    have "at_status t (o_id ?claimed) ?claimed st" using handled_at [OF t] ord(2) by simp
    moreover have "calm t" using t by (simp add: handled_def)
    moreover have "length (o_id ?claimed) \<le> MAX_IDEMPOTENCY_KEY_LENGTH"
      using Suc.prems(3) ord(3) by (auto simp: short_ids_def)
    ultimately obtain u ord' result' where handle: "run (handler ?claimed result) t = (Inr (None, result'), u)"
      and u: "handled t (o_id ord) ord' u" "o_status ord' = verdict t ?claimed"
      and count: "settled_count result' = settled_count result + 1" "errors result' = errors result"
      using handler [of t ?claimed ?claimed result] unfolding settled_by_def by auto
    have su: "swept {o_id ord} s u"
      using handled_trans [OF t u(1)] u(2) ord(3) verdict_same [of t s] t by (auto simp: swept_def handled_def)
    have u': "consistent u" "calm u" "short_ids u"
      using su Suc.prems(3) swept_short [OF su] by (simp_all add: swept_def)
    from Suc.IH [OF this, of result'] obtain v out ids
      where rest: "run (sweep_batch orders_impl config st handler n result') u = (Inr out, v)"
      and v: "swept ids u v" "ids \<subseteq> waiting config st u" "card ids = min n (card (waiting config st u))"
      and counts: "settled_count out = settled_count result' + int (card ids)" "errors out = errors result'" by blast
    note left = swept_waiting [OF su live, of config]
    have new: "o_id ord \<notin> ids" and fin: "finite ids" using v(2) left finite_subset [OF v(2)] by auto
    have "card (waiting config st s) = Suc (card (waiting config st u))"
      using left ord(1) card_Suc_Diff1 [of "waiting config st s" "o_id ord"] by simp
    then have "card (insert (o_id ord) ids) = min (Suc n) (card (waiting config st s))"
      using new fin v(3) by simp
    moreover have "run (sweep_batch orders_impl config st handler (Suc n) result) s = (Inr out, v)"
      using run handle rest by (simp add: run_await orders_impl_def)
    moreover have "swept (insert (o_id ord) ids) s v" using swept_trans [OF su v(1)] new by simp
    ultimately show ?thesis
      using v(2) left ord(1) counts count new fin
      by (intro exI [of _ v] exI [of _ out] exI [of _ "insert (o_id ord) ids"]) auto
  qed
qed

section \<open>A whole sweep\<close>

text \<open>After the passes over the statuses \<open>done_states\<close>: \<open>ids\<close> are settled, of each status as many as a batch holds.\<close>

definition passed :: "orders_config \<Rightarrow> order_status set \<Rightarrow> world \<Rightarrow> world \<Rightarrow> reconciliation_result \<Rightarrow> object_id set \<Rightarrow> bool" where
  "passed config done_states s t result ids \<longleftrightarrow> finite ids \<and> swept ids s t \<and> ids \<subseteq> (\<Union>st \<in> done_states. waiting config st s)
     \<and> (\<forall>st \<in> done_states. card (ids \<inter> waiting config st s) = min (sweeper_batch_size config) (card (waiting config st s)))
     \<and> settled_count result = int (card ids) \<and> errors result = 0"

lemma waiting_one: "oid \<in> waiting config st s \<Longrightarrow> oid \<in> waiting config st' s \<Longrightarrow> st' = st"
  by (auto simp: waiting_def stale_def)

lemma next_pass:
  assumes passed: "passed config done_states s t result ids" and st: "st \<notin> done_states" "\<not> isTerminal st"
    and short: "short_ids s"
    and handler: "\<And>s claimed ord result. \<lbrakk>at_status s (o_id claimed) ord st; calm s;
      length (o_id claimed) \<le> MAX_IDEMPOTENCY_KEY_LENGTH\<rbrakk> \<Longrightarrow> settled_by handler s claimed ord result"
  shows "\<exists>u out ids'. run (sweepState orders_impl config st handler result) t = (Inr out, u)
    \<and> passed config (insert st done_states) s u out ids'"
proof -
  have swept: "swept ids s t" and sub: "ids \<subseteq> (\<Union>st \<in> done_states. waiting config st s)"
    using passed by (simp_all add: passed_def)
  have t: "consistent t" "calm t" using swept by (simp_all add: swept_def)
  have t': "short_ids t" using short swept_short [OF swept] by blast
  have other: "ids \<inter> waiting config st s = {}"
  proof (rule ccontr)
    assume "ids \<inter> waiting config st s \<noteq> {}"
    then obtain oid where "oid \<in> ids" "oid \<in> waiting config st s" by blast
    moreover from this(1) sub obtain st' where "st' \<in> done_states" "oid \<in> waiting config st' s" by blast
    ultimately show False using waiting_one [of oid config st s st'] st(1) by blast
  qed
  have same: "waiting config st t = waiting config st s" using swept_waiting [OF swept st(2), of config] other by auto
  from sweep_batch_settles [of st handler, OF handler st(2) t t', of config "sweeper_batch_size config" result]
  obtain u out new where run: "run (sweepState orders_impl config st handler result) t = (Inr out, u)"
    and u: "swept new t u" "new \<subseteq> waiting config st s" "card new = min (sweeper_batch_size config) (card (waiting config st s))"
    and count: "settled_count out = settled_count result + int (card new)" "errors out = errors result"
    unfolding sweepState_def same by blast
  have disj: "ids \<inter> new = {}" using u(2) other by blast
  have fin: "finite ids" "finite new"
    using passed finite_subset [OF u(2)] by (simp_all add: passed_def)
  have "(ids \<union> new) \<inter> waiting config st' s = (if st' = st then new else ids \<inter> waiting config st' s)"
    if "st' \<in> insert st done_states" for st'
  proof (cases "st' = st")
    case True
    then show ?thesis using u(2) other by auto
  next
    case False
    then have "new \<inter> waiting config st' s = {}" using u(2) waiting_one [of _ config st s st'] by auto
    then show ?thesis using False by (simp add: Int_Un_distrib2)
  qed
  then have each: "\<forall>st' \<in> insert st done_states.
      card ((ids \<union> new) \<inter> waiting config st' s) = min (sweeper_batch_size config) (card (waiting config st' s))"
    using passed u(3) unfolding passed_def by (metis insertE)
  have all: "swept (ids \<union> new) s u" by (rule swept_trans [OF swept u(1) disj])
  have within: "ids \<union> new \<subseteq> (\<Union>st' \<in> insert st done_states. waiting config st' s)" using u(2) sub by blast
  have "settled_count out = int (card (ids \<union> new))" and "errors out = 0"
    using count passed card_Un_disjoint [OF fin disj] by (simp_all add: passed_def)
  with each all within fin have "passed config (insert st done_states) s u out (ids \<union> new)"
    unfolding passed_def by blast
  with run show ?thesis by blast
qed

lemma sweep_passes:
  assumes "consistent s" and "calm s" and short: "short_ids s" and "sweeper_enabled config"
  shows "\<exists>t out ids. run (sweeper config) s = (Inr out, t)
    \<and> passed config {PENDING, STOCK_RESERVED, PAYMENT_AUTHORIZED, COMPENSATING} s t out ids"
proof -
  have live: "\<not> isTerminal PENDING" "\<not> isTerminal STOCK_RESERVED" "\<not> isTerminal PAYMENT_AUTHORIZED" "\<not> isTerminal COMPENSATING"
    by (simp_all add: isTerminal_def TERMINAL_STATUSES_def)
  have "passed config {} s s no_result {}"
    using swept_none [OF assms(1,2)] by (simp add: passed_def settled_count_def no_result_def)
  from next_pass [OF this _ live(1) short resolvePending_settles] obtain t1 r1 ids1
    where p1: "run (sweepState orders_impl config PENDING (resolvePending orders_impl inventory_impl) no_result) s = (Inr r1, t1)"
      "passed config {PENDING} s t1 r1 ids1" by auto
  from next_pass [OF p1(2) _ live(2) short resolveReserved_settles] obtain t2 r2 ids2
    where p2: "run (sweepState orders_impl config STOCK_RESERVED (resolveReserved orders_impl inventory_impl payment_impl) r1) t1 = (Inr r2, t2)"
      "passed config {STOCK_RESERVED, PENDING} s t2 r2 ids2" by auto
  from next_pass [OF p2(2) _ live(3) short resolveAuthorized_settles] obtain t3 r3 ids3
    where p3: "run (sweepState orders_impl config PAYMENT_AUTHORIZED (resolveAuthorized orders_impl) r2) t2 = (Inr r3, t3)"
      "passed config {PAYMENT_AUTHORIZED, STOCK_RESERVED, PENDING} s t3 r3 ids3" by auto
  from next_pass [OF p3(2) _ live(4) short resolveCompensating_settles] obtain t4 r4 ids4
    where p4: "run (sweepState orders_impl config COMPENSATING (resolveCompensating orders_impl inventory_impl) r3) t3 = (Inr r4, t4)"
      "passed config {COMPENSATING, PAYMENT_AUTHORIZED, STOCK_RESERVED, PENDING} s t4 r4 ids4" by auto
  have "run (sweeper config) s = (Inr r4, t4)"
    using p1(1) p2(1) p3(1) p4(1) assms(4) by (simp add: sweeper_def sweep_def run_await)
  with p4(2) show ?thesis by (auto simp: insert_commute)
qed

text \<open>With batches large enough, no stale order is left.\<close>

lemma sweep_settles_all:
  assumes "consistent s" and "calm s" and "short_ids s" and "sweeper_enabled config"
    and room: "\<And>st. \<not> isTerminal st \<Longrightarrow> card (waiting config st s) \<le> sweeper_batch_size config"
  shows "\<exists>t out. run (sweeper config) s = (Inr out, t) \<and> errors out = 0
    \<and> swept {oid. \<exists>st. \<not> isTerminal st \<and> oid \<in> waiting config st s} s t"
proof -
  from sweep_passes [OF assms(1-4)] obtain t out ids where run: "run (sweeper config) s = (Inr out, t)"
    and p: "passed config {PENDING, STOCK_RESERVED, PAYMENT_AUTHORIZED, COMPENSATING} s t out ids" by blast
  have live: "\<not> isTerminal st \<longleftrightarrow> st \<in> {PENDING, STOCK_RESERVED, PAYMENT_AUTHORIZED, COMPENSATING}" for st
    by (cases st) (simp_all add: isTerminal_def TERMINAL_STATUSES_def)
  have "waiting config st s \<subseteq> ids" if "\<not> isTerminal st" for st
  proof -
    have "card (ids \<inter> waiting config st s) = card (waiting config st s)"
      using p that room [OF that] unfolding live passed_def by auto
    then have "ids \<inter> waiting config st s = waiting config st s" by (intro card_subset_eq) auto
    then show ?thesis by blast
  qed
  moreover have "ids \<subseteq> {oid. \<exists>st. \<not> isTerminal st \<and> oid \<in> waiting config st s}"
    using p unfolding passed_def live by blast
  ultimately have "ids = {oid. \<exists>st. \<not> isTerminal st \<and> oid \<in> waiting config st s}" by blast
  with run p show ?thesis by (auto simp: passed_def)
qed

end
