(* ===== verification/Acceptance.thy ===== *)
theory Acceptance
  imports Recovery
begin

text \<open>
  Undisturbed runs of the accept path and of the outbox relay: the order a request creates,
  what a replay is answered with, what becomes of an event that can or cannot be put on the
  queue, the listing of orders and the choice of a warehouse.
\<close>

section \<open>The lookups\<close>

lemma is_hex_plain: "is_hex c \<Longrightarrow> c \<noteq> CHR '',''"
  by (auto simp: is_hex_def)

text \<open>The products of a request, as the catalogue answers: it has each of them, by its canonical id.\<close>

definition in_catalogue :: "world \<Rightarrow> create_order_dto \<Rightarrow> bool" where
  "in_catalogue s dto \<longleftrightarrow> (\<forall>i \<in> set (co_items dto).
     ObjectId (it_product i) = it_product i \<and> it_product i \<in> pr_id ` set (products s))"

definition catalogue_answer :: "world \<Rightarrow> string list \<Rightarrow> product list" where
  "catalogue_answer s ids = filter (\<lambda>p. pr_id p \<in> ObjectId ` set ids) (products s)"

lemma products_query:
  assumes "\<forall>v \<in> set ids. is_mongo_id v" and "ids \<noteq> []"
  shows "join [CHR '',''] ids \<noteq> []" and "set (filter (\<lambda>part. part \<noteq> []) (split_at (CHR '','') (join [CHR '',''] ids))) = set ids"
proof -
  have plain: "\<forall>v \<in> set ids. CHR '','' \<notin> set v" and full: "\<forall>v \<in> set ids. v \<noteq> []"
    using assms(1) is_hex_plain by (auto simp: is_mongo_id_def list_all_iff)
  then show "set (filter (\<lambda>part. part \<noteq> []) (split_at (CHR '','') (join [CHR '',''] ids))) = set ids"
    using split_join [OF assms(2) plain] by auto
  show "join [CHR '',''] ids \<noteq> []"
    using assms(2) full by (cases "([CHR '',''], ids)" rule: join.cases) auto
qed

lemma run_products:
  assumes calm: "calm s" and ids: "\<forall>v \<in> set ids. is_mongo_id v" and some: "ids \<noteq> []"
  shows "run (getProductsById ids) s =
    ((let missing = filter (\<lambda>pid. \<not> list_ex (\<lambda>product. pr_id product = pid) (catalogue_answer s ids)) ids
      in if missing \<noteq> [] then Inl (PlainError (''Products not found for IDs: '' @ join '', '' missing))
         else Inr (catalogue_answer s ids)), s)"
proof -
  note q = products_query [OF ids some]
  have "set (filter (id_valid s) (filter (\<lambda>part. part \<noteq> []) (split_at (CHR '','') (join [CHR '',''] ids)))) = set ids"
    using q(2) calm ids by (auto simp: calm_def)
  then have "run (products_index (join [CHR '',''] ids)) s = (Inr (catalogue_answer s ids), s)"
    using q(1) calm
    by (simp add: products_index_def products_list_def run_await run_sample run_db_read calm_def catalogue_answer_def del: set_filter)
  from run_fetchJson [OF _ this] calm some show ?thesis
    by (simp add: getProductsById_def run_await calm_def ok_status_def Let_def)
qed

lemma in_answer:
  assumes cat: "in_catalogue s dto" and i: "i \<in> set (co_items dto)"
  shows "\<exists>p \<in> set (catalogue_answer s (map it_product (co_items dto))). pr_id p = it_product i"
proof -
  from cat i obtain p where p: "p \<in> set (products s)" "pr_id p = it_product i"
    and canonical: "ObjectId (it_product i) = it_product i"
    unfolding in_catalogue_def by force
  have "it_product i \<in> ObjectId ` set (map it_product (co_items dto))"
    using i canonical by (metis image_eqI list.set_map)
  with p show ?thesis by (auto simp: catalogue_answer_def)
qed

lemma run_loadProducts:
  assumes calm: "calm s" and valid: "CreateOrderDto_valid dto" and cat: "in_catalogue s dto"
  shows "run (loadProducts dto) s = (Inr (catalogue_answer s (map it_product (co_items dto))), s)"
proof -
  let ?ids = "map it_product (co_items dto)"
  have ids: "\<forall>v \<in> set ?ids. is_mongo_id v" "?ids \<noteq> []"
    using valid by (auto simp: CreateOrderDto_valid_def ItemDto_valid_def list_all_iff)
  have "filter (\<lambda>pid. \<not> list_ex (\<lambda>product. pr_id product = pid) (catalogue_answer s ?ids)) ?ids = []"
    using in_answer [OF cat] by (simp add: filter_empty_conv list_ex_iff)
  with run_products [OF calm ids] show ?thesis
    by (simp add: loadProducts_def run_catching)
qed

text \<open>An id in upper case passes validation but never matches a product, which has the canonical id.\<close>

lemma run_loadProducts_upper:
  assumes calm: "calm s" and valid: "CreateOrderDto_valid dto" and item: "i \<in> set (co_items dto)"
    and upper: "ObjectId (it_product i) \<noteq> it_product i" and canonical: "\<forall>p \<in> set (products s). ObjectId (pr_id p) = pr_id p"
  shows "\<exists>msg. run (loadProducts dto) s = (Inl (UnprocessableOrderError ''PRODUCT_NOT_FOUND'' msg), s)"
proof -
  let ?ids = "map it_product (co_items dto)"
  have ids: "\<forall>v \<in> set ?ids. is_mongo_id v" "?ids \<noteq> []"
    using valid by (auto simp: CreateOrderDto_valid_def ItemDto_valid_def list_all_iff)
  have "it_product i \<in> set (filter (\<lambda>pid. \<not> list_ex (\<lambda>product. pr_id product = pid) (catalogue_answer s ?ids)) ?ids)"
    using item upper canonical by (auto simp: catalogue_answer_def list_ex_iff)
  then have "filter (\<lambda>pid. \<not> list_ex (\<lambda>product. pr_id product = pid) (catalogue_answer s ?ids)) ?ids \<noteq> []"
    by (metis empty_iff list.set(1))
  with run_products [OF calm ids] show ?thesis
    by (simp add: loadProducts_def run_catching)
qed

lemma run_getCoordinates:
  assumes calm: "calm s" and some: "address \<noteq> []"
    and known: "find (\<lambda>a. same_address (ad_address a) (trim address)) (addresses s) = Some a"
  shows "run (getCoordinates address) s = (Inr (ad_location a), s)"
proof -
  have "run (addresses_get address) s = (Inr (ad_location a), s)"
    using assms by (simp add: addresses_get_def addresses_lookup_def run_await run_db_read calm_def)
  from run_fetchJson [OF _ this] calm show ?thesis
    by (simp add: getCoordinates_def run_await calm_def ok_status_def)
qed

lemma price_items_total:
  assumes "\<forall>i \<in> set items. \<exists>p \<in> set found. pr_id p = it_product i"
  shows "\<exists>priced. price_items items found = Inr priced"
  using assms
proof (induction items)
  case (Cons i items)
  then obtain priced where "price_items items found = Inr priced" by auto
  moreover have "find (\<lambda>p. pr_id p = it_product i) found \<noteq> None"
    using Cons.prems by (auto simp: find_None_iff)
  ultimately show ?case by auto
qed simp

section \<open>Accepting\<close>

text \<open>Everything a new order needs: its customer, its products, its address and two fresh ids.\<close>

definition acceptable :: "world \<Rightarrow> create_order_dto \<Rightarrow> string \<Rightarrow> bool" where
  "acceptable s dto key \<longleftrightarrow> calm s \<and> CreateOrderDto_valid dto
     \<and> lookup order_key (orders s) (ObjectId (co_customer dto), key) = None
     \<and> lookup cu_id (customers s) (ObjectId (co_customer dto)) \<noteq> None \<and> in_catalogue s dto
     \<and> find (\<lambda>a. same_address (ad_address a) (trim (co_address dto))) (addresses s) \<noteq> None
     \<and> order_of s (fresh_id s) = None \<and> lookup e_id (outbox s) (fresh_id s) = None"

definition accepted_order :: "(string \<Rightarrow> string) \<Rightarrow> create_order_dto \<Rightarrow> string \<Rightarrow> world \<Rightarrow> order" where
  "accepted_order hash dto key s =
     (case priceOrder dto (catalogue_answer s (map it_product (co_items dto))) of
        Inr (items, amount) \<Rightarrow>
          new_order (fresh_id s) key (fingerprintRequest hash dto) dto
            (case find (\<lambda>a. same_address (ad_address a) (trim (co_address dto))) (addresses s) of
               Some a \<Rightarrow> ad_location a)
            items amount (now s))"

lemma accept_creates_run:
  assumes ok: "acceptable s dto key" and I: "consistent s"
  shows "run (acceptOrder hash dto key) s =
    (Inr (OrderResponseDto_from (accepted_order hash dto key s)),
     s\<lparr>orders := orders s @ [accepted_order hash dto key s],
       outbox := outbox s @ [created_event (fresh_id s) (fresh_id s) (now s)]\<rparr>)"
proof -
  have calm: "calm s" and up: "db_link s = Up" and valid: "CreateOrderDto_valid dto"
    and cat: "in_catalogue s dto" and nokey: "lookup order_key (orders s) (ObjectId (co_customer dto), key) = None"
    and hex: "is_mongo_id (co_customer dto)"
    and noid: "order_of s (fresh_id s) = None" and noev: "lookup e_id (outbox s) (fresh_id s) = None"
    using ok by (simp_all add: acceptable_def calm_def CreateOrderDto_valid_def)
  obtain cu where cu: "lookup cu_id (customers s) (ObjectId (co_customer dto)) = Some cu"
    using ok by (auto simp: acceptable_def)
  obtain a where a: "find (\<lambda>a. same_address (ad_address a) (trim (co_address dto))) (addresses s) = Some a"
    using ok by (auto simp: acceptable_def)
  let ?found = "catalogue_answer s (map it_product (co_items dto))"
  have "\<forall>i \<in> set (co_items dto). \<exists>p \<in> set ?found. pr_id p = it_product i"
    using in_answer [OF cat] by blast
  then obtain items where items: "price_items (co_items dto) ?found = Inr items"
    using price_items_total by blast
  then have price: "priceOrder dto ?found = Inr (items, total_amount items)" by (simp add: priceOrder_def)
  let ?fp = "fingerprintRequest hash dto"
  let ?new = "new_order (fresh_id s) key ?fp dto (ad_location a) items (total_amount items)"
  have acc: "accepted_order hash dto key s = ?new (now s)"
    by (simp add: accepted_order_def price a)
  have "co_address dto \<noteq> []" using valid by (auto simp: CreateOrderDto_valid_def)
  from run_getCoordinates [OF calm this a]
  have place: "run (resolveCoordinates (co_address dto)) s = (Inr (ad_location a), s)"
    by (simp add: resolveCoordinates_def run_catching)
  have "lookup event_key (outbox s) (fresh_id s, ORDER_CREATED_EVENT) = None"
    using I noid unfolding consistent_def announced_def by blast
  then have event: "createOrderCreatedEvent (fresh_id s) s =
      Inr (outbox s @ [created_event (fresh_id s) (fresh_id s) (now s)])"
    using noev by (simp add: createOrderCreatedEvent_def Let_def insert_unique_def lookup_None created_event_def event_key_def)
  let ?t = "s\<lparr>orders := orders s @ [?new (now s)],
              outbox := outbox s @ [created_event (fresh_id s) (fresh_id s) (now s)]\<rparr>"
  have tx: "accept_tx ?new s = (Inr (), ?t)"
    using noid nokey event
    by (simp add: accept_tx_def insert_order_def insert_unique_def order_of_def lookup_None new_order_def order_key_def)
  have known: "order_of ?t (fresh_id s) = Some (?new (now s))"
    using noid by (simp add: order_of_def lookup_append new_order_def)
  have commit: "run (commit_order ?new (fresh_id s) (co_customer dto) key ?fp) s =
      (Inr (OrderResponseDto_from (?new (now s))), ?t)"
    using up tx known by (simp add: commit_order_def findById_def run_simps)
  show ?thesis
    using run_getCustomerById [OF calm hex cu] run_loadProducts [OF calm valid cat] place price commit nokey up
    by (simp add: acceptOrder_def Let_def findByIdempotencyKey_def run_await run_db_read run_sample acc)
qed

lemma accepted_parts:
  assumes "acceptable s dto key"
  shows "\<exists>loc items amount. priceOrder dto (catalogue_answer s (map it_product (co_items dto))) = Inr (items, amount)
    \<and> accepted_order hash dto key s =
        new_order (fresh_id s) key (fingerprintRequest hash dto) dto loc items amount (now s)"
proof -
  have cat: "in_catalogue s dto" using assms by (simp add: acceptable_def)
  obtain a where "find (\<lambda>a. same_address (ad_address a) (trim (co_address dto))) (addresses s) = Some a"
    using assms by (auto simp: acceptable_def)
  moreover obtain items where "price_items (co_items dto) (catalogue_answer s (map it_product (co_items dto))) = Inr items"
    using price_items_total in_answer [OF cat] by blast
  ultimately show ?thesis by (simp add: accepted_order_def priceOrder_def) blast
qed

lemma accepted_key:
  assumes "acceptable s dto key"
  shows "order_key (accepted_order hash dto key s) = (ObjectId (co_customer dto), key)"
    and "o_fingerprint (accepted_order hash dto key s) = fingerprintRequest hash dto"
  using accepted_parts [OF assms, of hash] by (auto simp: new_order_def order_key_def)

lemma accepted_shape:
  assumes ok: "acceptable s dto key" and prices: "\<forall>p \<in> set (products s). 0 \<le> pr_price p \<and> pr_price p \<le> MAX_PRICE"
  shows "\<exists>loc items. accepted_order hash dto key s =
      new_order (fresh_id s) key (fingerprintRequest hash dto) dto loc items (exact_total items) (now s)
    \<and> map oi_quantity items = map it_quantity (co_items dto)"
proof -
  obtain loc items amount where p: "priceOrder dto (catalogue_answer s (map it_product (co_items dto))) = Inr (items, amount)"
    and ord: "accepted_order hash dto key s =
      new_order (fresh_id s) key (fingerprintRequest hash dto) dto loc items amount (now s)"
    using accepted_parts [OF ok] by metis
  have "amount = exact_total items"
    using prices ok by (intro priced_total_exact [OF p]) (auto simp: acceptable_def catalogue_answer_def)
  moreover have "map oi_quantity items = map it_quantity (co_items dto)"
    using p price_items_shape by (fastforce simp: priceOrder_def split: sum.splits)
  ultimately show ?thesis using ord by blast
qed

text \<open>A request with a key already used by the customer.\<close>

lemma accept_replay_run:
  assumes up: "db_link s = Up" and known: "lookup order_key (orders s) (ObjectId (co_customer dto), key) = Some ord"
  shows "run (acceptOrder hash dto key) s =
    ((if o_fingerprint ord = fingerprintRequest hash dto then Inr (OrderResponseDto_from ord)
      else Inl (IdempotencyKeyReuseError (o_id ord))), s)"
  using assms by (simp add: acceptOrder_def Let_def findByIdempotencyKey_def run_await run_db_read resolveReplay_def)

section \<open>Dispatching\<close>

lemma run_update_event:
  "db_link s = Up \<Longrightarrow> run (update_event P f) s = (Inr (), s\<lparr>outbox := update_one P f (outbox s)\<rparr>)"
  by (simp add: update_event_def run_db)

text \<open>The queue takes the job: the event is dispatched.\<close>

lemma dispatch_run:
  assumes "db_link s = Up" and "queue_link s = Up"
  shows "run (dispatch outbox_impl add config settings eventId orderId attempts) s =
    (Inr True, s\<lparr>jobs := add (saga_job settings eventId orderId) (jobs s),
       outbox := update_one (\<lambda>e. e_id e = eventId)
         (\<lambda>e. e\<lparr>e_status := DISPATCHED, e_dispatched := Some (now s)\<rparr>) (outbox s)\<rparr>)"
  using assms
  by (simp add: dispatch_def queue_add_def run_await run_catching run_over outbox_impl_def markDispatched_def
      run_sample run_update_event)

text \<open>The queue is out of reach: back to \<open>NEW\<close> with twice the pause, or dead after the last attempt.\<close>

lemma dispatch_lost_run:
  assumes "db_link s = Up" and "queue_link s = RequestLost"
  shows "run (dispatch outbox_impl add config settings eventId orderId attempts) s =
    (Inr False, s\<lparr>outbox := update_one (\<lambda>e. e_id e = eventId)
       (if outbox_max_attempts config \<le> attempts
        then (\<lambda>e. e\<lparr>e_status := OUTBOX_FAILED, e_error := Some (exn_message net_error), e_claimed := None\<rparr>)
        else (\<lambda>e. e\<lparr>e_status := NEW, e_error := Some (exn_message net_error),
                    e_next_retry := now s + queue_backoff settings * 2 ^ nat (max 0 (attempts - 1)),
                    e_claimed := None\<rparr>)) (outbox s)\<rparr>)"
  using assms
  by (simp add: dispatch_def dispatch_failed_def queue_add_def run_await run_catching run_over outbox_impl_def
      markDead_def markRetry_def run_sample run_update_event getErrorMessage_def Let_def del: exn_message.simps)

section \<open>Listing\<close>

text \<open>The orders a query is about, latest first.\<close>

definition listed :: "list_orders_filter \<Rightarrow> world \<Rightarrow> order list" where
  "listed f s = sort_key (\<lambda>ord. - o_created ord) (filter (matches_filter f) (orders s))"

lemma run_listOrders:
  assumes "db_link s = Up"
  shows "run (listOrders f) s =
    (Inr \<lparr>po_items = map OrderResponseDto_from (take (lf_limit f) (drop ((lf_page f - 1) * lf_limit f) (listed f s))),
          po_total = length (listed f s), po_page = lf_page f, po_limit = lf_limit f\<rparr>, s)"
  using assms by (simp add: listOrders_def list_orders_def run_await run_db_read listed_def)

lemma listed_page [simp]: "listed (f\<lparr>lf_page := p\<rparr>) s = listed f s"
  by (simp add: listed_def matches_filter_def [abs_def])

text \<open>The pages one after the other are the whole.\<close>

lemma pages_append: "concat (map (\<lambda>p. take n (drop ((p - 1) * n) xs)) [1..<Suc k]) = take (k * n) xs"
proof (induction k)
  case (Suc k)
  have "concat (map (\<lambda>p. take n (drop ((p - 1) * n) xs)) [1..<Suc (Suc k)]) =
      concat (map (\<lambda>p. take n (drop ((p - 1) * n) xs)) [1..<Suc k]) @ take n (drop (k * n) xs)"
    by simp
  then show ?case unfolding Suc.IH by (simp add: take_add [symmetric] add.commute)
qed simp

section \<open>Reserving at the nearest warehouse\<close>

text \<open>The candidates nearer than the chosen one, in the order the database gives them.\<close>

lemma nearest_first:
  assumes "nearest_sufficient loc items s = Some c"
  shows "\<exists>nearer farther. aggregate_warehouses loc items s = nearer @ c # farther \<and> hasSufficientStock c items
    \<and> (\<forall>d \<in> set nearer. \<not> hasSufficientStock d items)"
proof -
  have "\<exists>ys zs. xs = ys @ c # zs \<and> P c \<and> (\<forall>d \<in> set ys. \<not> P d)" if "find P xs = Some c" for P and xs
    using that
  proof (induction xs)
    case (Cons x xs)
    show ?case
    proof (cases "P x")
      case False
      with Cons obtain ys zs where "xs = ys @ c # zs" "P c" "\<forall>d \<in> set ys. \<not> P d" by auto
      with False show ?thesis by (intro exI [of _ "x # ys"] exI [of _ zs]) simp
    qed (use Cons.prems in \<open>intro exI [of _ "[]"] exI [of _ xs], simp\<close>)
  qed simp
  with assms show ?thesis unfolding nearest_sufficient_def by blast
qed

lemma reserve_tx_level:
  assumes "reserve_tx oid w items s = (Inr True, t)" and "distinct (map stock_key (stock s))"
  shows "level (stock t) v p = level (stock s) v p - (if v = w then item_quantity p items else 0)"
  using assms decrement_items_level by (auto simp: reserve_tx_def split: sum.splits)

end
