(* ===== verification/Config.thy ===== *)
theory Config
  imports Model Numbers
begin

text \<open>
  Reading the environment. \<open>config/env.validation.ts\<close> checks it once at start-up;
  \<open>config/orders.config.ts\<close>, \<open>queue.config.ts\<close> and \<open>payment.config.ts\<close> read it again, on
  their own, for the values the program then uses. The environment is what
  \<open>process.env\<close> has for a name, \<open>Number\<close> the language's conversion of text.
\<close>

section \<open>Number\<close>

text \<open>
  The finite number a text denotes; \<open>None\<close> is \<open>NaN\<close> or an infinity. White space around it
  does not count and no text at all is zero.
\<close>

definition hex_digit :: "char \<Rightarrow> nat" where
  "hex_digit c = (let n = of_char (lower c) :: nat in if n < 58 then n - 48 else n - 87)"

definition read_radix :: "nat \<Rightarrow> string \<Rightarrow> rat option" where
  "read_radix base v =
     (if v = [] \<or> \<not> list_all (\<lambda>c. is_hex c \<and> hex_digit c < base) v then None
      else Some (of_nat (foldl (\<lambda>n c. base * n + hex_digit c) 0 v)))"

definition read_exponent :: "string \<Rightarrow> int option" where
  "read_exponent v =
     (case v of
        [] \<Rightarrow> Some 0
      | c # rest \<Rightarrow>
          if lower c \<noteq> CHR ''e'' then None
          else (let negative = (rest \<noteq> [] \<and> hd rest = CHR ''-'');
                    digits = (if rest \<noteq> [] \<and> hd rest \<in> {CHR ''-'', CHR ''+''} then tl rest else rest)
                in if digits = [] \<or> \<not> list_all is_digit digits then None
                   else Some (if negative then - int (read_nat digits) else int (read_nat digits))))"

definition scaled :: "nat \<Rightarrow> int \<Rightarrow> rat" where
  "scaled n e = (if 0 \<le> e then of_nat n * 10 ^ nat e else of_nat n / 10 ^ nat (- e))"

definition read_decimal :: "string \<Rightarrow> rat option" where
  "read_decimal v =
     (let whole = takeWhile is_digit v; rest = dropWhile is_digit v;
          dotted = (rest \<noteq> [] \<and> hd rest = CHR ''.'');
          frac = (if dotted then takeWhile is_digit (tl rest) else []);
          tail = (if dotted then dropWhile is_digit (tl rest) else rest)
      in if whole = [] \<and> frac = [] then None
         else map_option (\<lambda>e. scaled (read_nat (whole @ frac)) (e - int (length frac))) (read_exponent tail))"

definition finite_double :: "rat \<Rightarrow> rat option" where
  "finite_double x = (let d = double x in if \<bar>d\<bar> < 2 ^ 1024 then Some d else None)"

definition js_number :: "string \<Rightarrow> rat option" where
  "js_number text =
     (case trim text of
        [] \<Rightarrow> Some 0
      | c # rest \<Rightarrow>
          if c = CHR ''0'' \<and> rest \<noteq> [] \<and> lower (hd rest) = CHR ''x'' then Option.bind (read_radix 16 (tl rest)) finite_double
          else if c = CHR ''0'' \<and> rest \<noteq> [] \<and> lower (hd rest) = CHR ''o'' then Option.bind (read_radix 8 (tl rest)) finite_double
          else if c = CHR ''0'' \<and> rest \<noteq> [] \<and> lower (hd rest) = CHR ''b'' then Option.bind (read_radix 2 (tl rest)) finite_double
          else if c = CHR ''-'' then map_option uminus (Option.bind (read_decimal rest) finite_double)
          else if c = CHR ''+'' then Option.bind (read_decimal rest) finite_double
          else Option.bind (read_decimal (c # rest)) finite_double)"

section \<open>The contract of the environment (env.validation.ts)\<close>

text \<open>
  One rule per variable: text that must be there, text with a default, a whole number with
  a default and a least value, a rate between 0 and 1, a flag. A transformed value of
  \<open>undefined\<close> leaves the default in place.
\<close>

datatype env_rule =
    Required
  | Text string
  | Whole int "int option"
  | Rate rat
  | Flag bool

datatype env_value = TextValue string | NumberValue rat | FlagValue bool

definition EnvironmentVariables :: "(string \<times> env_rule) list" where
  "EnvironmentVariables =
     [(''MONGO_URI'', Required), (''REDIS_URI'', Text ''redis://127.0.0.1:6379''), (''PORT'', Whole 3000 None),
      (''PSP_BASE_URL'', Required), (''CUSTOMER_BASE_URL'', Required),
      (''GEOCODING_BASE_URL'', Required), (''CATALOG_BASE_URL'', Required),
      (''ORDER_OUTBOX_POLL_INTERVAL_MS'', Whole 1000 (Some 50)),
      (''ORDER_OUTBOX_BATCH_SIZE'', Whole 100 (Some 1)),
      (''ORDER_OUTBOX_CLAIM_TIMEOUT_MS'', Whole 30000 (Some 1000)),
      (''ORDER_OUTBOX_MAX_ATTEMPTS'', Whole 10 (Some 1)), (''ORDER_OUTBOX_ENABLED'', Flag True),
      (''ORDER_SAGA_CONCURRENCY'', Whole 5 (Some 1)), (''ORDER_SAGA_ATTEMPTS'', Whole 5 (Some 1)),
      (''ORDER_SAGA_BACKOFF_MS'', Whole 1000 (Some 100)), (''ORDER_SAGA_WORKER_ENABLED'', Flag True),
      (''ORDER_STALE_AFTER_MS'', Whole 300000 (Some 1000)), (''ORDER_SWEEP_LEASE_MS'', Whole 60000 (Some 1000)),
      (''ORDER_SWEEP_BATCH_SIZE'', Whole 50 (Some 1)), (''ORDER_SWEEPER_ENABLED'', Flag True),
      (''PAYMENT_LATENCY_MS'', Whole 0 (Some 0)),
      (''PAYMENT_FAILURE_RATE'', Rate 0), (''PAYMENT_LOST_RESPONSE_RATE'', Rate 0)]"

definition toNumber :: "string option \<Rightarrow> rat option option" where
  "toNumber v = (case v of None \<Rightarrow> None | Some text \<Rightarrow> if text = [] then None else Some (js_number text))"

definition toBool :: "string option \<Rightarrow> bool option" where
  "toBool v =
     (case v of None \<Rightarrow> None
      | Some text \<Rightarrow> if text = [] then None else Some (map lower text = ''true''))"

definition env_check :: "env_rule \<Rightarrow> string option \<Rightarrow> env_value option" where
  "env_check rule v =
     (case rule of
        Required \<Rightarrow> map_option TextValue v
      | Text preset \<Rightarrow> Some (TextValue (case v of None \<Rightarrow> preset | Some text \<Rightarrow> text))
      | Whole preset least \<Rightarrow>
          (case toNumber v of
             None \<Rightarrow> Some (NumberValue (of_int preset))
           | Some None \<Rightarrow> None
           | Some (Some x) \<Rightarrow>
               if of_int \<lfloor>x\<rfloor> = x \<and> (case least of None \<Rightarrow> True | Some n \<Rightarrow> of_int n \<le> x)
               then Some (NumberValue x) else None)
      | Rate preset \<Rightarrow>
          (case toNumber v of
             None \<Rightarrow> Some (NumberValue preset)
           | Some None \<Rightarrow> None
           | Some (Some x) \<Rightarrow> if 0 \<le> x \<and> x \<le> 1 then Some (NumberValue x) else None)
      | Flag preset \<Rightarrow> Some (FlagValue (case toBool v of None \<Rightarrow> preset | Some b \<Rightarrow> b)))"

text \<open>The names of the variables in error, or the validated values.\<close>

definition validateEnv :: "(string \<Rightarrow> string option) \<Rightarrow> string list + (string \<Rightarrow> env_value option)" where
  "validateEnv env =
     (let errors = map fst (filter (\<lambda>(name, rule). env_check rule (env name) = None) EnvironmentVariables)
      in if errors \<noteq> [] then Inl errors
         else Inr (\<lambda>name. Option.bind (map_of EnvironmentVariables name) (\<lambda>rule. env_check rule (env name))))"

section \<open>The values the program uses\<close>

text \<open>
  \<open>Number(process.env.X ?? d)\<close> and \<open>(process.env.X ?? 'true').toLowerCase() === 'true'\<close>. A
  default that is a number converts to itself.
\<close>

definition env_number :: "(string \<Rightarrow> string option) \<Rightarrow> string \<Rightarrow> rat \<Rightarrow> rat option" where
  "env_number env name preset = (case env name of None \<Rightarrow> Some preset | Some text \<Rightarrow> js_number text)"

definition env_flag :: "(string \<Rightarrow> string option) \<Rightarrow> string \<Rightarrow> bool" where
  "env_flag env name = (map lower (case env name of None \<Rightarrow> ''true'' | Some text \<Rightarrow> text) = ''true'')"

text \<open>The whole number of a setting; the records have none for \<open>NaN\<close> or a fraction.\<close>

definition env_int :: "(string \<Rightarrow> string option) \<Rightarrow> string \<Rightarrow> int \<Rightarrow> int option" where
  "env_int env name preset =
     (case env_number env name (of_int preset) of
        None \<Rightarrow> None
      | Some x \<Rightarrow> if of_int \<lfloor>x\<rfloor> = x then Some \<lfloor>x\<rfloor> else None)"

text \<open>A loop \<open>for (i = 0; i < batchSize; i++)\<close> runs not at all for a negative bound.\<close>

definition ordersConfig :: "(string \<Rightarrow> string option) \<Rightarrow> orders_config option" where
  "ordersConfig env =
     Option.bind (env_int env ''ORDER_OUTBOX_POLL_INTERVAL_MS'' 1000) (\<lambda>poll.
     Option.bind (env_int env ''ORDER_OUTBOX_BATCH_SIZE'' 100) (\<lambda>batch.
     Option.bind (env_int env ''ORDER_OUTBOX_CLAIM_TIMEOUT_MS'' 30000) (\<lambda>claim.
     Option.bind (env_int env ''ORDER_OUTBOX_MAX_ATTEMPTS'' 10) (\<lambda>attempts.
     Option.bind (env_int env ''ORDER_STALE_AFTER_MS'' 300000) (\<lambda>stale_after.
     Option.bind (env_int env ''ORDER_SWEEP_LEASE_MS'' 60000) (\<lambda>sweep_lease_ms.
     Option.bind (env_int env ''ORDER_SWEEP_BATCH_SIZE'' 50) (\<lambda>sweep_batch_size.
     Some \<lparr>outbox_poll_interval = poll, outbox_batch_size = nat batch, outbox_claim_timeout = claim,
           outbox_max_attempts = attempts, outbox_enabled = env_flag env ''ORDER_OUTBOX_ENABLED'',
           sweeper_stale_after = stale_after, sweeper_lease = sweep_lease_ms,
           sweeper_batch_size = nat sweep_batch_size, sweeper_enabled = env_flag env ''ORDER_SWEEPER_ENABLED''\<rparr>)))))))"

definition queueConfig :: "(string \<Rightarrow> string option) \<Rightarrow> queue_config option" where
  "queueConfig env =
     Option.bind (env_int env ''ORDER_SAGA_CONCURRENCY'' 5) (\<lambda>concurrency.
     Option.bind (env_int env ''ORDER_SAGA_ATTEMPTS'' 5) (\<lambda>attempts.
     Option.bind (env_int env ''ORDER_SAGA_BACKOFF_MS'' 1000) (\<lambda>backoff.
     Some \<lparr>redis_uri = (case env ''REDIS_URI'' of None \<Rightarrow> ''redis://127.0.0.1:6379'' | Some uri \<Rightarrow> uri),
           queue_concurrency = concurrency, queue_attempts = attempts, queue_backoff = backoff,
           worker_enabled = env_flag env ''ORDER_SAGA_WORKER_ENABLED''\<rparr>)))"

definition paymentConfig :: "(string \<Rightarrow> string option) \<Rightarrow> payment_config option" where
  "paymentConfig env =
     Option.bind (env_int env ''PAYMENT_LATENCY_MS'' 0) (\<lambda>latency.
     Option.bind (env_number env ''PAYMENT_FAILURE_RATE'' 0) (\<lambda>failure.
     Option.bind (env_number env ''PAYMENT_LOST_RESPONSE_RATE'' 0) (\<lambda>lost.
     Some \<lparr>latency_ms = latency, failure_rate = failure, lost_response_rate = lost\<rparr>)))"

section \<open>The two readings agree\<close>

text \<open>On everything but a variable set to no text, which validation takes for unset and the readers do not.\<close>

lemma env_check_whole:
  assumes "env_check (Whole preset least) (env name) = Some v" and "env name \<noteq> Some []"
    and "\<And>n. least = Some n \<Longrightarrow> n \<le> preset"
  shows "\<exists>i. env_int env name preset = Some i \<and> v = NumberValue (of_int i) \<and> (\<forall>n. least = Some n \<longrightarrow> n \<le> i)"
  using assms
  by (cases "env name"; cases least)
    (auto simp: env_check_def toNumber_def env_int_def env_number_def le_floor_iff split: option.splits if_splits)

lemma env_check_rate:
  assumes "env_check (Rate preset) (env name) = Some v" and "env name \<noteq> Some []" and "0 \<le> preset" "preset \<le> 1"
  shows "\<exists>x. env_number env name preset = Some x \<and> v = NumberValue x \<and> 0 \<le> x \<and> x \<le> 1"
  using assms
  by (cases "env name") (auto simp: env_check_def toNumber_def env_number_def split: option.splits if_splits)

lemma env_check_flag:
  assumes "env_check (Flag True) (env name) = Some v" and "env name \<noteq> Some []"
  shows "v = FlagValue (env_flag env name)"
  using assms by (cases "env name") (auto simp: env_check_def toBool_def env_flag_def lower_def Let_def)

lemma validateEnv_values:
  assumes "validateEnv env = Inr vals" and "map_of EnvironmentVariables name = Some rule"
  shows "vals name = env_check rule (env name) \<and> env_check rule (env name) \<noteq> None"
proof -
  have "(name, rule) \<in> set EnvironmentVariables" using assms(2) by (rule map_of_SomeD)
  moreover have none: "filter (\<lambda>(name, rule). env_check rule (env name) = None) EnvironmentVariables = []"
    and vals: "vals = (\<lambda>name. Option.bind (map_of EnvironmentVariables name) (\<lambda>rule. env_check rule (env name)))"
    using assms(1) by (auto simp: validateEnv_def Let_def split: if_splits)
  ultimately show ?thesis using assms(2) by (auto simp: filter_empty_conv)
qed

lemma rules:
  "map_of EnvironmentVariables ''ORDER_OUTBOX_POLL_INTERVAL_MS'' = Some (Whole 1000 (Some 50))"
  "map_of EnvironmentVariables ''ORDER_OUTBOX_BATCH_SIZE'' = Some (Whole 100 (Some 1))"
  "map_of EnvironmentVariables ''ORDER_OUTBOX_CLAIM_TIMEOUT_MS'' = Some (Whole 30000 (Some 1000))"
  "map_of EnvironmentVariables ''ORDER_OUTBOX_MAX_ATTEMPTS'' = Some (Whole 10 (Some 1))"
  "map_of EnvironmentVariables ''ORDER_OUTBOX_ENABLED'' = Some (Flag True)"
  "map_of EnvironmentVariables ''ORDER_STALE_AFTER_MS'' = Some (Whole 300000 (Some 1000))"
  "map_of EnvironmentVariables ''ORDER_SWEEP_LEASE_MS'' = Some (Whole 60000 (Some 1000))"
  "map_of EnvironmentVariables ''ORDER_SWEEP_BATCH_SIZE'' = Some (Whole 50 (Some 1))"
  "map_of EnvironmentVariables ''ORDER_SWEEPER_ENABLED'' = Some (Flag True)"
  "map_of EnvironmentVariables ''PAYMENT_LATENCY_MS'' = Some (Whole 0 (Some 0))"
  "map_of EnvironmentVariables ''PAYMENT_FAILURE_RATE'' = Some (Rate 0)"
  "map_of EnvironmentVariables ''PAYMENT_LOST_RESPONSE_RATE'' = Some (Rate 0)"
  by (simp_all add: EnvironmentVariables_def)

text \<open>A validated number, as the readers get it.\<close>

lemma validated_whole:
  assumes "validateEnv env = Inr vals" and "env name \<noteq> Some []"
    and "map_of EnvironmentVariables name = Some (Whole preset (Some least))" and "least \<le> preset"
  obtains i where "env_int env name preset = Some i" and "vals name = Some (NumberValue (of_int i))" and "least \<le> i"
  using validateEnv_values [OF assms(1,3)] env_check_whole [of preset "Some least" env name] assms(2,4)
  by (cases "env_check (Whole preset (Some least)) (env name)") auto

lemma validated_rate:
  assumes "validateEnv env = Inr vals" and "env name \<noteq> Some []" and "map_of EnvironmentVariables name = Some (Rate 0)"
  obtains x where "env_number env name 0 = Some x" and "vals name = Some (NumberValue x)" and "0 \<le> x" "x \<le> 1"
  using validateEnv_values [OF assms(1,3)] env_check_rate [of 0 env name] assms(2)
  by (cases "env_check (Rate 0) (env name)") auto

lemma validated_flag:
  assumes "validateEnv env = Inr vals" and "env name \<noteq> Some []" and "map_of EnvironmentVariables name = Some (Flag True)"
  shows "vals name = Some (FlagValue (env_flag env name))"
  using validateEnv_values [OF assms(1,3)] env_check_flag [of env name] assms(2) by auto

lemma ordersConfig_agrees:
  assumes vals: "validateEnv env = Inr vals" and set: "\<And>name. env name \<noteq> Some []"
  shows "\<exists>c. ordersConfig env = Some c
    \<and> vals ''ORDER_OUTBOX_POLL_INTERVAL_MS'' = Some (NumberValue (of_int (outbox_poll_interval c))) \<and> 50 \<le> outbox_poll_interval c
    \<and> vals ''ORDER_OUTBOX_BATCH_SIZE'' = Some (NumberValue (of_nat (outbox_batch_size c))) \<and> 1 \<le> outbox_batch_size c
    \<and> vals ''ORDER_OUTBOX_CLAIM_TIMEOUT_MS'' = Some (NumberValue (of_int (outbox_claim_timeout c))) \<and> 1000 \<le> outbox_claim_timeout c
    \<and> vals ''ORDER_OUTBOX_MAX_ATTEMPTS'' = Some (NumberValue (of_int (outbox_max_attempts c))) \<and> 1 \<le> outbox_max_attempts c
    \<and> vals ''ORDER_OUTBOX_ENABLED'' = Some (FlagValue (outbox_enabled c))
    \<and> vals ''ORDER_STALE_AFTER_MS'' = Some (NumberValue (of_int (sweeper_stale_after c))) \<and> 1000 \<le> sweeper_stale_after c
    \<and> vals ''ORDER_SWEEP_LEASE_MS'' = Some (NumberValue (of_int (sweeper_lease c))) \<and> 1000 \<le> sweeper_lease c
    \<and> vals ''ORDER_SWEEP_BATCH_SIZE'' = Some (NumberValue (of_nat (sweeper_batch_size c))) \<and> 1 \<le> sweeper_batch_size c
    \<and> vals ''ORDER_SWEEPER_ENABLED'' = Some (FlagValue (sweeper_enabled c))"
proof -
  note whole = validated_whole [OF vals set]
  obtain poll where poll: "env_int env ''ORDER_OUTBOX_POLL_INTERVAL_MS'' 1000 = Some poll"
    "vals ''ORDER_OUTBOX_POLL_INTERVAL_MS'' = Some (NumberValue (of_int poll))" "50 \<le> poll"
    by (rule whole [OF rules(1)]) simp
  obtain batch where batch: "env_int env ''ORDER_OUTBOX_BATCH_SIZE'' 100 = Some batch"
    "vals ''ORDER_OUTBOX_BATCH_SIZE'' = Some (NumberValue (of_int batch))" "1 \<le> batch"
    by (rule whole [OF rules(2)]) simp
  obtain claim where claim: "env_int env ''ORDER_OUTBOX_CLAIM_TIMEOUT_MS'' 30000 = Some claim"
    "vals ''ORDER_OUTBOX_CLAIM_TIMEOUT_MS'' = Some (NumberValue (of_int claim))" "1000 \<le> claim"
    by (rule whole [OF rules(3)]) simp
  obtain most where most: "env_int env ''ORDER_OUTBOX_MAX_ATTEMPTS'' 10 = Some most"
    "vals ''ORDER_OUTBOX_MAX_ATTEMPTS'' = Some (NumberValue (of_int most))" "1 \<le> most"
    by (rule whole [OF rules(4)]) simp
  obtain after where after: "env_int env ''ORDER_STALE_AFTER_MS'' 300000 = Some after"
    "vals ''ORDER_STALE_AFTER_MS'' = Some (NumberValue (of_int after))" "1000 \<le> after"
    by (rule whole [OF rules(6)]) simp
  obtain period where period: "env_int env ''ORDER_SWEEP_LEASE_MS'' 60000 = Some period"
    "vals ''ORDER_SWEEP_LEASE_MS'' = Some (NumberValue (of_int period))" "1000 \<le> period"
    by (rule whole [OF rules(7)]) simp
  obtain swept where swept: "env_int env ''ORDER_SWEEP_BATCH_SIZE'' 50 = Some swept"
    "vals ''ORDER_SWEEP_BATCH_SIZE'' = Some (NumberValue (of_int swept))" "1 \<le> swept"
    by (rule whole [OF rules(8)]) simp
  have nat: "of_nat (nat i) = (of_int i :: rat)" if "1 \<le> i" for i
    using that by (metis nat_0_le of_int_of_nat_eq order_trans zero_le_one)
  show ?thesis
    using poll batch claim most after period swept nat [OF batch(3)] nat [OF swept(3)]
      validated_flag [OF vals set rules(5)] validated_flag [OF vals set rules(9)]
    by (simp add: ordersConfig_def le_nat_iff)
qed

end
