(* ===== verification/Scenarios.thy ===== *)
theory Scenarios
  imports Acceptance Config
begin

text \<open>
  A small concrete world on which the witnesses evaluate the program: one customer with a
  card, one product, two warehouses of which only the second has enough stock, one address,
  no order yet. From it, executions of the interleaved system that reach each outcome; and a
  small environment for the configuration.
\<close>

section \<open>Executions that run one process after the other\<close>

lemma turns:
  assumes "i < length (processes g)" and "run (processes g ! i) (world_of g) = (r, t)"
  shows "\<exists>q. (step c)\<^sup>*\<^sup>* g (g\<lparr>world_of := t, processes := (processes g)[i := q]\<rparr>)"
  using assms
proof (induction "processes g ! i" arbitrary: g)
  case (Atom f)
  obtain u p where f: "f (world_of g) = (u, p)" by (cases "f (world_of g)")
  let ?h = "g\<lparr>world_of := u, processes := (processes g)[i := p]\<rparr>"
  have h: "step c g ?h"
    by (rule step.turn [OF Atom.prems(1) Atom.hyps(2) [symmetric] f])
  have "run p u = (r, t)" using Atom.hyps(2) [symmetric] Atom.prems(2) f by simp
  then have "\<exists>q. (step c)\<^sup>*\<^sup>* ?h (?h\<lparr>world_of := t, processes := (processes ?h)[i := q]\<rparr>)"
    using Atom.hyps(1) [OF range_pair [of f "world_of g", OF f], of ?h] Atom.prems(1) by simp
  with h show ?case
    by (auto intro: converse_rtranclp_into_rtranclp)
next
  case (Return a)
  then have "g\<lparr>world_of := t, processes := (processes g)[i := processes g ! i]\<rparr> = g"
    by (metis list_update_id prod.inject run.simps(1) system.surjective system.update_convs(2,3))
  then show ?case by (metis rtranclp.rtrancl_refl)
next
  case (Throw e)
  then have "g\<lparr>world_of := t, processes := (processes g)[i := processes g ! i]\<rparr> = g"
    by (metis list_update_id prod.inject run.simps(2) system.surjective system.update_convs(2,3))
  then show ?case by (metis rtranclp.rtrancl_refl)
qed

lemma steps_run:
  assumes "run (activity_program c act) (world_of g) = (r, t)"
  shows "\<exists>h. (step c)\<^sup>*\<^sup>* g h \<and> world_of h = t"
proof -
  let ?g = "g\<lparr>processes := processes g @ [activity_program c act]\<rparr>"
  have "step c g ?g" by (rule step.spawn)
  moreover obtain q where "(step c)\<^sup>*\<^sup>* ?g (?g\<lparr>world_of := t, processes := (processes ?g)[length (processes g) := q]\<rparr>)"
    using turns [of "length (processes g)" ?g r t c] assms by auto
  ultimately show ?thesis
    by (intro exI [of _ "?g\<lparr>world_of := t, processes := (processes ?g)[length (processes g) := q]\<rparr>"])
      (auto intro: converse_rtranclp_into_rtranclp)
qed

lemma reach_run:
  assumes "reachable c s g" and "run (activity_program c act) (world_of g) = (r, t)"
  shows "\<exists>h. reachable c s h \<and> world_of h = t"
  using assms(1) steps_run [OF assms(2)] unfolding reachable_def by (blast intro: rtranclp_trans)

lemma run_forget: "run p s = (Inr a, t) \<Longrightarrow> run (forget p) s = (Inr (), t)"
  by (simp add: forget_def run_await)

section \<open>The example\<close>

definition demo_point :: coordinates where
  "demo_point = \<lparr>latitude = 0, longitude = 0\<rparr>"

definition demo_product :: object_id where
  "demo_product = ''aaaaaaaaaaaaaaaaaaaaaaaa''"

definition demo_customer :: object_id where
  "demo_customer = ''cccccccccccccccccccccccc''"

definition demo_world :: "card_status \<Rightarrow> int \<Rightarrow> world" where
  "demo_world status amount =
     \<lparr>orders = [],
      stock = [\<lparr>s_warehouse = ''w1'', s_product = demo_product, s_quantity = 1\<rparr>,
               \<lparr>s_warehouse = ''w2'', s_product = demo_product, s_quantity = amount\<rparr>],
      movements = [], outbox = [], charges = [],
      warehouses = [\<lparr>w_id = ''w1'', w_location = demo_point\<rparr>, \<lparr>w_id = ''w2'', w_location = demo_point\<rparr>],
      cards = [\<lparr>cc_id = ''k1'', cc_number = ''4242'', cc_status = status, cc_reason = None\<rparr>],
      customers = [\<lparr>cu_id = demo_customer, cu_name = ''Ada'', cu_card = ''4242''\<rparr>],
      products = [\<lparr>pr_id = demo_product, pr_name = ''Kettle'', pr_description = None, pr_price = 12\<rparr>],
      addresses = [\<lparr>ad_id = ''d1'', ad_address = ''Chicago'', ad_location = demo_point\<rparr>],
      jobs = [], now = 1000, db_link = Up, http_link = Up, queue_link = Up, random = 1 / 2, uuid = ''u1'',
      fresh_id = ''o1'', id_valid = is_mongo_id, geo_near = (\<lambda>_ ws. ws),
      payment_settings = \<lparr>latency_ms = 0, failure_rate = 0, lost_response_rate = 0\<rparr>, relays_running = []\<rparr>"

definition demo_request :: create_order_dto where
  "demo_request = \<lparr>co_customer = demo_customer, co_address = ''Chicago'',
     co_items = [\<lparr>it_product = demo_product, it_quantity = 2\<rparr>]\<rparr>"

definition demo_setting :: setting where
  "demo_setting =
     \<lparr>sha256 = (\<lambda>v. v), enqueue = (\<lambda>j js. js @ [j]),
      orders_settings = \<lparr>outbox_poll_interval = 1000, outbox_batch_size = 100, outbox_claim_timeout = 30000,
        outbox_max_attempts = 10, outbox_enabled = True, sweeper_stale_after = 300000, sweeper_lease = 60000,
        sweeper_batch_size = 50, sweeper_enabled = True\<rparr>,
      queue_settings = \<lparr>redis_uri = ''redis://127.0.0.1:6379'', queue_concurrency = 5, queue_attempts = 5, queue_backoff = 1000, worker_enabled = True\<rparr>\<rparr>"

lemma demo_valid: "CreateOrderDto_valid demo_request"
  by code_simp

lemma demo_ids: "ObjectId demo_product = demo_product" "ObjectId demo_customer = demo_customer"
  "is_mongo_id demo_customer"
  by code_simp+

lemma demo_address: "same_address ''Chicago'' (trim ''Chicago'')"
  by code_simp

lemma demo_fresh: "0 \<le> n \<Longrightarrow> fresh_database (demo_world st n)"
  by (simp add: fresh_database_def demo_world_def stock_key_def)

lemma demo_acceptable_key: "acceptable (demo_world st n) demo_request key"
  using demo_valid demo_ids demo_address
  by (simp add: acceptable_def calm_def in_catalogue_def demo_world_def demo_request_def order_of_def)

lemmas demo_acceptable = demo_acceptable_key [where key = "''k''"]

definition demo_order :: "card_status \<Rightarrow> int \<Rightarrow> order" where
  "demo_order st n = accepted_order (\<lambda>v. v) demo_request ''k'' (demo_world st n)"

definition demo_accepted :: "card_status \<Rightarrow> int \<Rightarrow> world" where
  "demo_accepted st n = (demo_world st n)\<lparr>orders := [demo_order st n], outbox := [created_event ''o1'' ''o1'' 1000]\<rparr>"

lemma twelve: "toMinorUnits 12 = 1200"
proof -
  have "\<lfloor>2401 / 2 :: rat\<rfloor> = 1200" by (rule floor_unique) simp_all
  then show ?thesis using double_int [of 1200] by (simp add: toMinorUnits_def num_mul_def math_round_def)
qed

lemma demo_order_simps [simp]:
  "o_id (demo_order st n) = ''o1''" "o_status (demo_order st n) = PENDING" "o_total (demo_order st n) = 2400"
  "o_customer (demo_order st n) = demo_customer" "o_coordinates (demo_order st n) = demo_point"
  "o_items (demo_order st n) = [\<lparr>oi_product = demo_product, oi_quantity = 2, oi_unit_price = 1200\<rparr>]"
  "o_key (demo_order st n) = ''k''" "o_updated (demo_order st n) = 1000" "o_sweep_lease (demo_order st n) = None"
  "o_fingerprint (demo_order st n) = fingerprintRequest (\<lambda>v. v) demo_request"
proof -
  have "total_amount [\<lparr>oi_product = demo_product, oi_quantity = 2, oi_unit_price = 1200\<rparr>] = 2400"
    using total_amount_exact [of "[\<lparr>oi_product = demo_product, oi_quantity = 2, oi_unit_price = 1200\<rparr>]"]
    by (simp add: exact_total_def)
  then have "priceOrder demo_request (catalogue_answer (demo_world st n) (map it_product (co_items demo_request))) =
    Inr ([\<lparr>oi_product = demo_product, oi_quantity = 2, oi_unit_price = 1200\<rparr>], 2400)"
    using demo_ids twelve by (simp add: priceOrder_def catalogue_answer_def demo_world_def demo_request_def)
  then have "demo_order st n = new_order ''o1'' ''k'' (fingerprintRequest (\<lambda>v. v) demo_request) demo_request demo_point
      [\<lparr>oi_product = demo_product, oi_quantity = 2, oi_unit_price = 1200\<rparr>] 2400 1000"
    using demo_address by (simp add: demo_order_def accepted_order_def demo_world_def demo_request_def)
  then show "o_id (demo_order st n) = ''o1''" "o_status (demo_order st n) = PENDING" "o_total (demo_order st n) = 2400"
    "o_customer (demo_order st n) = demo_customer" "o_coordinates (demo_order st n) = demo_point"
    "o_items (demo_order st n) = [\<lparr>oi_product = demo_product, oi_quantity = 2, oi_unit_price = 1200\<rparr>]"
    "o_key (demo_order st n) = ''k''" "o_updated (demo_order st n) = 1000" "o_sweep_lease (demo_order st n) = None"
    "o_fingerprint (demo_order st n) = fingerprintRequest (\<lambda>v. v) demo_request"
    using demo_ids by (simp_all add: new_order_def demo_request_def)
qed

lemma demo_accepts:
  assumes "0 \<le> n"
  shows "\<exists>g. reachable demo_setting (demo_world st n) g \<and> world_of g = demo_accepted st n"
proof -
  have "extractIdempotencyKey [''k''] = Inr ''k''" by code_simp
  then have "run (orders_create (\<lambda>v. v) [''k''] demo_request) (demo_world st n) =
      (Inr (OrderResponseDto_from (demo_order st n)), demo_accepted st n)"
    using accept_creates_run [OF demo_acceptable fresh_consistent [OF demo_fresh [OF assms]], of "\<lambda>v. v" st]
    by (simp add: orders_create_def demo_valid demo_order_def demo_accepted_def)
      (simp add: demo_world_def)
  from run_forget [OF this]
  have "run (activity_program demo_setting (CreateOrder [''k''] demo_request)) (world_of (start (demo_world st n))) =
      (Inr (), demo_accepted st n)"
    by (simp add: demo_setting_def start_def)
  from reach_run [OF _ this, of "demo_world st n"] show ?thesis by (simp add: reachable_def)
qed

lemma demo_pending:
  assumes "0 \<le> n"
  shows "at_status (demo_accepted st n) ''o1'' (demo_order st n) PENDING" and "calm (demo_accepted st n)"
proof -
  obtain g where "reachable demo_setting (demo_world st n) g" and w: "world_of g = demo_accepted st n"
    using demo_accepts [OF assms] by blast
  from reachable_sound(2) [OF this(1) demo_fresh [OF assms]] w
  show "at_status (demo_accepted st n) ''o1'' (demo_order st n) PENDING"
    by (simp add: at_status_def) (simp add: order_of_def demo_accepted_def)
  show "calm (demo_accepted st n)" by (simp add: demo_accepted_def demo_world_def calm_def)
qed

definition demo_candidate :: "int \<Rightarrow> warehouse_with_stock" where
  "demo_candidate n = \<lparr>ws_id = ''w2'', ws_stock = [\<lparr>s_warehouse = ''w2'', s_product = demo_product, s_quantity = n\<rparr>]\<rparr>"

lemma demo_buyer: "lookup cu_id (customers (demo_accepted st n)) (ObjectId demo_customer) =
    Some \<lparr>cu_id = demo_customer, cu_name = ''Ada'', cu_card = ''4242''\<rparr>"
  using demo_ids by (simp add: demo_accepted_def demo_world_def)

lemma demo_chargeable:
  "AuthorizeChargeDto_valid (charge_request (demo_order st n) \<lparr>cu_id = demo_customer, cu_name = ''Ada'', cu_card = ''4242''\<rparr>)"
  by (simp add: AuthorizeChargeDto_valid_def text_within_def charge_request_def MAX_IDEMPOTENCY_KEY_LENGTH_def)

lemma demo_servable:
  assumes "2 \<le> n"
  shows "servable (demo_accepted st n) (demo_order st n) (demo_candidate n)
    \<lparr>cu_id = demo_customer, cu_name = ''Ada'', cu_card = ''4242''\<rparr>"
  using demo_buyer [of st n] demo_chargeable [of st n] demo_ids(3) assms
  by (simp add: servable_def reservation_items_def nearest_sufficient_def demo_candidate_def)
    (simp add: demo_accepted_def demo_world_def movement_of_def aggregate_warehouses_def hasSufficientStock_def)

text \<open>An order that completes, one whose card is declined, and one no warehouse can serve.\<close>

lemma demo_completed:
  "\<exists>g ord. reachable demo_setting (demo_world APPROVE 5) g \<and> order_of (world_of g) ''o1'' = Some ord \<and> o_status ord = COMPLETED"
proof -
  obtain g where g: "reachable demo_setting (demo_world APPROVE 5) g" "world_of g = demo_accepted APPROVE 5"
    using demo_accepts [of 5 APPROVE] by auto
  have "\<not> pinned_decline ''4242'' (demo_accepted APPROVE 5)"
    by (simp add: pinned_decline_def card_state_def demo_accepted_def demo_world_def)
  then obtain t ord' where "run (worker ''o1'') (demo_accepted APPROVE 5) = (Inr (), t)" and "at_status t ''o1'' ord' COMPLETED"
    using worker_completes_run [OF demo_pending demo_servable, of 5 APPROVE] by auto
  with reach_run [OF g(1), of "ProcessJob ''o1''"] g(2) show ?thesis
    by (fastforce simp: at_status_def)
qed

lemma demo_compensated:
  "\<exists>g ord. reachable demo_setting (demo_world DECLINE 5) g \<and> order_of (world_of g) ''o1'' = Some ord \<and> o_status ord = COMPENSATED"
proof -
  obtain g where g: "reachable demo_setting (demo_world DECLINE 5) g" "world_of g = demo_accepted DECLINE 5"
    using demo_accepts [of 5 DECLINE] by auto
  have "pinned_decline ''4242'' (demo_accepted DECLINE 5)"
    by (simp add: pinned_decline_def card_state_def demo_accepted_def demo_world_def)
  then obtain t ord' where "run (worker ''o1'') (demo_accepted DECLINE 5) = (Inr (), t)" and "at_status t ''o1'' ord' COMPENSATED"
    using worker_declines_run [OF demo_pending demo_servable, of 5 DECLINE] by auto
  with reach_run [OF g(1), of "ProcessJob ''o1''"] g(2) show ?thesis
    by (fastforce simp: at_status_def)
qed

lemma demo_unserved:
  "movement_of (demo_accepted st 0) ''o1'' RESERVE = None"
  "nearest_sufficient (o_coordinates (demo_order st 0)) (reservation_items (demo_order st 0)) (demo_accepted st 0) = None"
  by (simp_all add: reservation_items_def nearest_sufficient_def)
    (simp_all add: demo_accepted_def demo_world_def movement_of_def aggregate_warehouses_def hasSufficientStock_def)

lemma demo_failed:
  "\<exists>g ord. reachable demo_setting (demo_world APPROVE 0) g \<and> order_of (world_of g) ''o1'' = Some ord \<and> o_status ord = FAILED"
proof -
  obtain g where g: "reachable demo_setting (demo_world APPROVE 0) g" "world_of g = demo_accepted APPROVE 0"
    using demo_accepts [of 0 APPROVE] by auto
  obtain t ord' where "run (worker ''o1'') (demo_accepted APPROVE 0) = (Inr (), t)" and "at_status t ''o1'' ord' FAILED"
    using worker_out_of_stock_run [OF demo_pending demo_unserved, of APPROVE] by auto
  with reach_run [OF g(1), of "ProcessJob ''o1''"] g(2) show ?thesis
    by (fastforce simp: at_status_def)
qed

text \<open>The last one step by step: the order is pending, then failed, and stays so.\<close>

lemma demo_progress:
  "\<exists>g h ord ord'. reachable demo_setting (demo_world APPROVE 0) g \<and> (step demo_setting)\<^sup>*\<^sup>* g h
    \<and> order_of (world_of g) ''o1'' = Some ord \<and> o_status ord = PENDING
    \<and> order_of (world_of h) ''o1'' = Some ord' \<and> o_status ord' = FAILED"
proof -
  obtain g where g: "reachable demo_setting (demo_world APPROVE 0) g" "world_of g = demo_accepted APPROVE 0"
    using demo_accepts [of 0 APPROVE] by auto
  obtain t ord' where "run (worker ''o1'') (demo_accepted APPROVE 0) = (Inr (), t)" and "at_status t ''o1'' ord' FAILED"
    using worker_out_of_stock_run [OF demo_pending demo_unserved, of APPROVE] by auto
  with steps_run [of demo_setting "ProcessJob ''o1''" g] g demo_pending(1) [of 0 APPROVE] show ?thesis
    by (fastforce simp: at_status_def)
qed

text \<open>The order with its stock reserved, and then with its card charged and the answer lost.\<close>

definition demo_customer_row :: customer where
  "demo_customer_row = \<lparr>cu_id = demo_customer, cu_name = ''Ada'', cu_card = ''4242''\<rparr>"

definition demo_reserved_order :: order where
  "demo_reserved_order = apply_transition STOCK_RESERVED (reserved_patch ''w2'') 1000 (demo_order APPROVE 5)"

definition demo_reserved :: world where
  "demo_reserved = swapped ''o1'' PENDING STOCK_RESERVED (reserved_patch ''w2'')
     (reserved_world ''o1'' ''w2'' (reservation_items (demo_order APPROVE 5)) (demo_accepted APPROVE 5))"

definition demo_charged :: world where
  "demo_charged = charged_world (charge_request demo_reserved_order demo_customer_row) demo_reserved"

lemma demo_reserved_id [simp]: "o_id demo_reserved_order = ''o1''" "o_customer demo_reserved_order = demo_customer"
  "o_total demo_reserved_order = 2400"
  by (simp_all add: demo_reserved_order_def apply_transition_def)

lemma demo_reserved_facts:
  "at_status demo_reserved ''o1'' demo_reserved_order STOCK_RESERVED" "calm demo_reserved"
  "charge_of demo_reserved ''o1'' = None"
  "lookup cu_id (customers demo_reserved) (ObjectId demo_customer) = Some demo_customer_row"
  "AuthorizeChargeDto_valid (charge_request demo_reserved_order demo_customer_row)"
  "\<not> pinned_decline ''4242'' demo_reserved"
proof -
  have serv: "servable (demo_accepted APPROVE 5) (demo_order APPROVE 5) (demo_candidate 5) demo_customer_row"
    using demo_servable [of 5 APPROVE] by (simp add: demo_customer_row_def)
  then have new: "movement_of (demo_accepted APPROVE 5) ''o1'' RESERVE = None"
    and rest: "distinct (map i_product (reservation_items (demo_order APPROVE 5)))"
      "nearest_sufficient (o_coordinates (demo_order APPROVE 5)) (reservation_items (demo_order APPROVE 5))
         (demo_accepted APPROVE 5) = Some (demo_candidate 5)"
    by (simp_all add: servable_def)
  have w: "ws_id (demo_candidate 5) = ''w2''" "now (demo_accepted APPROVE 5) = 1000"
    by (simp_all add: demo_candidate_def demo_accepted_def demo_world_def)
  from round_reserve(2) [OF demo_pending new rest] w
  show "at_status demo_reserved ''o1'' demo_reserved_order STOCK_RESERVED"
    by (simp add: demo_reserved_def demo_reserved_order_def)
  show "calm demo_reserved" using demo_pending(2) [of 5 APPROVE] by (simp add: demo_reserved_def)
  show "charge_of demo_reserved ''o1'' = None"
    using pending_uncharged [OF demo_pending(1) [of 5 APPROVE]] by (simp add: demo_reserved_def)
  show "lookup cu_id (customers demo_reserved) (ObjectId demo_customer) = Some demo_customer_row"
    using demo_buyer [of APPROVE 5] by (simp add: demo_reserved_def demo_customer_row_def)
  show "AuthorizeChargeDto_valid (charge_request demo_reserved_order demo_customer_row)"
    using demo_chargeable [of APPROVE 5] by (simp add: demo_reserved_order_def demo_customer_row_def)
  show "\<not> pinned_decline ''4242'' demo_reserved"
    by (simp add: pinned_decline_def card_state_def demo_reserved_def demo_accepted_def demo_world_def)
qed

lemma demo_reserved_only: "order_of demo_reserved oid = (if oid = ''o1'' then Some demo_reserved_order else None)"
proof -
  have "orders (reserved_world oid w items s) = orders s" "now (reserved_world oid w items s) = now s" for oid w items s
    by (simp_all add: reserved_world_def split: sum.split)
  moreover have "orders (demo_accepted APPROVE 5) = [demo_order APPROVE 5]" "now (demo_accepted APPROVE 5) = 1000"
    by (simp_all add: demo_accepted_def demo_world_def)
  ultimately have "orders demo_reserved = [demo_reserved_order]"
    by (simp add: demo_reserved_def swapped_def demo_reserved_order_def)
  then show ?thesis by (simp add: order_of_def)
qed

lemma demo_charged_facts:
  "at_status demo_charged ''o1'' demo_reserved_order STOCK_RESERVED" "calm demo_charged"
  "\<exists>chg. charge_of demo_charged ''o1'' = Some chg \<and> c_status chg = SUCCEEDED"
proof -
  note r = demo_reserved_facts
  show "at_status demo_charged ''o1'' demo_reserved_order STOCK_RESERVED"
    using r(1) charged_consistent [OF r(1,3), of demo_customer_row] by (simp add: at_status_def demo_charged_def)
  show "calm demo_charged" using r(2) by (simp add: demo_charged_def)
  have "a_key (charge_request demo_reserved_order demo_customer_row) = ''o1''"
    "a_card (charge_request demo_reserved_order demo_customer_row) = ''4242''"
    by (simp_all add: charge_request_def demo_customer_row_def)
  with charge_of_charged [of demo_reserved "charge_request demo_reserved_order demo_customer_row"] r(3,6)
  show "\<exists>chg. charge_of demo_charged ''o1'' = Some chg \<and> c_status chg = SUCCEEDED"
    by (simp add: demo_charged_def)
qed

text \<open>The reservation made, the order still pending: the worker is between its two steps.\<close>

definition demo_held :: world where
  "demo_held = reserved_world ''o1'' ''w2'' (reservation_items (demo_order APPROVE 5)) (demo_accepted APPROVE 5)"

lemma demo_held_facts:
  "at_status demo_held ''o1'' (demo_order APPROVE 5) PENDING" "db_link demo_held = Up"
  "\<exists>m. movement_of demo_held ''o1'' RESERVE = Some m" "movement_of demo_held ''o1'' RELEASE = None"
proof -
  have serv: "servable (demo_accepted APPROVE 5) (demo_order APPROVE 5) (demo_candidate 5) demo_customer_row"
    using demo_servable [of 5 APPROVE] by (simp add: demo_customer_row_def)
  have pend: "at_status (demo_accepted APPROVE 5) ''o1'' (demo_order APPROVE 5) PENDING" "db_link (demo_accepted APPROVE 5) = Up"
    using demo_pending [of 5 APPROVE] by (simp_all add: calm_def)
  have w: "ws_id (demo_candidate 5) = ''w2''"
    by (simp_all add: demo_candidate_def)
  have new: "movement_of (demo_accepted APPROVE 5) ''o1'' RESERVE = None" "movement_of (demo_accepted APPROVE 5) ''o1'' RELEASE = None"
    by (simp_all add: movement_of_def demo_accepted_def demo_world_def)
  from serv have near: "distinct (map i_product (reservation_items (demo_order APPROVE 5)))"
      "nearest_sufficient (o_coordinates (demo_order APPROVE 5)) (reservation_items (demo_order APPROVE 5))
         (demo_accepted APPROVE 5) = Some (demo_candidate 5)"
    by (simp_all add: servable_def)
  have inv: "consistent (demo_accepted APPROVE 5)" "order_of (demo_accepted APPROVE 5) ''o1'' = Some (demo_order APPROVE 5)"
    using pend(1) by (simp_all add: at_status_def)
  note res = run_reserveForOrder(2,3) [OF pend(2) inv(1) new(1) near, unfolded w, folded demo_held_def]
  have same: "orders demo_held = orders (demo_accepted APPROVE 5)" "db_link demo_held = db_link (demo_accepted APPROVE 5)"
    by (simp_all add: demo_held_def reserved_world_def split: sum.split)
  from reserve_tx_keeps(1) [OF inv res(1)] same pend(1)
  show "at_status demo_held ''o1'' (demo_order APPROVE 5) PENDING" by (simp add: at_status_def order_of_def)
  show "db_link demo_held = Up" using same(2) pend(2) by simp
  show "\<exists>m. movement_of demo_held ''o1'' RESERVE = Some m" "movement_of demo_held ''o1'' RELEASE = None"
    using new by (simp_all add: movement_of_def res(2) lookup_append movement_key_def)
qed

text \<open>An environment with what is required and nothing else.\<close>

definition demo_env :: "string \<Rightarrow> string option" where
  "demo_env = (\<lambda>name. if name \<in> {''MONGO_URI'', ''PSP_BASE_URL'', ''CUSTOMER_BASE_URL'', ''GEOCODING_BASE_URL'', ''CATALOG_BASE_URL''}
     then Some ''http://localhost'' else None)"

lemma demo_env_valid: "\<exists>vals. validateEnv demo_env = Inr vals"
  by (simp add: validateEnv_def EnvironmentVariables_def env_check_def toNumber_def demo_env_def)

lemma demo_env_blank:
  "\<exists>vals c. validateEnv (demo_env(''ORDER_OUTBOX_BATCH_SIZE'' := Some [])) = Inr vals
    \<and> ordersConfig (demo_env(''ORDER_OUTBOX_BATCH_SIZE'' := Some [])) = Some c"
  by (simp add: validateEnv_def EnvironmentVariables_def env_check_def toNumber_def demo_env_def
      ordersConfig_def env_int_def env_number_def js_number_def trim_def)

text \<open>A new identifier as the driver makes them.\<close>

definition demo_directories :: world where
  "demo_directories = (demo_world APPROVE 5)\<lparr>fresh_id := ''bbbbbbbbbbbbbbbbbbbbbbbb''\<rparr>"

lemma demo_directories:
  "calm demo_directories" "is_mongo_id (fresh_id demo_directories)" "ObjectId (fresh_id demo_directories) = fresh_id demo_directories"
  "fresh_id demo_directories \<notin> cu_id ` set (customers demo_directories)"
proof -
  have "is_mongo_id ''bbbbbbbbbbbbbbbbbbbbbbbb''" "ObjectId ''bbbbbbbbbbbbbbbbbbbbbbbb'' = ''bbbbbbbbbbbbbbbbbbbbbbbb''"
    "''bbbbbbbbbbbbbbbbbbbbbbbb'' \<noteq> demo_customer"
    by code_simp+
  then show "is_mongo_id (fresh_id demo_directories)" "ObjectId (fresh_id demo_directories) = fresh_id demo_directories"
    "fresh_id demo_directories \<notin> cu_id ` set (customers demo_directories)"
    by (simp_all add: demo_directories_def demo_world_def)
  show "calm demo_directories" using demo_acceptable [of APPROVE 5] by (simp add: demo_directories_def acceptable_def calm_def)
qed

end
