(* ===== verification/Progress.thy ===== *)
theory Progress
  imports Settling Scenarios
begin

text \<open>
  Sweeps in the interleaved system: repeated until nothing is left, they settle every order
  of any consistent state, once the environment lets calls through and time pass.
\<close>

section \<open>Sweeping until nothing is left\<close>

definition unsettled :: "world \<Rightarrow> object_id set" where
  "unsettled s = {oid. \<exists>ord. order_of s oid = Some ord \<and> \<not> isTerminal (o_status ord)}"

definition overdue :: "orders_config \<Rightarrow> world \<Rightarrow> bool" where
  "overdue config s \<longleftrightarrow> (\<forall>oid ord. order_of s oid = Some ord \<longrightarrow> \<not> isTerminal (o_status ord) \<longrightarrow>
     oid \<in> waiting config (o_status ord) s)"

lemma live_states: "\<not> isTerminal st \<longleftrightarrow> st \<in> {PENDING, STOCK_RESERVED, PAYMENT_AUTHORIZED, COMPENSATING}"
  by (cases st) (simp_all add: isTerminal_def TERMINAL_STATUSES_def)

lemma finite_unsettled [simp]: "finite (unsettled s)"
proof (rule finite_subset)
  show "unsettled s \<subseteq> o_id ` set (orders s)"
    using order_of_listed by (fastforce simp: unsettled_def)
qed simp

lemma waiting_unsettled: "oid \<in> waiting config st s \<Longrightarrow> \<not> isTerminal st \<Longrightarrow> oid \<in> unsettled s"
  by (auto simp: waiting_def unsettled_def stale_def)

lemma swept_unsettled: "swept ids s t \<Longrightarrow> unsettled t = unsettled s - ids"
proof (rule set_eqI)
  fix oid
  assume swept: "swept ids s t"
  show "oid \<in> unsettled t \<longleftrightarrow> oid \<in> unsettled s - ids"
  proof (cases "oid \<in> ids")
    case True
    from swept_in [OF swept True] verdict_terminal True show ?thesis by (fastforce simp: unsettled_def)
  next
    case False
    with swept_out [OF swept False] show ?thesis by (simp add: unsettled_def)
  qed
qed

lemma swept_overdue:
  assumes "swept ids s t" and "overdue config s"
  shows "overdue config t"
  unfolding overdue_def
proof (intro allI impI)
  fix oid ord
  assume t: "order_of t oid = Some ord" and live: "\<not> isTerminal (o_status ord)"
  have "oid \<notin> ids" using swept_in [OF assms(1), of oid] t live verdict_terminal by auto
  with swept_out [OF assms(1), of oid] t live assms(2) swept_waiting [OF assms(1) live, of config]
  show "oid \<in> waiting config (o_status ord) t" by (simp add: overdue_def)
qed

text \<open>A sweep settles at least one order.\<close>

lemma sweep_progresses:
  assumes "consistent s" "calm s" "short_ids s" "sweeper_enabled config"
    and late: "overdue config s" and batch: "1 \<le> sweeper_batch_size config" and some: "unsettled s \<noteq> {}"
  shows "\<exists>t out ids. run (sweeper config) s = (Inr out, t) \<and> swept ids s t \<and> ids \<subseteq> unsettled s \<and> ids \<noteq> {}"
proof -
  from sweep_passes [OF assms(1-4)] obtain t out ids where run: "run (sweeper config) s = (Inr out, t)"
    and p: "passed config {PENDING, STOCK_RESERVED, PAYMENT_AUTHORIZED, COMPENSATING} s t out ids" by blast
  from some obtain oid ord where ord: "order_of s oid = Some ord" "\<not> isTerminal (o_status ord)"
    by (auto simp: unsettled_def)
  let ?w = "waiting config (o_status ord) s"
  have "oid \<in> ?w" using late ord by (simp add: overdue_def)
  then have "0 < card ?w" by (auto simp: card_gt_0_iff)
  moreover have "card (ids \<inter> ?w) = min (sweeper_batch_size config) (card ?w)"
    using p ord(2) unfolding passed_def live_states by blast
  ultimately have "0 < card (ids \<inter> ?w)" using batch by simp
  then have "ids \<noteq> {}" by auto
  moreover have "ids \<subseteq> unsettled s"
  proof
    fix oid'
    assume "oid' \<in> ids"
    then obtain st where "st \<in> {PENDING, STOCK_RESERVED, PAYMENT_AUTHORIZED, COMPENSATING}" "oid' \<in> waiting config st s"
      using p unfolding passed_def by blast
    then show "oid' \<in> unsettled s" by (intro waiting_unsettled) (simp_all only: live_states)
  qed
  ultimately show ?thesis using run p unfolding passed_def by blast
qed

text \<open>Sweeps one after the other settle every order.\<close>

lemma sweeps_settle:
  assumes "consistent (world_of g)" "calm (world_of g)" "short_ids (world_of g)" "overdue (orders_settings c) (world_of g)"
    and on: "sweeper_enabled (orders_settings c)" and batch: "1 \<le> sweeper_batch_size (orders_settings c)"
  shows "\<exists>h. (step c)\<^sup>*\<^sup>* g h \<and> swept (unsettled (world_of g)) (world_of g) (world_of h)"
  using assms(1-4)
proof (induction "card (unsettled (world_of g))" arbitrary: g rule: less_induct)
  case less
  let ?s = "world_of g"
  show ?case
  proof (cases "unsettled ?s = {}")
    case True
    with swept_none [OF less.prems(1,2)] show ?thesis by (intro exI [of _ g]) simp
  next
    case False
    from sweep_progresses [OF less.prems(1-3) on less.prems(4) batch False] obtain t out ids
      where run: "run (sweeper (orders_settings c)) ?s = (Inr out, t)"
      and t: "swept ids ?s t" "ids \<subseteq> unsettled ?s" "ids \<noteq> {}" by blast
    have "run (activity_program c ReconciliationSweep) ?s = (Inr (), t)" using run_forget [OF run] by simp
    from steps_run [OF this] obtain g' where g': "(step c)\<^sup>*\<^sup>* g g'" "world_of g' = t" by blast
    have left: "unsettled t = unsettled ?s - ids" by (rule swept_unsettled [OF t(1)])
    have "card (unsettled t) < card (unsettled ?s)" unfolding left using t(2,3) by (intro psubset_card_mono) auto
    moreover have "consistent t" "calm t" using t(1) by (simp_all add: swept_def)
    moreover have "short_ids t" using swept_short [OF t(1)] less.prems(3) by simp
    ultimately obtain h where h: "(step c)\<^sup>*\<^sup>* g' h" "swept (unsettled t) t (world_of h)"
      using less.hyps [of g'] g'(2) swept_overdue [OF t(1) less.prems(4)] by blast
    have "swept (ids \<union> unsettled t) ?s (world_of h)" using left by (intro swept_trans [OF t(1) h(2)]) blast
    moreover have "ids \<union> unsettled t = unsettled ?s" using left t(2) by blast
    ultimately show ?thesis using rtranclp_trans [OF g'(1) h(1)] by auto
  qed
qed

text \<open>The environment lets calls through and enough time pass.\<close>

lemma late_enough:
  "\<exists>N. \<forall>ord \<in> set ords. stale (o_status ord) (sweeper_stale_after config) N ord"
proof (induction ords)
  case (Cons a ords)
  then obtain N where N: "\<forall>ord \<in> set ords. stale (o_status ord) (sweeper_stale_after config) N ord" by blast
  let ?M = "max N (max (o_updated a + sweeper_stale_after config) (case o_sweep_lease a of None \<Rightarrow> 0 | Some l \<Rightarrow> l))"
  have "stale (o_status ord) (sweeper_stale_after config) ?M ord" if "ord \<in> set (a # ords)" for ord
    using that N by (force simp: stale_def split: option.splits)
  then show ?case by blast
qed simp

definition relieved :: "date \<Rightarrow> world \<Rightarrow> world" where
  "relieved ts s = s\<lparr>now := ts, db_link := Up, http_link := Up, id_valid := is_mongo_id,
     random := max (failure_rate (payment_settings s)) (lost_response_rate (payment_settings s))\<rparr>"

lemma relieved_calm: "calm (relieved ts s)" "untouched s (relieved ts s)"
  by (simp_all add: relieved_def calm_def untouched_def)

lemma relieved_same: "order_of (relieved ts s) = order_of s" "charge_of (relieved ts s) = charge_of s"
  "short_ids (relieved ts s) = short_ids s" "unsettled (relieved ts s) = unsettled s" "orders (relieved ts s) = orders s"
  by (simp_all add: relieved_def order_of_def charge_of_def short_ids_def unsettled_def)

lemma settles_eventually:
  assumes inv: "consistent (world_of g)" and short: "short_ids (world_of g)"
    and on: "sweeper_enabled (orders_settings c)" "1 \<le> sweeper_batch_size (orders_settings c)"
  shows "\<exists>h. (step c)\<^sup>*\<^sup>* g h
    \<and> (\<forall>oid. case order_of (world_of g) oid of
         None \<Rightarrow> order_of (world_of h) oid = None
       | Some ord \<Rightarrow> \<exists>ord'. order_of (world_of h) oid = Some ord' \<and> o_status ord' = verdict (world_of g) ord)"
proof -
  let ?s = "world_of g"
  obtain N where N: "\<forall>ord \<in> set (orders ?s). stale (o_status ord) (sweeper_stale_after (orders_settings c)) N ord"
    using late_enough by blast
  let ?t = "relieved N ?s"
  let ?g = "g\<lparr>world_of := ?t\<rparr>"
  have step: "step c g ?g" by (intro step.environment relieved_calm)
  have "now ?t = N" by (simp add: relieved_def)
  with N have "overdue (orders_settings c) ?t"
    using order_of_listed [of ?s] by (auto simp: overdue_def waiting_def relieved_same)
  moreover have "consistent ?t" using inv untouched_step(1) [OF relieved_calm(2)] by simp
  ultimately obtain h where h: "(step c)\<^sup>*\<^sup>* ?g h" "swept (unsettled ?s) ?t (world_of h)"
    using sweeps_settle [of ?g c] on short by (auto simp: relieved_calm relieved_same)
  have "case order_of ?s oid of
         None \<Rightarrow> order_of (world_of h) oid = None
       | Some ord \<Rightarrow> \<exists>ord'. order_of (world_of h) oid = Some ord' \<and> o_status ord' = verdict ?s ord" for oid
  proof (cases "oid \<in> unsettled ?s")
    case True
    from swept_in [OF h(2) True] show ?thesis
      using verdict_same [of ?t ?s] by (auto simp: relieved_same split: option.split)
  next
    case False
    from swept_out [OF h(2) False] False show ?thesis
      by (auto simp: relieved_same unsettled_def verdict_def isTerminal_def TERMINAL_STATUSES_def split: option.split order_status.split)
  qed
  with converse_rtranclp_into_rtranclp [of "step c", OF step h(1)] show ?thesis by blast
qed

section \<open>The handlers on an order of their status\<close>

text \<open>The sweeper carries an order forward whose charge is on record: the answer to a charge
  was lost, or the worker died before recording it.\<close>

theorem sweeper_settles_charged:
  assumes "at_status s (o_id claimed) ord STOCK_RESERVED" and "calm s"
    and "length (o_id claimed) \<le> MAX_IDEMPOTENCY_KEY_LENGTH"
    and "charge_of s (o_id claimed) = Some chg" and "c_status chg = SUCCEEDED"
  shows "\<exists>t ord'. run (resolveReserved orders_impl inventory_impl payment_impl claimed result) s =
      (Inr (None, result\<lparr>authorized := authorized result + 1, completed := completed result + 1\<rparr>), t)
    \<and> order_of t (o_id claimed) = Some ord' \<and> o_status ord' = COMPLETED \<and> o_payment ord' = Some (toResult chg)"
  using resolveReserved_charged_run [OF assms, of result] unfolding at_status_def by blast

lemma sweeper_settles_charged_witness:
  "\<exists>t ord'. run (resolveReserved orders_impl inventory_impl payment_impl demo_reserved_order no_result) demo_charged =
      (Inr (None, no_result\<lparr>authorized := 1, completed := 1\<rparr>), t)
    \<and> order_of t ''o1'' = Some ord' \<and> o_status ord' = COMPLETED"
proof -
  obtain chg where "charge_of demo_charged ''o1'' = Some chg" "c_status chg = SUCCEEDED"
    using demo_charged_facts(3) by blast
  with sweeper_settles_charged [of demo_charged demo_reserved_order demo_reserved_order chg no_result] demo_charged_facts(1,2)
  show ?thesis by (auto simp: no_result_def MAX_IDEMPOTENCY_KEY_LENGTH_def)
qed

text \<open>The sweeper gives the stock back of an order without a successful charge on record, and
  says whether the charge was declined or never made.\<close>

theorem sweeper_compensates_uncharged:
  assumes "at_status s (o_id claimed) ord STOCK_RESERVED" and "calm s"
    and "length (o_id claimed) \<le> MAX_IDEMPOTENCY_KEY_LENGTH"
    and "\<forall>chg. charge_of s (o_id claimed) = Some chg \<longrightarrow> c_status chg \<noteq> SUCCEEDED"
  shows "\<exists>t ord'. run (resolveReserved orders_impl inventory_impl payment_impl claimed result) s =
      (Inr (None, result\<lparr>compensated := compensated result + 1\<rparr>), t)
    \<and> order_of t (o_id claimed) = Some ord' \<and> o_status ord' = COMPENSATED
    \<and> movement_of t (o_id claimed) RELEASE \<noteq> None
    \<and> o_failure ord' = Some (if charge_of s (o_id claimed) = None then RECONCILED_NO_CHARGE else PAYMENT_DECLINED)"
proof -
  from resolveReserved_uncharged_run [OF assms, of result] obtain t ord'
    where t: "run (resolveReserved orders_impl inventory_impl payment_impl claimed result) s =
        (Inr (None, result\<lparr>compensated := compensated result + 1\<rparr>), t)"
      "at_status t (o_id claimed) ord' COMPENSATED"
      "o_failure ord' = Some (if charge_of s (o_id claimed) = None then RECONCILED_NO_CHARGE else PAYMENT_DECLINED)"
    by blast
  with consistent_order [of t "o_id claimed" ord'] show ?thesis
    by (auto simp: at_status_def order_ok_def)
qed

lemma sweeper_compensates_uncharged_witness:
  "\<exists>t ord'. run (resolveReserved orders_impl inventory_impl payment_impl demo_reserved_order no_result) demo_reserved =
      (Inr (None, no_result\<lparr>compensated := 1\<rparr>), t)
    \<and> order_of t ''o1'' = Some ord' \<and> o_failure ord' = Some RECONCILED_NO_CHARGE"
  using sweeper_compensates_uncharged [of demo_reserved demo_reserved_order demo_reserved_order no_result] demo_reserved_facts
  by (auto simp: no_result_def MAX_IDEMPOTENCY_KEY_LENGTH_def)

text \<open>The sweeper fails an order that is still pending, and if a reservation for it slipped in
  it gives it back.\<close>

theorem sweeper_fails_pending:
  assumes "at_status s (o_id claimed) ord PENDING" and "db_link s = Up"
  shows "\<exists>t ord'. run (resolvePending orders_impl inventory_impl claimed result) s =
      (Inr (None, result\<lparr>markedFailed := markedFailed result + 1\<rparr>), t)
    \<and> order_of t (o_id claimed) = Some ord' \<and> o_status ord' = FAILED \<and> o_failure ord' = Some RECONCILED_TIMEOUT
    \<and> (movement_of t (o_id claimed) RESERVE \<noteq> None \<longrightarrow> movement_of t (o_id claimed) RELEASE \<noteq> None)"
  using resolvePending_run [OF assms, of result] unfolding at_status_def by blast

lemma sweeper_fails_pending_witness:
  "\<exists>t ord'. run (resolvePending orders_impl inventory_impl (demo_order APPROVE 5) no_result) (demo_accepted APPROVE 5) =
      (Inr (None, no_result\<lparr>markedFailed := 1\<rparr>), t)
    \<and> order_of t ''o1'' = Some ord' \<and> o_status ord' = FAILED"
  using sweeper_fails_pending [of "demo_accepted APPROVE 5" "demo_order APPROVE 5" "demo_order APPROVE 5" no_result]
    demo_pending [of 5 APPROVE]
  by (auto simp: calm_def no_result_def)

section \<open>One delivery of a job\<close>

text \<open>When nothing interferes and no call is lost, a pending order that some warehouse can
  serve and whose card is good is completed by one delivery of its job, served by the
  nearest warehouse with enough stock, and charged its total.\<close>

theorem worker_completes:
  assumes "at_status s oid ord PENDING" and "calm s" and "servable s ord c cu" and "\<not> pinned_decline (cu_card cu) s"
  shows "\<exists>t ord' chg. run (worker oid) s = (Inr (), t) \<and> order_of t oid = Some ord' \<and> o_status ord' = COMPLETED
    \<and> o_warehouse ord' = Some (ws_id c) \<and> charge_of t oid = Some chg \<and> c_status chg = SUCCEEDED
    \<and> c_amount chg = o_total ord"
proof -
  from worker_completes_run [OF assms] obtain t ord' where run: "run (worker oid) s = (Inr (), t)"
    and st: "conserves s t" and t: "consistent t" "order_of t oid = Some ord'" "o_status ord' = COMPLETED"
    and wh: "o_warehouse ord' = Some (ws_id c)"
    by (auto simp: at_status_def)
  have "o_total ord' = o_total ord"
    using evolves_order [OF conserves_evolves [OF st], of oid ord] assms(1) t(2)
    by (auto simp: at_status_def order_evolves_def request_of_eq)
  with consistent_order [OF t(1,2)] t(3) run t(2) wh show ?thesis
    by (auto simp: order_ok_def paid_def)
qed

lemma worker_completes_witness:
  "\<exists>t chg. run (worker ''o1'') (demo_accepted APPROVE 5) = (Inr (), t) \<and> charge_of t ''o1'' = Some chg \<and> c_amount chg = 2400"
proof -
  have "\<not> pinned_decline ''4242'' (demo_accepted APPROVE 5)"
    by (simp add: pinned_decline_def card_state_def demo_accepted_def demo_world_def)
  with worker_completes [OF demo_pending demo_servable, of 5 APPROVE] show ?thesis by auto
qed

text \<open>In the same circumstances an order whose card is refused is compensated, for
  \<open>PAYMENT_DECLINED\<close>, and every stock level is back where it was.\<close>

theorem worker_compensates_declined:
  assumes "at_status s oid ord PENDING" and "calm s" and "servable s ord c cu" and "pinned_decline (cu_card cu) s"
  shows "\<exists>t ord'. run (worker oid) s = (Inr (), t) \<and> order_of t oid = Some ord' \<and> o_status ord' = COMPENSATED
    \<and> o_failure ord' = Some PAYMENT_DECLINED \<and> (\<forall>w p. level (stock t) w p = level (stock s) w p)"
  using worker_declines_run [OF assms] by (auto simp: at_status_def)

lemma worker_compensates_declined_witness:
  "\<exists>t. run (worker ''o1'') (demo_accepted DECLINE 5) = (Inr (), t) \<and> level (stock t) ''w2'' demo_product = 5"
proof -
  have "pinned_decline ''4242'' (demo_accepted DECLINE 5)"
    by (simp add: pinned_decline_def card_state_def demo_accepted_def demo_world_def)
  moreover have "level (stock (demo_accepted DECLINE 5)) ''w2'' demo_product = 5"
    by (simp add: demo_accepted_def demo_world_def level_def stock_key_def)
  ultimately show ?thesis
    using worker_compensates_declined [OF demo_pending demo_servable, of 5 DECLINE] by auto
qed

text \<open>An order no warehouse can serve alone fails for \<open>OUT_OF_STOCK\<close>, and neither stock nor
  ledgers are touched.\<close>

theorem worker_fails_out_of_stock:
  assumes "at_status s oid ord PENDING" and "calm s" and "movement_of s oid RESERVE = None"
    and "nearest_sufficient (o_coordinates ord) (reservation_items ord) s = None"
  shows "\<exists>t ord'. run (worker oid) s = (Inr (), t) \<and> order_of t oid = Some ord' \<and> o_status ord' = FAILED
    \<and> o_failure ord' = Some OUT_OF_STOCK \<and> stock t = stock s \<and> movements t = movements s \<and> charges t = charges s"
  using worker_out_of_stock_run [OF assms] by (auto simp: at_status_def)

lemma worker_fails_out_of_stock_witness:
  "\<exists>t ord'. run (worker ''o1'') (demo_accepted APPROVE 0) = (Inr (), t) \<and> order_of t ''o1'' = Some ord'
    \<and> o_failure ord' = Some OUT_OF_STOCK"
  using worker_fails_out_of_stock [OF demo_pending demo_unserved, of APPROVE] by auto

text \<open>A job delivered again for a settled order changes nothing at all.\<close>

theorem redelivery_changes_nothing:
  assumes "consistent s" and "order_of s oid = Some ord" and "isTerminal (o_status ord)" and "db_link s = Up"
    and "o_status ord = FAILED \<longrightarrow> movement_of s oid RESERVE = None \<or> movement_of s oid RELEASE \<noteq> None"
  shows "run (worker oid) s = (Inr (), s)"
  by (rule worker_redelivered_run [of s oid ord "o_status ord"]) (use assms in \<open>simp_all add: at_status_def\<close>)

lemma redelivery_changes_nothing_witness:
  "\<exists>t. run (worker ''o1'') (demo_accepted APPROVE 0) = (Inr (), t) \<and> run (worker ''o1'') t = (Inr (), t)"
proof -
  obtain t ord' where t: "run (worker ''o1'') (demo_accepted APPROVE 0) = (Inr (), t)" "at_status t ''o1'' ord' FAILED"
    "movements t = movements (demo_accepted APPROVE 0)" and calm: "db_link t = Up"
    using worker_out_of_stock_run [OF demo_pending demo_unserved, of APPROVE] by auto
  have "run (worker ''o1'') t = (Inr (), t)"
    by (rule redelivery_changes_nothing [of t "''o1''" ord'])
      (use t calm in \<open>simp_all add: at_status_def movement_of_def demo_accepted_def demo_world_def\<close>)
  with t(1) show ?thesis by blast
qed

end
