(* ===== verification/Relaying.thy ===== *)
theory Relaying
  imports Acceptance
begin

text \<open>
  Undisturbed passes of the outbox relay: which events a pass takes, in which order, and what
  becomes of them and of the job queue.
\<close>

section \<open>What is due, and what becomes of it\<close>

text \<open>The events a relay may claim now, in the order it claims them.\<close>

definition due :: "orders_config \<Rightarrow> world \<Rightarrow> outbox_event list" where
  "due config s = sort_key e_next_retry (filter (claimable_event (outbox_claim_timeout config) (now s)) (outbox s))"

text \<open>
  What a pass makes of an event it takes: dispatched when the queue can be reached; when it
  cannot, put off with a pause that doubles with every attempt, and given up after the last.
\<close>

definition fate :: "orders_config \<Rightarrow> queue_config \<Rightarrow> world \<Rightarrow> outbox_event \<Rightarrow> outbox_event" where
  "fate config settings s e =
     (let e' = claim_event (now s) e
      in if queue_link s = Up then e'\<lparr>e_status := DISPATCHED, e_dispatched := Some (now s)\<rparr>
         else if outbox_max_attempts config \<le> e_attempts e'
         then e'\<lparr>e_status := OUTBOX_FAILED, e_error := Some ''connection lost'', e_claimed := None\<rparr>
         else e'\<lparr>e_status := NEW, e_error := Some ''connection lost'',
                 e_next_retry := now s + queue_backoff settings * 2 ^ nat (max 0 (e_attempts e)), e_claimed := None\<rparr>)"

text \<open>The state after a pass that took the events \<open>sent\<close>, and its answer.\<close>

definition relayed :: "(job \<Rightarrow> job list \<Rightarrow> job list) \<Rightarrow> orders_config \<Rightarrow> queue_config \<Rightarrow> outbox_event list \<Rightarrow> world \<Rightarrow> world" where
  "relayed add config settings sent s = s\<lparr>
     outbox := map (\<lambda>e. if e_id e \<in> e_id ` set sent then fate config settings s e else e) (outbox s),
     jobs := (if queue_link s = Up
              then fold (\<lambda>e. add (saga_job settings (e_id e) (e_aggregate e))) sent (jobs s) else jobs s)\<rparr>"

definition dispatched_count :: "outbox_event list \<Rightarrow> world \<Rightarrow> nat" where
  "dispatched_count sent s = (if queue_link s = Up then length sent else 0)"

lemma fate_simps [simp]:
  "e_id (fate config settings s e) = e_id e" "e_aggregate (fate config settings s e) = e_aggregate e"
  "e_type (fate config settings s e) = e_type e"
  by (simp_all add: fate_def claim_event_def Let_def)

lemma fate_done: "1 \<le> queue_backoff settings \<Longrightarrow> \<not> claimable_event timeout (now s) (fate config settings s e)"
  using mult_strict_mono [of 0 "queue_backoff settings" 0 "2 ^ nat (max 0 (e_attempts e))"]
  by (auto simp: claimable_event_def fate_def Let_def zero_less_mult_iff not_le)

lemma relayed_simps [simp]:
  "db_link (relayed add config settings sent s) = db_link s" "queue_link (relayed add config settings sent s) = queue_link s"
  "now (relayed add config settings sent s) = now s" "map e_id (outbox (relayed add config settings sent s)) = map e_id (outbox s)"
  "relays_running (relayed add config settings sent s) = relays_running s"
  by (simp_all add: relayed_def)

lemma fate_relayed [simp]: "fate config settings (relayed add config' settings' sent s) = fate config settings s"
  by (simp add: fun_eq_iff fate_def Let_def)

lemma relayed_none [simp]: "relayed add config settings [] s = s"
  by (simp add: relayed_def)

lemma relayed_trans:
  assumes "e_id ` set xs \<inter> e_id ` set ys = {}"
  shows "relayed add config settings ys (relayed add config settings xs s) = relayed add config settings (xs @ ys) s"
proof -
  have "map (\<lambda>e. if e_id e \<in> e_id ` set ys then fate config settings s e else e)
      (map (\<lambda>e. if e_id e \<in> e_id ` set xs then fate config settings s e else e) (outbox s)) =
    map (\<lambda>e. if e_id e \<in> e_id ` set (xs @ ys) then fate config settings s e else e) (outbox s)"
    using assms by (auto simp: image_Un)
  then have "(relayed add config settings xs s)\<lparr>
      outbox := map (\<lambda>e. if e_id e \<in> e_id ` set ys then fate config settings s e else e)
        (outbox (relayed add config settings xs s)),
      jobs := (if queue_link s = Up
               then fold (\<lambda>e. add (saga_job settings (e_id e) (e_aggregate e))) ys (jobs (relayed add config settings xs s))
               else jobs (relayed add config settings xs s))\<rparr> = relayed add config settings (xs @ ys) s"
    by (simp add: relayed_def)
  then show ?thesis unfolding relayed_def [of add config settings ys] by (simp only: fate_relayed relayed_simps)
qed

section \<open>A pass\<close>

lemma distinct_due: "distinct (map e_id (outbox s)) \<Longrightarrow> distinct (map e_id (due config s))"
  by (simp add: due_def distinct_map inj_on_def)

lemma due_relayed:
  assumes dist: "distinct (map e_id (outbox s))" and head: "due config s = e # rest"
    and pause: "1 \<le> queue_backoff settings"
  shows "due config (relayed add config settings [e] s) = rest"
proof -
  let ?P = "claimable_event (outbox_claim_timeout config) (now s)"
  have "e \<in> set (due config s)" using head by simp
  then have e: "e \<in> set (outbox s)" by (simp add: due_def)
  have one: "e_id x = e_id e \<longleftrightarrow> x = e" if "x \<in> set (outbox s)" for x
    using that e dist by (auto simp: distinct_map inj_on_def)
  have "filter ?P (map (\<lambda>x. if e_id x = e_id e then fate config settings s x else x) xs) = filter (\<lambda>x. x \<noteq> e) (filter ?P xs)"
    if "set xs \<subseteq> set (outbox s)" for xs
    using that by (induction xs) (auto simp: one fate_done [OF pause])
  from this [of "outbox s"] have "due config (relayed add config settings [e] s) = filter (\<lambda>x. x \<noteq> e) (due config s)"
    by (simp add: due_def relayed_def filter_sort)
  moreover have "e \<notin> set rest" using distinct_due [OF dist, of config] head by auto
  ultimately show ?thesis by (simp add: head filter_id_conv) auto
qed

lemma run_claimNext:
  assumes "db_link s = Up" and "distinct (map e_id (outbox s))"
  shows "run (claimNext (outbox_claim_timeout config)) s = (case due config s of
      [] \<Rightarrow> (Inr None, s)
    | e # _ \<Rightarrow> (Inr (Some (claim_event (now s) e)),
         s\<lparr>outbox := map (\<lambda>x. if e_id x = e_id e then claim_event (now s) x else x) (outbox s)\<rparr>))"
  using assms
  by (simp add: claimNext_def run_await run_sample run_db claim_next_op_def claim_row_def find_least_sort
      update_one_map due_def split: list.split)

lemma relay_batch_run:
  assumes "db_link s = Up" and "queue_link s \<noteq> ReplyLost" and "distinct (map e_id (outbox s))"
    and "1 \<le> queue_backoff settings"
  shows "run (relay_batch outbox_impl add config settings n dispatched) s =
    (Inr (dispatched + dispatched_count (take n (due config s)) s), relayed add config settings (take n (due config s)) s)"
  using assms
proof (induction n arbitrary: s dispatched)
  case (Suc n)
  note claim = run_claimNext [OF Suc.prems(1,3), of config]
  show ?case
  proof (cases "due config s")
    case Nil
    with claim show ?thesis by (simp add: run_await run_attempt outbox_impl_def dispatched_count_def)
  next
    case (Cons e rest)
    let ?t = "s\<lparr>outbox := map (\<lambda>x. if e_id x = e_id e then claim_event (now s) x else x) (outbox s)\<rparr>"
    have ids: "e_id (claim_event ts x) = e_id x" "e_aggregate (claim_event ts x) = e_aggregate x" for ts x
      by (simp_all add: claim_event_def)
    have same: "map e_id (outbox ?t) = map e_id (outbox s)" by (simp add: ids)
    have one: "update_one (\<lambda>x. e_id x = e_id e) f (outbox ?t) =
        map (\<lambda>x. if e_id x \<in> e_id ` set [e] then f (claim_event (now s) x) else x) (outbox s)" for f
      using Suc.prems(3) unfolding same [symmetric]
      by (subst update_one_map) (auto simp: ids)
    have attempts: "e_attempts (claim_event ts x) = e_attempts x + 1" for ts x
      by (simp add: claim_event_def)
    have only: "x = e" if "x \<in> set (outbox s)" "e_id x = e_id e" for x
    proof -
      have "e \<in> set (due config s)" using Cons by simp
      then have "e \<in> set (outbox s)" by (simp add: due_def)
      with that Suc.prems(3) show ?thesis by (auto simp: distinct_map inj_on_def)
    qed
    have sent: "run (dispatch outbox_impl add config settings (e_id e) (e_aggregate e) (e_attempts e + 1)) ?t =
        (Inr (queue_link s = Up), relayed add config settings [e] s)"
    proof (cases "queue_link s = Up")
      case True
      have "update_one (\<lambda>x. e_id x = e_id e) (\<lambda>x. x\<lparr>e_status := DISPATCHED, e_dispatched := Some (now s)\<rparr>) (outbox ?t) =
          map (\<lambda>x. if e_id x \<in> e_id ` set [e] then fate config settings s x else x) (outbox s)"
        unfolding one using True by (simp add: fate_def Let_def)
      then show ?thesis
        using dispatch_run [of ?t add config settings "e_id e" "e_aggregate e" "e_attempts e + 1"] Suc.prems(1) True
        by (simp add: relayed_def)
    next
      case False
      then have "queue_link ?t = RequestLost" using Suc.prems(2) by (cases "queue_link s") simp_all
      note lost = dispatch_lost_run [of ?t add config settings "e_id e" "e_aggregate e" "e_attempts e + 1", OF _ this]
      let ?f = "if outbox_max_attempts config \<le> e_attempts e + 1
        then (\<lambda>e. e\<lparr>e_status := OUTBOX_FAILED, e_error := Some (exn_message net_error), e_claimed := None\<rparr>)
        else (\<lambda>x. x\<lparr>e_status := NEW, e_error := Some (exn_message net_error),
                    e_next_retry := now s + queue_backoff settings * 2 ^ nat (max 0 (e_attempts e + 1 - 1)),
                    e_claimed := None\<rparr>)"
      have "update_one (\<lambda>x. e_id x = e_id e) ?f (outbox ?t) =
          map (\<lambda>x. if e_id x \<in> e_id ` set [e] then fate config settings s x else x) (outbox s)"
        unfolding one using False by (auto simp: fate_def Let_def attempts net_error_def dest!: only)
      then have "?t\<lparr>outbox := update_one (\<lambda>x. e_id x = e_id e) ?f (outbox ?t)\<rparr> = relayed add config settings [e] s"
        using False by (simp add: relayed_def)
      with lost Suc.prems(1) False show ?thesis by (simp cong: if_cong)
    qed
    moreover have "e_id e \<notin> e_id ` set (take n rest)"
      using distinct_due [OF Suc.prems(3), of config] Cons by (auto dest: in_set_takeD)
    ultimately show ?thesis
      using claim Cons sent Suc.IH [of "relayed add config settings [e] s" "if queue_link s = Up then dispatched + 1 else dispatched"]
        Suc.prems due_relayed [OF Suc.prems(3) Cons Suc.prems(4), of add]
      by (auto simp: run_await run_attempt ids attempts relayed_trans outbox_impl_def dispatched_count_def)
  qed
qed (simp add: dispatched_count_def)

text \<open>A whole tick of an instance that is not in a pass already.\<close>

lemma relay_run:
  assumes "db_link s = Up" and "queue_link s \<noteq> ReplyLost" and "distinct (map e_id (outbox s))"
    and "1 \<le> queue_backoff settings"
    and idle: "instance_id \<notin> set (relays_running s)"
  shows "run (relay add config settings instance_id) s =
    (Inr (dispatched_count (take (outbox_batch_size config) (due config s)) s),
     relayed add config settings (take (outbox_batch_size config) (due config s)) s)"
proof -
  let ?s = "s\<lparr>relays_running := instance_id # relays_running s\<rparr>"
  have "run (relay_batch outbox_impl add config settings (outbox_batch_size config) 0) ?s =
      (Inr (dispatched_count (take (outbox_batch_size config) (due config ?s)) ?s), relayed add config settings (take (outbox_batch_size config) (due config ?s)) ?s)"
    using relay_batch_run [of ?s settings add config "outbox_batch_size config" 0] assms by simp
  moreover have "due config ?s = due config s" by (simp add: due_def)
  ultimately show ?thesis
    using idle by (simp add: relay_def tick_def run_await enter_pass_def leave_pass_def relayed_def dispatched_count_def fate_def cong: if_cong)
qed

end
