(* ===== verification/Journey.thy ===== *)
theory Journey
  imports Relaying Scenarios
begin

text \<open>
  The whole way of a request, undisturbed: accepted by \<open>acceptOrder\<close>, announced by its outbox
  event, dispatched by the relay, worked on by the worker.
\<close>

section \<open>From a request to a settled order\<close>

text \<open>What the directories and the identifiers have to be for the card to be charged.\<close>

definition chargeable :: "world \<Rightarrow> create_order_dto \<Rightarrow> bool" where
  "chargeable s dto \<longleftrightarrow> (\<forall>p \<in> set (products s). 0 \<le> pr_price p \<and> pr_price p \<le> MAX_PRICE)
     \<and> (\<forall>cu. lookup cu_id (customers s) (ObjectId (co_customer dto)) = Some cu \<longrightarrow> text_within 200 (cu_card cu))
     \<and> text_within MAX_IDEMPOTENCY_KEY_LENGTH (fresh_id s)"

definition accepted_world :: "order \<Rightarrow> world \<Rightarrow> world" where
  "accepted_world ord s = s\<lparr>orders := orders s @ [ord],
     outbox := outbox s @ [created_event (o_id ord) (o_id ord) (now s)]\<rparr>"

lemma accepted_fields:
  fixes hash :: "string \<Rightarrow> string"
  assumes ok: "acceptable s dto key" and ch: "chargeable s dto"
  defines "ord \<equiv> accepted_order hash dto key s"
  shows "o_id ord = fresh_id s" "o_status ord = PENDING" "o_customer ord = ObjectId (co_customer dto)"
    "0 \<le> o_total ord" "distinct (map i_product (reservation_items ord))"
proof -
  obtain loc items amount where price: "priceOrder dto (catalogue_answer s (map it_product (co_items dto))) = Inr (items, amount)"
    and ord: "ord = new_order (fresh_id s) key (fingerprintRequest hash dto) dto loc items amount (now s)"
    using accepted_parts [OF ok, of hash] unfolding ord_def by metis
  have valid: "CreateOrderDto_valid dto" and cat: "in_catalogue s dto" using ok by (simp_all add: acceptable_def)
  have items: "price_items (co_items dto) (catalogue_answer s (map it_product (co_items dto))) = Inr items"
    using price by (auto simp: priceOrder_def split: sum.splits)
  have "\<forall>p \<in> set (catalogue_answer s (map it_product (co_items dto))). 0 \<le> pr_price p \<and> pr_price p \<le> MAX_PRICE"
    using ch by (simp add: catalogue_answer_def chargeable_def)
  from priced_total_exact(2) [OF price valid this] have "0 \<le> amount" by simp
  moreover have "map oi_product items = map it_product (co_items dto)"
    using price_items_shape [OF items] cat by (simp add: in_catalogue_def)
  moreover have "distinct (map it_product (co_items dto))"
    using valid unfolding CreateOrderDto_valid_def unique_product_ids_def by (metis length_remdups_eq remdups_id_iff_distinct)
  ultimately show "0 \<le> o_total ord" "distinct (map i_product (reservation_items ord))"
    by (simp_all add: ord new_order_def reservation_items_def comp_def)
  show "o_id ord = fresh_id s" "o_status ord = PENDING" "o_customer ord = ObjectId (co_customer dto)"
    by (simp_all add: ord new_order_def)
qed

lemma accepted_fresh:
  fixes hash :: "string \<Rightarrow> string"
  assumes ok: "acceptable s dto key" and ch: "chargeable s dto" and I: "consistent s"
  defines "ord \<equiv> accepted_order hash dto key s"
  shows "run (acceptOrder hash dto key) s = (Inr (OrderResponseDto_from ord), accepted_world ord s)"
    and "at_status (accepted_world ord s) (fresh_id s) ord PENDING"
    and "movement_of (accepted_world ord s) (fresh_id s) RESERVE = None"
proof -
  note fields = accepted_fields [OF ok ch, of hash, folded ord_def]
  show run: "run (acceptOrder hash dto key) s = (Inr (OrderResponseDto_from ord), accepted_world ord s)"
    using accept_creates_run [OF ok I, of hash] fields(1) by (simp add: accepted_world_def ord_def)
  have "consistent (accepted_world ord s)"
    using rg.safe_run [OF safe_acceptOrder [OF I] I run] ok by (simp add: acceptable_def)
  moreover have none: "order_of s (fresh_id s) = None" using ok by (simp add: acceptable_def)
  then have "order_of (accepted_world ord s) (fresh_id s) = Some ord"
    using fields(1) by (simp add: order_of_def accepted_world_def lookup_append)
  ultimately show "at_status (accepted_world ord s) (fresh_id s) ord PENDING" using fields(2) by (simp add: at_status_def)
  have "order_ok (order_of s (fresh_id s)) (movement_of s (fresh_id s) RESERVE) (movement_of s (fresh_id s) RELEASE)
      (charge_of s (fresh_id s))"
    using I unfolding consistent_def by blast
  with none show "movement_of (accepted_world ord s) (fresh_id s) RESERVE = None"
    by (simp add: order_ok_def movement_of_def accepted_world_def)
qed

text \<open>The new event is the last of those due.\<close>

lemma due_accepted: "due config (accepted_world ord s) = due config s @ [created_event (o_id ord) (o_id ord) (now s)]"
proof -
  let ?P = "claimable_event (outbox_claim_timeout config) (now s)"
  have new: "?P (created_event (o_id ord) (o_id ord) (now s))" "e_next_retry (created_event (o_id ord) (o_id ord) (now s)) = now s"
    by (simp_all add: claimable_event_def created_event_def)
  have "sort_key e_next_retry (filter ?P (outbox s) @ [created_event (o_id ord) (o_id ord) (now s)]) =
      sort_key e_next_retry (filter ?P (outbox s)) @ [created_event (o_id ord) (o_id ord) (now s)]"
    by (rule sort_key_last) (auto simp: claimable_event_def new)
  then show ?thesis using new(1) by (simp add: due_def accepted_world_def)
qed

lemma movement_of_relayed: "movement_of (relayed add config settings sent s) oid k = movement_of s oid k"
  by (simp add: movement_of_def relayed_def)

lemma relayed_keeps:
  assumes "consistent s" shows "consistent (relayed add config settings sent s)"
    and "at_status (relayed add config settings sent s) oid ord st = at_status s oid ord st"
    and "calm (relayed add config settings sent s) = calm s"
proof -
  let ?events = "map (\<lambda>e. if e_id e \<in> e_id ` set sent then fate config settings s e else e) (outbox s)"
  have "map event_key ?events = map event_key (outbox s)" "map e_id ?events = map e_id (outbox s)"
    by (simp_all add: event_key_def)
  from events_step [OF assms this] have "consistent (s\<lparr>outbox := ?events\<rparr>)" by simp
  then show I: "consistent (relayed add config settings sent s)"
    using unseen_step(1) [of "relayed add config settings sent s" "s\<lparr>outbox := ?events\<rparr>"] by (simp add: relayed_def)
  show "calm (relayed add config settings sent s) = calm s" by (simp add: calm_def relayed_def)
  show "at_status (relayed add config settings sent s) oid ord st = at_status s oid ord st"
    using I assms by (simp add: at_status_def order_of_def relayed_def)
qed

text \<open>What becomes of a request, by the stock and the card.\<close>

definition destiny :: "world \<Rightarrow> order \<Rightarrow> customer \<Rightarrow> order_status" where
  "destiny s ord cu =
     (if nearest_sufficient (o_coordinates ord) (reservation_items ord) s = None then FAILED
      else if pinned_decline (cu_card cu) s then COMPENSATED else COMPLETED)"

lemma worker_destiny:
  assumes pending: "at_status s oid ord PENDING" and calm: "calm s" and new: "movement_of s oid RESERVE = None"
    and dist: "distinct (map i_product (reservation_items ord))"
    and hex: "is_mongo_id (o_customer ord)" and cu: "lookup cu_id (customers s) (ObjectId (o_customer ord)) = Some cu"
    and valid: "AuthorizeChargeDto_valid (charge_request ord cu)"
  shows "\<exists>t ord'. run (worker oid) s = (Inr (), t) \<and> order_of t oid = Some ord' \<and> o_status ord' = destiny s ord cu"
proof (cases "nearest_sufficient (o_coordinates ord) (reservation_items ord) s")
  case None
  with worker_out_of_stock_run [OF pending calm new] show ?thesis by (auto simp: at_status_def destiny_def)
next
  case (Some c)
  have "o_id ord = oid" using pending by (auto simp: at_status_def dest: order_of_id)
  with Some new dist hex cu valid have serv: "servable s ord c cu" by (simp add: servable_def)
  show ?thesis
  proof (cases "pinned_decline (cu_card cu) s")
    case True
    from worker_declines_run [OF pending calm serv True] Some True show ?thesis by (auto simp: at_status_def destiny_def)
  next
    case False
    from worker_completes_run [OF pending calm serv False] Some False show ?thesis by (auto simp: at_status_def destiny_def)
  qed
qed

lemma journey:
  assumes ok: "acceptable s dto key" and ch: "chargeable s dto" and I: "consistent s"
    and cu: "lookup cu_id (customers s) (ObjectId (co_customer dto)) = Some cu"
    and up: "queue_link s = Up" "1 \<le> queue_backoff settings" and idle: "instance_id \<notin> set (relays_running s)"
    and room: "length (due config s) < outbox_batch_size config"
  shows "\<exists>ord t u v ord'. run (acceptOrder hash dto key) s = (Inr (OrderResponseDto_from ord), t)
    \<and> run (relay add config settings instance_id) t = (Inr (length (due config s) + 1), u)
    \<and> jobs u = add (saga_job settings (fresh_id s) (o_id ord))
        (fold (\<lambda>e. add (saga_job settings (e_id e) (e_aggregate e))) (due config s) (jobs s))
    \<and> run (worker (o_id ord)) u = (Inr (), v)
    \<and> order_of v (o_id ord) = Some ord' \<and> o_status ord' = destiny s ord cu"
proof -
  define ord where "ord = accepted_order hash dto key s"
  note fields = accepted_fields [OF ok ch, of hash, folded ord_def]
  note accept = accepted_fresh [OF ok ch I, of hash, folded ord_def]
  let ?t = "accepted_world ord s"
  let ?sent = "due config s @ [created_event (o_id ord) (o_id ord) (now s)]"
  have calm: "calm s" using ok by (simp add: acceptable_def)
  have t: "consistent ?t" "calm ?t" using accept(2) calm by (simp_all add: at_status_def calm_def accepted_world_def)
  have due: "take (outbox_batch_size config) (due config ?t) = ?sent" using room by (simp add: due_accepted)
  have relay: "run (relay add config settings instance_id) ?t = (Inr (length (due config s) + 1), relayed add config settings ?sent ?t)"
    using relay_run [of ?t settings instance_id add config] t up idle due
    by (simp add: calm_def consistent_def indexed_def) (simp add: accepted_world_def dispatched_count_def)
  let ?u = "relayed add config settings ?sent ?t"
  have u: "at_status ?u (fresh_id s) ord PENDING" "calm ?u" "movement_of ?u (fresh_id s) RESERVE = None"
    using accept(2,3) t(2) by (simp_all add: relayed_keeps [OF t(1)] movement_of_relayed)
  have same: "customers ?u = customers s" "cards ?u = cards s" "stock ?u = stock s" "geo_near ?u = geo_near s"
    "warehouses ?u = warehouses s"
    by (simp_all add: relayed_def accepted_world_def)
  have "is_mongo_id (o_customer ord)"
    using ok by (simp add: fields acceptable_def CreateOrderDto_valid_def is_mongo_ObjectId)
  moreover have "lookup cu_id (customers ?u) (ObjectId (o_customer ord)) = Some cu" unfolding same by (simp add: fields cu)
  moreover have "AuthorizeChargeDto_valid (charge_request ord cu)"
    using ch cu fields by (simp add: AuthorizeChargeDto_valid_def charge_request_def chargeable_def text_within_def
        MAX_IDEMPOTENCY_KEY_LENGTH_def)
  ultimately obtain v ord' where work: "run (worker (fresh_id s)) ?u = (Inr (), v)" "order_of v (fresh_id s) = Some ord'"
      "o_status ord' = destiny ?u ord cu"
    using worker_destiny [OF u fields(5)] by blast
  have "destiny ?u ord cu = destiny s ord cu"
    by (simp add: destiny_def nearest_sufficient_def aggregate_warehouses_def pinned_decline_def card_state_def same)
  with work have work: "run (worker (o_id ord)) ?u = (Inr (), v)" "order_of v (o_id ord) = Some ord'"
      "o_status ord' = destiny s ord cu"
    by (simp_all add: fields)
  have "jobs ?u = add (saga_job settings (fresh_id s) (o_id ord))
      (fold (\<lambda>e. add (saga_job settings (e_id e) (e_aggregate e))) (due config s) (jobs s))"
    by (simp add: relayed_def accepted_world_def fields created_event_def up)
  with accept(1) relay work show ?thesis by blast
qed

section \<open>One dispatch\<close>

text \<open>An event whose job the queue takes is dispatched; when the queue is out of reach the
  event goes back to \<open>NEW\<close> with a pause that doubles with every attempt, and after the
  last attempt it is given up. Nothing but this event changes.\<close>

theorem dispatch_outcomes:
  assumes "db_link s = Up" and "queue_link s \<noteq> ReplyLost" and "1 \<le> attempts"
  shows "run (dispatch outbox_impl add config settings eventId orderId attempts) s =
    (let update = (\<lambda>f. update_one (\<lambda>e. e_id e = eventId) f (outbox s))
     in if queue_link s = Up
        then (Inr True, s\<lparr>jobs := add (saga_job settings eventId orderId) (jobs s),
                outbox := update (\<lambda>e. e\<lparr>e_status := DISPATCHED, e_dispatched := Some (now s)\<rparr>)\<rparr>)
        else if outbox_max_attempts config \<le> attempts
        then (Inr False, s\<lparr>outbox := update (\<lambda>e. e\<lparr>e_status := OUTBOX_FAILED, e_error := Some ''connection lost'', e_claimed := None\<rparr>)\<rparr>)
        else (Inr False, s\<lparr>outbox := update (\<lambda>e. e\<lparr>e_status := NEW, e_error := Some ''connection lost'',
                e_next_retry := now s + queue_backoff settings * 2 ^ nat (attempts - 1), e_claimed := None\<rparr>)\<rparr>))"
proof (cases "queue_link s = Up")
  case True
  then show ?thesis using dispatch_run [OF assms(1), of add config settings] by simp
next
  case False
  then have "queue_link s = RequestLost" using assms(2) by (cases "queue_link s") simp_all
  from dispatch_lost_run [OF assms(1) this, of add config settings] False assms(3) show ?thesis
    by (simp add: net_error_def)
qed

lemma dispatch_outcomes_witness:
  "map e_status (outbox (snd (run (dispatch outbox_impl (\<lambda>j js. js @ [j]) (orders_settings demo_setting) (queue_settings demo_setting)
      ''o1'' ''o1'' 1) (demo_accepted APPROVE 5)))) = [DISPATCHED]"
  using dispatch_outcomes [of "demo_accepted APPROVE 5" 1 "\<lambda>j js. js @ [j]" "orders_settings demo_setting" "queue_settings demo_setting"
      "''o1''" "''o1''"]
  by (simp add: demo_accepted_def demo_world_def created_event_def)

section \<open>Single requests\<close>

text \<open>A request sent again after it was answered is answered with the same order and changes
  nothing.\<close>

theorem accept_is_idempotent:
  assumes "acceptable s dto key" and "consistent s"
  shows "\<exists>r t. run (acceptOrder hash dto key) s = (Inr r, t) \<and> run (acceptOrder hash dto key) t = (Inr r, t)
    \<and> length (orders t) = length (orders s) + 1 \<and> length (outbox t) = length (outbox s) + 1"
proof -
  let ?ord = "accepted_order hash dto key s"
  let ?t = "s\<lparr>orders := orders s @ [?ord], outbox := outbox s @ [created_event (fresh_id s) (fresh_id s) (now s)]\<rparr>"
  have ord: "order_key ?ord = (ObjectId (co_customer dto), key)" "o_fingerprint ?ord = fingerprintRequest hash dto"
    by (rule accepted_key [OF assms(1)])+
  have up: "db_link ?t = Up" and "lookup order_key (orders ?t) (ObjectId (co_customer dto), key) = Some ?ord"
    using assms(1) ord(1) by (simp_all add: acceptable_def calm_def lookup_append)
  from accept_replay_run [OF this, of hash] ord(2)
  have "run (acceptOrder hash dto key) ?t = (Inr (OrderResponseDto_from ?ord), ?t)" by simp
  with accept_creates_run [OF assms, of hash] show ?thesis
    by (intro exI [of _ "OrderResponseDto_from ?ord"] exI [of _ ?t]) simp
qed

lemma accept_is_idempotent_witness:
  "\<exists>r t. run (acceptOrder (\<lambda>v. v) demo_request ''k'') (demo_world APPROVE 5) = (Inr r, t)
    \<and> run (acceptOrder (\<lambda>v. v) demo_request ''k'') t = (Inr r, t) \<and> length (orders t) = 1"
proof -
  have "length (orders (demo_world APPROVE 5)) = 0" by (simp add: demo_world_def)
  with accept_is_idempotent [OF demo_acceptable [of APPROVE 5] fresh_consistent [OF demo_fresh], of "\<lambda>v. v"]
  show ?thesis by auto
qed

text \<open>The catalogue client gets back exactly the products it asked for, its list of ids
  surviving the way through the query text, or fails naming the missing ones.\<close>

theorem catalogue_round_trip:
  assumes "calm s" and "ids \<noteq> []" and "\<forall>v \<in> set ids. is_mongo_id v \<and> ObjectId v = v"
  shows "run (getProductsById ids) s =
    ((if set ids \<subseteq> pr_id ` set (products s) then Inr (filter (\<lambda>p. pr_id p \<in> set ids) (products s))
      else Inl (PlainError (''Products not found for IDs: '' @ join '', '' (filter (\<lambda>v. v \<notin> pr_id ` set (products s)) ids)))), s)"
proof -
  have ids: "\<forall>v \<in> set ids. is_mongo_id v" and same: "ObjectId ` set ids = set ids" using assms(3) by force+
  have answer: "catalogue_answer s ids = filter (\<lambda>p. pr_id p \<in> set ids) (products s)"
    by (simp add: catalogue_answer_def same)
  have "filter (\<lambda>pid. \<not> list_ex (\<lambda>product. pr_id product = pid) (catalogue_answer s ids)) ids =
      filter (\<lambda>v. v \<notin> pr_id ` set (products s)) ids"
    by (rule filter_cong) (auto simp: answer list_ex_iff)
  then show ?thesis
    using run_products [OF assms(1) ids assms(2)] by (auto simp: Let_def answer filter_empty_conv)
qed

lemma catalogue_round_trip_witness:
  "\<exists>found. run (getProductsById [demo_product]) (demo_world APPROVE 5) = (Inr found, demo_world APPROVE 5) \<and> map pr_id found = [demo_product]"
proof -
  have "is_mongo_id demo_product" by code_simp
  moreover have "calm (demo_world APPROVE 5)" using demo_acceptable [of APPROVE 5] by (simp add: acceptable_def)
  ultimately show ?thesis
    using catalogue_round_trip [of "demo_world APPROVE 5" "[demo_product]"] demo_ids(1) by (simp add: demo_world_def)
qed

end
