(* ===== verification/Console.thy ===== *)
theory Console
  imports Requests Config "HOL-Library.Word" "HOL-Library.AList"
begin

unbundle bit_operations_syntax

text \<open>
  The browser console, \<open>frontend/app.js\<close>: what it sends and what it makes of the answers. The
  document tree is left out; a form is what its fields hold.
\<close>

section \<open>Idempotency keys\<close>

text \<open>\<open>toString(16)\<close> of a byte, \<open>padStart\<close> and \<open>slice\<close>.\<close>

definition to_hex :: "nat \<Rightarrow> string" where
  "to_hex n = (if n < 16 then [json_hex n] else [json_hex (n div 16), json_hex (n mod 16)])"

definition padStart :: "nat \<Rightarrow> char \<Rightarrow> string \<Rightarrow> string" where
  "padStart n c v = replicate (n - length v) c @ v"

definition slice :: "nat \<Rightarrow> nat \<Rightarrow> string \<Rightarrow> string" where
  "slice i j v = take (j - i) (drop i v)"

text \<open>
  \<open>native\<close> is \<open>crypto.randomUUID\<close>, where the page has it, and \<open>random_bytes\<close> the sixteen of
  \<open>getRandomValues\<close>.
\<close>

definition mark_version :: "8 word list \<Rightarrow> 8 word list" where
  "mark_version bytes =
     (let bytes = bytes[6 := (bytes ! 6 AND 0x0F) OR 0x40]
      in bytes[8 := (bytes ! 8 AND 0x3F) OR 0x80])"

definition generateUUID :: "string option \<Rightarrow> 8 word list \<Rightarrow> string" where
  "generateUUID native random_bytes =
     (case native of
        Some v \<Rightarrow> v
      | None \<Rightarrow>
          (let hex = concat (map (\<lambda>b. padStart 2 (CHR ''0'') (to_hex (unat b))) (mark_version random_bytes))
           in slice 0 8 hex @ ''-'' @ slice 8 12 hex @ ''-'' @ slice 12 16 hex @ ''-'' @ slice 16 20 hex @ ''-'' @ drop 20 hex))"

definition hex_byte :: "8 word \<Rightarrow> string" where
  "hex_byte b = [json_hex (unat b div 16), json_hex (unat b mod 16)]"

lemma byte_bound: "unat (b :: 8 word) < 256"
proof -
  have "unat b < 2 ^ LENGTH(8)" by (rule unsigned_less)
  then show ?thesis by simp
qed

lemma padded_byte: "padStart 2 (CHR ''0'') (to_hex (unat b)) = hex_byte b"
proof -
  have "json_hex 0 = CHR ''0''" by code_simp
  then show ?thesis by (auto simp: padStart_def to_hex_def hex_byte_def)
qed

lemma byte_cases:
  assumes "list_all (\<lambda>n. P (of_nat n :: 8 word)) [0..<256]"
  shows "P b"
proof -
  from assms have "\<forall>n \<in> {0..<256}. P (of_nat n :: 8 word)" by (simp add: list_all_iff)
  from bspec [OF this, of "unat b"] byte_bound [of b] show ?thesis by simp
qed

lemma version_nibble: "unat (((b :: 8 word) AND 15) OR 64) div 16 = 4"
  by (rule byte_cases) code_simp

lemma variant_nibble: "unat (((b :: 8 word) AND 63) OR 128) div 16 \<in> {8, 9, 10, 11}"
  by (rule byte_cases) code_simp

lemma hex_plain: "is_hex c \<Longrightarrow> \<not> js_space c \<and> c \<noteq> CHR ''-''"
  by (auto simp: is_hex_def js_space_def)

lemma is_hex_json_hex: "n < 16 \<Longrightarrow> is_hex (json_hex n)"
  by (auto simp: is_hex_def json_hex_def Let_def)

lemma sixteen:
  assumes "length bytes = 16"
  shows "bytes = [bytes ! 0, bytes ! 1, bytes ! 2, bytes ! 3, bytes ! 4, bytes ! 5, bytes ! 6, bytes ! 7,
    bytes ! 8, bytes ! 9, bytes ! 10, bytes ! 11, bytes ! 12, bytes ! 13, bytes ! 14, bytes ! 15]"
proof -
  have "bytes = map (\<lambda>i. bytes ! i) [0..<16]" using assms map_nth [of bytes] by simp
  then show ?thesis by (simp add: upt_conv_Cons eval_nat_numeral)
qed

lemma trim_plain:
  assumes "v \<noteq> []" and "\<not> js_space (hd v)" and "\<not> js_space (last v)"
  shows "trim v = v"
proof -
  have "dropWhile js_space v = v" using assms(1,2) by (cases v) simp_all
  moreover have "dropWhile js_space (rev v) = rev v"
    using assms(3) by (simp add: dropWhile_eq_self_iff hd_rev)
  ultimately show ?thesis by (simp add: trim_def)
qed

lemma trim_trim [simp]: "trim (trim v) = trim v"
proof (cases "trim v = []")
  case True
  moreover have "trim [] = []" by (simp add: trim_def)
  ultimately show ?thesis by simp
next
  case False
  let ?w = "dropWhile js_space v"
  have "?w = trim v @ rev (takeWhile js_space (rev ?w))"
    unfolding trim_def rev_append [symmetric] by simp
  then have "hd (trim v) = hd ?w" "?w \<noteq> []" using False by (metis hd_append2, metis append_is_Nil_conv)
  then have "\<not> js_space (hd (trim v))" using hd_dropWhile [of js_space v] by simp
  moreover have "\<not> js_space (last (trim v))"
    using False hd_dropWhile [of js_space "rev ?w"] by (simp add: trim_def last_rev)
  ultimately show ?thesis using trim_plain False by blast
qed

lemma generated_key:
  assumes "length bytes = 16"
  defines "v \<equiv> generateUUID None bytes"
  shows "length v = 36" and "v ! 14 = CHR ''4''" and "v ! 19 \<in> set ''89ab''"
    and "map (\<lambda>i. v ! i) [8, 13, 18, 23] = ''----''"
    and "length (filter is_hex v) = 32"
    and "extractIdempotencyKey (v # rest) = Inr v"
proof -
  obtain b0 b1 b2 b3 b4 b5 b6 b7 b8 b9 b10 b11 b12 b13 b14 b15
    where bytes: "bytes = [b0, b1, b2, b3, b4, b5, b6, b7, b8, b9, b10, b11, b12, b13, b14, b15]"
    using sixteen [OF assms(1)] by blast
  let ?b6 = "(b6 AND 15) OR 64" and ?b8 = "(b8 AND 63) OR 128"
  have v: "v = hex_byte b0 @ hex_byte b1 @ hex_byte b2 @ hex_byte b3 @ ''-'' @ hex_byte b4 @ hex_byte b5 @ ''-''
     @ hex_byte ?b6 @ hex_byte b7 @ ''-'' @ hex_byte ?b8 @ hex_byte b9 @ ''-''
     @ hex_byte b10 @ hex_byte b11 @ hex_byte b12 @ hex_byte b13 @ hex_byte b14 @ hex_byte b15"
    unfolding v_def generateUUID_def padded_byte bytes mark_version_def
    by (simp add: slice_def hex_byte_def Let_def)
  have nib: "unat b div 16 < 16" "unat b mod 16 < 16" for b :: "8 word"
    using byte_bound [of b] by simp_all
  show len: "length v = 36" by (simp add: v hex_byte_def)
  show "v ! 14 = CHR ''4''"
    by (simp add: v hex_byte_def version_nibble) code_simp
  show "v ! 19 \<in> set ''89ab''"
  proof -
    have "map json_hex [8, 9, 10, 11] = ''89ab''" by code_simp
    then show ?thesis using variant_nibble [of b8] by (auto simp: v hex_byte_def)
  qed
  show "map (\<lambda>i. v ! i) [8, 13, 18, 23] = ''----''"
    by (simp add: v hex_byte_def)
  have dash: "\<not> is_hex (CHR ''-'')" by (simp add: is_hex_def)
  show "length (filter is_hex v) = 32"
    by (simp add: v hex_byte_def dash is_hex_json_hex nib)
  have "hd v = json_hex (unat b0 div 16)" "last v = json_hex (unat b15 mod 16)" "v \<noteq> []"
    by (simp_all add: v hex_byte_def)
  then have "trim v = v" using trim_plain [of v] hex_plain [OF is_hex_json_hex [OF nib(1)]] hex_plain [OF is_hex_json_hex [OF nib(2)]] by simp
  then show "extractIdempotencyKey (v # rest) = Inr v"
    using len by (auto simp: extractIdempotencyKey_def MAX_IDEMPOTENCY_KEY_LENGTH_def)
qed

section \<open>Answers of the server\<close>

text \<open>
  \<open>apiFetch\<close> on an answer, by what \<open>JSON.parse\<close> makes of its text; \<open>NotJson\<close> carries the
  message of the error it throws. A list of messages becomes text with commas.
\<close>

datatype 'a reply = NoText | Answer 'a | Refusal error_json | NotJson string

definition apiFetch :: "bool \<Rightarrow> string \<Rightarrow> 'a reply \<Rightarrow> string + 'a option" where
  "apiFetch ok statusText response =
     (case response of
        NotJson message \<Rightarrow> Inl message
      | NoText \<Rightarrow> if ok then Inr None else Inl statusText
      | Answer body \<Rightarrow> if ok then Inr (Some body) else Inl statusText
      | Refusal body \<Rightarrow>
          if ok then Inr None
          else (let text = join '','' (ej_message body);
                    message = (if text \<noteq> [] then text else statusText);
                    code = (case ej_code body of
                              None \<Rightarrow> []
                            | Some v \<Rightarrow> if v \<noteq> [] then '' ('' @ v @ '')'' else [])
                in Inl (message @ code)))"

text \<open>What a user reads of a refused order, and of an error of the server's own.\<close>

lemma apiFetch_domain_error:
  assumes "domain_error e = Some (status, code)" and "code \<noteq> []" and "exn_message e \<noteq> []"
  shows "apiFetch False statusText (Refusal (snd (exception_filter e))) = Inl (exn_message e @ '' ('' @ code @ '')'')"
  using assms by (simp add: apiFetch_def exception_filter_def)

lemma apiFetch_internal_error:
  assumes "domain_error e = None" and "\<And>status body. e \<noteq> HttpException status body"
  shows "apiFetch False statusText (Refusal (snd (exception_filter e))) = Inl ''Internal server error (INTERNAL_ERROR)''"
  using exception_filter_opaque [OF assms] by (simp add: apiFetch_def)

section \<open>Amounts and badges\<close>

text \<open>\<open>toFixed(2)\<close>: the whole number of hundredths nearest to the value, the larger one on a tie.\<close>

definition toFixed2 :: "rat \<Rightarrow> string" where
  "toFixed2 x =
     (let n = nat \<lfloor>\<bar>x\<bar> * 100 + 1 / 2\<rfloor>
      in (if x < 0 then ''-'' else []) @ show_nat (n div 100) @ ''.'' @ padStart 2 (CHR ''0'') (show_nat (n mod 100)))"

definition formatMoney :: "int \<Rightarrow> string" where
  "formatMoney minorUnits = ''$'' @ toFixed2 (double (of_int minorUnits / 100))"

lemma formatMoney_exact:
  assumes "k \<le> 2 ^ 50"
  shows "formatMoney (int k) = ''$'' @ show_nat (k div 100) @ ''.'' @ padStart 2 (CHR ''0'') (show_nat (k mod 100))"
proof -
  let ?k = "of_nat k :: rat" and ?p = "double (of_nat k / 100)"
  have k: "0 \<le> ?k" "?k \<le> 2 ^ 50"
    using assms by (simp, metis of_nat_le_iff of_nat_numeral of_nat_power)
  from double_error [of "?k / 100"] k
  have p: "?k / 100 - ?p \<le> ?k / 100 / 2 ^ 53" "?p - ?k / 100 \<le> ?k / 100 / 2 ^ 53"
    by (simp_all only: abs_le_iff minus_diff_eq zero_le_divide_iff) simp_all
  with k have "0 \<le> ?p" by simp
  moreover have "\<lfloor>?p * 100 + 1 / 2\<rfloor> = int k"
    using p k by (intro floor_unique) simp_all
  ultimately show ?thesis by (simp add: formatMoney_def toFixed2_def)
qed

text \<open>The text of a status, and the class of its badge.\<close>

primrec status_text :: "order_status \<Rightarrow> string" where
  "status_text PENDING = ''PENDING''"
| "status_text STOCK_RESERVED = ''STOCK_RESERVED''"
| "status_text PAYMENT_AUTHORIZED = ''PAYMENT_AUTHORIZED''"
| "status_text COMPLETED = ''COMPLETED''"
| "status_text COMPENSATING = ''COMPENSATING''"
| "status_text COMPENSATED = ''COMPENSATED''"
| "status_text FAILED = ''FAILED''"

definition statusClass :: "string \<Rightarrow> string" where
  "statusClass status =
     ''status-badge status-'' @ map (\<lambda>c. if c = CHR ''_'' then CHR ''-'' else c) (map lower status)"

lemma badges_distinct: "distinct (map (\<lambda>st. statusClass (status_text st)) ORDER_STATUSES)"
  by code_simp

text \<open>
  The list of orders: a message (text and kind) and, per order, its id, badge class, status
  and amount. A listing that fails leaves the rows as they are.
\<close>

definition renderOrders :: "order_response list \<Rightarrow> (string \<times> string) \<times> (string \<times> string \<times> string \<times> string) list" where
  "renderOrders ords =
     (if ords = [] then ((''No orders yet.'', ''info''), [])
      else (([], ''info''),
            map (\<lambda>r. (or_order r, statusClass (status_text (or_status r)), status_text (or_status r),
                      formatMoney (or_total r))) ords))"

definition loadOrders :: "string + order_response list \<Rightarrow> (string \<times> string \<times> string \<times> string) list \<Rightarrow>
    (string \<times> string) \<times> (string \<times> string \<times> string \<times> string) list" where
  "loadOrders fetched rows =
     (case fetched of
        Inl message \<Rightarrow> ((''Could not load orders: '' @ message, ''error''), rows)
      | Inr ords \<Rightarrow> renderOrders ords)"

section \<open>The order form\<close>

text \<open>
  A row is the product chosen and the text of its quantity; a new one has the first product
  and one of it. The last row cannot be removed.
\<close>

type_synonym item_row = "string \<times> string"

definition addItemRow :: "string \<Rightarrow> item_row list \<Rightarrow> item_row list" where
  "addItemRow first_product rows = rows @ [(first_product, ''1'')]"

definition removeItemRow :: "nat \<Rightarrow> item_row list \<Rightarrow> item_row list" where
  "removeItemRow i rows = (if length rows > 1 then take i rows @ drop (Suc i) rows else rows)"

lemma addItemRow_nonempty: "addItemRow p rows \<noteq> []"
  by (simp add: addItemRow_def)

lemma removeItemRow_nonempty: "rows \<noteq> [] \<Longrightarrow> removeItemRow i rows \<noteq> []"
  by (cases "i = 0"; cases rows) (auto simp: removeItemRow_def)

record order_form =
  of_customer :: string
  of_address :: string
  of_key :: string
  of_rows :: "item_row list"

text \<open>The body as it is sent; \<open>None\<close> is a quantity that is no number, \<open>null\<close> in the text.\<close>

record order_body =
  ob_customer :: string
  ob_address :: string
  ob_items :: "(string \<times> rat option) list"

definition submitOrder :: "string \<Rightarrow> order_form \<Rightarrow> string + string \<times> order_body" where
  "submitOrder generated form =
     (let key = (if trim (of_key form) \<noteq> [] then trim (of_key form) else generated);
          items = map (\<lambda>(product, quantity). (product, js_number quantity)) (of_rows form)
      in if of_customer form = [] \<or> of_address form = [] \<or> list_ex (\<lambda>i. fst i = []) items
         then Inl ''Please fill in all fields before submitting.''
         else Inr (key, \<lparr>ob_customer = of_customer form, ob_address = of_address form, ob_items = items\<rparr>))"

text \<open>The request as the server types it: every quantity must be a whole number.\<close>

definition whole :: "rat option \<Rightarrow> int option" where
  "whole q = (case q of None \<Rightarrow> None | Some x \<Rightarrow> if of_int \<lfloor>x\<rfloor> = x then Some \<lfloor>x\<rfloor> else None)"

definition received :: "order_body \<Rightarrow> create_order_dto option" where
  "received body =
     (if list_all (\<lambda>i. whole (snd i) \<noteq> None) (ob_items body)
      then Some \<lparr>co_customer = ob_customer body, co_address = ob_address body,
                 co_items = map (\<lambda>i. \<lparr>it_product = fst i, it_quantity = the (whole (snd i))\<rparr>) (ob_items body)\<rparr>
      else None)"

text \<open>Decimal digits are the number they spell.\<close>

lemma digits_plain:
  assumes "is_digit c"
  shows "\<not> js_space c" and "lower c = c" and "c \<noteq> CHR ''-''" and "c \<noteq> CHR ''+''"
    and "c \<notin> {CHR ''x'', CHR ''o'', CHR ''b''}"
  using assms by (auto simp: is_digit_def js_space_def lower_def)

lemma read_decimal_digits:
  assumes "list_all is_digit v" and "v \<noteq> []"
  shows "read_decimal v = Some (of_nat (read_nat v))"
proof -
  have parts: "takeWhile is_digit v = v" "dropWhile is_digit v = []"
    using assms(1) by (simp_all add: list_all_iff takeWhile_eq_all_conv dropWhile_eq_Nil_conv)
  show ?thesis using assms(2) by (simp add: read_decimal_def Let_def parts read_exponent_def scaled_def)
qed

lemma js_number_digits:
  assumes "list_all is_digit v" and "v \<noteq> []" and "read_nat v \<le> 2 ^ 53"
  shows "js_number v = Some (of_nat (read_nat v))"
proof -
  have ends: "is_digit (hd v)" "is_digit (last v)" using assms(1,2) by (simp_all add: list_all_iff)
  then have trim: "trim v = v" using trim_plain [of v] assms(2) digits_plain(1) by blast
  have double: "double (of_nat (read_nat v)) = of_nat (read_nat v)"
    using double_int [of "int (read_nat v)"] assms(3) by simp
  have "(of_nat (read_nat v) :: rat) \<le> 2 ^ 53" using assms(3) by (metis of_nat_le_iff of_nat_numeral of_nat_power)
  then have finite: "finite_double (of_nat (read_nat v)) = Some (of_nat (read_nat v))"
    by (simp add: finite_double_def double Let_def)
  obtain c rest where v: "v = c # rest" using assms(2) by (cases v) auto
  have plain: "c \<noteq> CHR ''-''" "c \<noteq> CHR ''+''" using digits_plain(3,4) ends(1) by (simp_all add: v)
  have "rest \<noteq> [] \<Longrightarrow> lower (hd rest) \<notin> {CHR ''x'', CHR ''o'', CHR ''b''}"
    using digits_plain(2,5) [of "hd rest"] assms(1) by (simp add: v list_all_iff)
  then have "js_number v = Option.bind (read_decimal (c # rest)) finite_double"
    using plain unfolding js_number_def trim by (auto simp: v)
  then show ?thesis using read_decimal_digits [OF assms(1,2)] finite by (simp add: v)
qed

lemma show_nat_nonempty [simp]: "show_nat n \<noteq> []"
  by (subst show_nat.simps) simp

lemma js_number_show_nat: "n \<le> 2 ^ 53 \<Longrightarrow> js_number (show_nat n) = Some (of_nat n)"
  using js_number_digits [OF show_nat_digits [of n]] by simp

text \<open>
  A form filled in from the lists the server gave, with whole quantities from 1 to 1000 and no
  product twice, is a request the server finds valid, with these quantities.
\<close>

lemma submitted_request_valid:
  assumes "is_mongo_id (of_customer form)" and "rows \<noteq> []" and "length rows \<le> 100"
    and "3 \<le> length (of_address form)" and "length (of_address form) \<le> 500" and "list_all address_char (of_address form)"
    and "\<forall>(p, n) \<in> set rows. is_mongo_id p \<and> 1 \<le> n \<and> n \<le> 1000" and "distinct (map fst rows)"
    and "of_rows form = map (\<lambda>(p, n). (p, show_nat n)) rows"
  shows "\<exists>body dto. submitOrder generated form =
      Inr (if trim (of_key form) \<noteq> [] then trim (of_key form) else generated, body) \<and> received body = Some dto \<and> CreateOrderDto_valid dto
    \<and> map (\<lambda>i. (it_product i, it_quantity i)) (co_items dto) = map (\<lambda>(p, n). (p, int n)) rows"
proof -
  have num: "js_number (show_nat n) = Some (of_nat n)" if "(p, n) \<in> set rows" for p n
    using that assms(7) by (intro js_number_show_nat) fastforce
  let ?items = "map (\<lambda>(p, n). (p, Some (of_nat n :: rat))) rows"
  let ?body = "\<lparr>ob_customer = of_customer form, ob_address = of_address form, ob_items = ?items\<rparr>"
  let ?dto = "\<lparr>co_customer = of_customer form, co_address = of_address form,
    co_items = map (\<lambda>(p, n). \<lparr>it_product = p, it_quantity = int n\<rparr>) rows\<rparr>"
  have "map (\<lambda>(product, quantity). (product, js_number quantity)) (of_rows form) = ?items"
    unfolding assms(9) using num by (auto simp: case_prod_beta)
  moreover have "of_customer form \<noteq> []" "of_address form \<noteq> []" using assms(1,4) by (auto simp: is_mongo_id_def)
  moreover have "\<not> list_ex (\<lambda>i. fst i = []) ?items"
    using assms(7) by (fastforce simp: list_ex_iff is_mongo_id_def)
  ultimately have "submitOrder generated form =
      Inr (if trim (of_key form) \<noteq> [] then trim (of_key form) else generated, ?body)"
    unfolding submitOrder_def Let_def by simp
  moreover have "received ?body = Some ?dto"
    by (auto simp: received_def whole_def list_all_iff)
  moreover have "length (remdups (map fst rows)) = length rows"
    using assms(8) by (metis distinct_remdups_id length_map)
  then have "CreateOrderDto_valid ?dto"
    using assms by (auto simp: CreateOrderDto_valid_def ItemDto_valid_def unique_product_ids_def list_all_iff
        comp_def case_prod_beta)
  moreover have "map (\<lambda>i. (it_product i, it_quantity i)) (co_items ?dto) = map (\<lambda>(p, n). (p, int n)) rows"
    by (simp add: comp_def case_prod_beta)
  ultimately show ?thesis by blast
qed

section \<open>The data screen\<close>

text \<open>
  What a field of a form sends, or a row shows: text or a number (\<open>None\<close> is \<open>NaN\<close>). A row of
  a listing is what its properties hold. The page's dash is three bytes of UTF-8.
\<close>

datatype data_value = TextOf string | NumberOf "rat option"

type_synonym data_item = "string \<Rightarrow> data_value option"

datatype field_kind = TextInput | NumberInput | SelectInput

record data_field =
  df_name :: string
  df_label :: string
  df_kind :: field_kind
  df_required :: bool
  df_options :: "string list"
  df_source :: "string option"
  df_value :: string
  df_shows :: string
  df_maps :: "string list"

record data_entity =
  de_label :: string
  de_endpoint :: string
  de_deletes :: bool
  de_fields :: "data_field list"

definition input :: "string \<Rightarrow> string \<Rightarrow> field_kind \<Rightarrow> bool \<Rightarrow> data_field" where
  "input name label kind required =
     \<lparr>df_name = name, df_label = label, df_kind = kind, df_required = required, df_options = [],
      df_source = None, df_value = [], df_shows = [], df_maps = []\<rparr>"

text \<open>A choice from a list shows one property of its rows, or the label of a warehouse.\<close>

definition chosen :: "string \<Rightarrow> string \<Rightarrow> string \<Rightarrow> string \<Rightarrow> string \<Rightarrow> data_field" where
  "chosen name label source property shows =
     \<lparr>df_name = name, df_label = label, df_kind = SelectInput, df_required = True, df_options = [],
      df_source = Some source, df_value = property, df_shows = shows, df_maps = []\<rparr>"

text \<open>\<open>df_maps\<close> lists the properties \<open>mapToFields\<close> copies from the chosen row.\<close>

definition DATA_ENTITIES :: "(string \<times> data_entity) list" where
  "DATA_ENTITIES =
     [(''products'', \<lparr>de_label = ''Products'', de_endpoint = ''/products'', de_deletes = False, de_fields =
         [input ''name'' ''Name'' TextInput True, input ''description'' ''Description'' TextInput False,
          input ''price'' ''Price'' NumberInput True]\<rparr>),
      (''locations'', \<lparr>de_label = ''Locations'', de_endpoint = ''/addresses'', de_deletes = True, de_fields =
         [input ''address'' ''Address'' TextInput True, input ''latitude'' ''Latitude'' NumberInput True,
          input ''longitude'' ''Longitude'' NumberInput True]\<rparr>),
      (''warehouses'', \<lparr>de_label = ''Warehouses'', de_endpoint = ''/warehouses'', de_deletes = True, de_fields =
         [(chosen ''locationId'' ''Location'' ''locations'' ''id'' ''address'')\<lparr>df_maps := [''latitude'', ''longitude'']\<rparr>]\<rparr>),
      (''stock'', \<lparr>de_label = ''Stock'', de_endpoint = ''/stock'', de_deletes = False, de_fields =
         [chosen ''warehouseId'' ''Warehouse'' ''warehouses'' ''id'' [], chosen ''productId'' ''Product'' ''products'' ''id'' ''name'',
          input ''quantity'' ''Quantity'' NumberInput True]\<rparr>),
      (''customers'', \<lparr>de_label = ''Customers'', de_endpoint = ''/customers'', de_deletes = True, de_fields =
         [input ''name'' ''Name'' TextInput True,
          chosen ''creditCard'' ''Credit card'' ''credit-cards'' ''cardNumber'' ''cardNumber'']\<rparr>),
      (''credit-cards'', \<lparr>de_label = ''Credit Cards'', de_endpoint = ''/credit-cards'', de_deletes = True, de_fields =
         [input ''cardNumber'' ''Card number'' TextInput True,
          (input ''status'' ''Status'' SelectInput True)\<lparr>df_options := [''APPROVE'', ''DECLINE'']\<rparr>,
          input ''declineReason'' ''Decline reason'' TextInput False]\<rparr>)]"

definition dataFieldId :: "string \<Rightarrow> string \<Rightarrow> string" where
  "dataFieldId tabKey fieldName = ''data-field-'' @ tabKey @ ''-'' @ fieldName"

definition entitySingularLabel :: "data_entity \<Rightarrow> string" where
  "entitySingularLabel entity =
     (let label = de_label entity in if label \<noteq> [] \<and> last label = CHR ''s'' then butlast label else label)"

text \<open>
  A value as text; \<open>number_text\<close> is \<open>Number.prototype.toString\<close>.
\<close>

definition value_text :: "(rat option \<Rightarrow> string) \<Rightarrow> data_value option \<Rightarrow> string" where
  "value_text number_text v =
     (case v of None \<Rightarrow> ''undefined'' | Some (TextOf text) \<Rightarrow> text | Some (NumberOf n) \<Rightarrow> number_text n)"

text \<open>A row as text; the context of the warehouses maps coordinates to addresses, where it could be loaded.\<close>

type_synonym row_context = "(string \<times> string) list option"

definition dash :: string where
  "dash = [CHR '' '', CHR 0xE2, CHR 0x80, CHR 0x94, CHR '' '']"

definition filled :: "data_value option \<Rightarrow> bool" where
  "filled v \<longleftrightarrow> (case v of None \<Rightarrow> False | Some (TextOf text) \<Rightarrow> text \<noteq> [] | Some (NumberOf n) \<Rightarrow> n \<noteq> None \<and> n \<noteq> Some 0)"

definition coordKey :: "(rat option \<Rightarrow> string) \<Rightarrow> data_item \<Rightarrow> string" where
  "coordKey number_text row = value_text number_text (row ''latitude'') @ '','' @ value_text number_text (row ''longitude'')"

definition loadWarehouseAddressContext :: "(rat option \<Rightarrow> string) \<Rightarrow> data_item list \<Rightarrow> (string \<times> string) list" where
  "loadWarehouseAddressContext number_text locations =
     fold (\<lambda>location. AList.update (coordKey number_text location) (value_text number_text (location ''address''))) locations []"

definition warehouseLabel :: "(rat option \<Rightarrow> string) \<Rightarrow> row_context \<Rightarrow> data_item \<Rightarrow> string" where
  "warehouseLabel number_text context row =
     (let address = (case context of None \<Rightarrow> None | Some known \<Rightarrow> map_of known (coordKey number_text row))
      in value_text number_text (row ''id'') @ dash
         @ (case address of None \<Rightarrow> [] | Some a \<Rightarrow> if a \<noteq> [] then a @ dash else [])
         @ ''('' @ value_text number_text (row ''latitude'') @ '', '' @ value_text number_text (row ''longitude'') @ '')'')"

definition renderRow :: "(rat option \<Rightarrow> string) \<Rightarrow> row_context \<Rightarrow> string \<Rightarrow> data_item \<Rightarrow> string" where
  "renderRow number_text context tabKey row =
     (let shown = (\<lambda>property. value_text number_text (row property))
      in if tabKey = ''products''
         then shown ''name'' @ dash @ ''$'' @ shown ''price''
              @ (if filled (row ''description'') then dash @ shown ''description'' else [])
         else if tabKey = ''locations''
         then shown ''address'' @ '' ('' @ shown ''latitude'' @ '', '' @ shown ''longitude'' @ '')''
         else if tabKey = ''warehouses'' then warehouseLabel number_text context row
         else if tabKey = ''stock''
         then ''Warehouse '' @ shown ''warehouseId'' @ dash @ ''Product '' @ shown ''productId'' @ dash @ ''qty '' @ shown ''quantity''
         else if tabKey = ''customers'' then shown ''name'' @ dash @ ''card '' @ shown ''creditCard''
         else shown ''cardNumber'' @ dash @ shown ''status''
              @ (if filled (row ''declineReason'') then '' ('' @ shown ''declineReason'' @ '')'' else []))"

text \<open>The choices of a field, and the listing: a message and, per row, its text and what deletes it.\<close>

definition field_options :: "(rat option \<Rightarrow> string) \<Rightarrow> row_context \<Rightarrow> data_field \<Rightarrow> data_item list \<Rightarrow> (string \<times> string) list" where
  "field_options number_text context field rows =
     (if df_options field \<noteq> [] then map (\<lambda>opt. (opt, opt)) (df_options field)
      else map (\<lambda>row. (value_text number_text (row (df_value field)),
                       if df_shows field = [] then warehouseLabel number_text context row
                       else value_text number_text (row (df_shows field)))) rows)"

definition fetchAndRenderDataList :: "(rat option \<Rightarrow> string) \<Rightarrow> row_context \<Rightarrow> string \<Rightarrow> data_entity \<Rightarrow>
    string + data_item list \<Rightarrow> (string \<times> string) \<times> (string \<times> string option) list" where
  "fetchAndRenderDataList number_text context tabKey entity fetched =
     (case fetched of
        Inl message \<Rightarrow> ((''Could not load '' @ map lower (de_label entity) @ '': '' @ message, ''error''), [])
      | Inr rows \<Rightarrow>
          if rows = [] then ((''No '' @ map lower (de_label entity) @ '' yet.'', ''info''), [])
          else (([], ''info''),
                map (\<lambda>row. (renderRow number_text context tabKey row,
                            if de_deletes entity
                            then Some (de_endpoint entity @ ''/'' @ value_text number_text (row ''id'')) else None)) rows))"

text \<open>
  The body a submitted form sends: \<open>entered\<close> is the text of each field, \<open>source_rows\<close> what was
  loaded for the fields that choose from a list.
\<close>

definition add_property :: "data_item \<Rightarrow> string \<Rightarrow> (string \<times> data_value) list \<Rightarrow> (string \<times> data_value) list" where
  "add_property row property body =
     (case row property of None \<Rightarrow> body | Some v \<Rightarrow> AList.update property v body)"

definition add_field :: "(rat option \<Rightarrow> string) \<Rightarrow> (string \<Rightarrow> string) \<Rightarrow> (string \<Rightarrow> data_item list) \<Rightarrow> data_field \<Rightarrow>
    (string \<times> data_value) list \<Rightarrow> (string \<times> data_value) list" where
  "add_field number_text entered source_rows field body =
     (let text = entered (df_name field)
      in if text = [] then body
         else if df_maps field \<noteq> []
         then (case find (\<lambda>row. value_text number_text (row (df_value field)) = text) (source_rows (df_name field)) of
                 None \<Rightarrow> body
               | Some row \<Rightarrow> fold (add_property row) (df_maps field) body)
         else AList.update (df_name field)
                (if df_kind field = NumberInput then NumberOf (js_number text) else TextOf text) body)"

definition data_body :: "(rat option \<Rightarrow> string) \<Rightarrow> (string \<Rightarrow> string) \<Rightarrow> (string \<Rightarrow> data_item list) \<Rightarrow> data_entity \<Rightarrow>
    (string \<times> data_value) list" where
  "data_body number_text entered source_rows entity = fold (add_field number_text entered source_rows) (de_fields entity) []"

text \<open>
  The properties the server's classes declare (\<open>mockdata/dto\<close>). Its validation refuses a body
  with any other (\<open>forbidNonWhitelisted\<close>).
\<close>

definition dto_properties :: "(string \<times> string list) list" where
  "dto_properties =
     [(''/products'', [''name'', ''description'', ''price'']),
      (''/addresses'', [''address'', ''latitude'', ''longitude'']),
      (''/warehouses'', [''latitude'', ''longitude'']),
      (''/stock'', [''warehouseId'', ''productId'', ''quantity'']),
      (''/customers'', [''name'', ''creditCard'']),
      (''/credit-cards'', [''cardNumber'', ''status'', ''declineReason''])]"

definition sent_properties :: "data_field \<Rightarrow> string list" where
  "sent_properties field = (if df_maps field \<noteq> [] then df_maps field else [df_name field])"

lemma update_properties: "fst ` set (AList.update p v body) = insert p (fst ` set body)"
  by (induction body) (auto simp: insert_commute)

lemma add_property_properties: "fst ` set (add_property row p body) \<subseteq> insert p (fst ` set body)"
  by (auto simp: add_property_def update_properties split: option.split)

lemma copied_properties: "fst ` set (fold (add_property row) ps body) \<subseteq> fst ` set body \<union> set ps"
proof (induction ps arbitrary: body)
  case (Cons p ps)
  from Cons.IH [of "add_property row p body"] add_property_properties [of row p body] show ?case by auto
qed simp

lemma add_field_properties:
  "fst ` set (add_field number_text entered source_rows field body) \<subseteq> fst ` set body \<union> set (sent_properties field)"
  using copied_properties [of _ "df_maps field" body]
  by (auto simp: add_field_def sent_properties_def Let_def update_properties split: option.split)

lemma data_body_properties:
  "fst ` set (data_body number_text entered source_rows entity) \<subseteq> (\<Union>field \<in> set (de_fields entity). set (sent_properties field))"
proof -
  have "fst ` set (fold (add_field number_text entered source_rows) fs body) \<subseteq>
      fst ` set body \<union> (\<Union>field \<in> set fs. set (sent_properties field))" for fs body
  proof (induction fs arbitrary: body)
    case (Cons field fs)
    from Cons.IH [of "add_field number_text entered source_rows field body"]
      add_field_properties [of number_text entered source_rows field body] show ?case by auto
  qed simp
  from this [of "de_fields entity" "[]"] show ?thesis by (simp add: data_body_def)
qed

text \<open>No form of the screen can send a property the server refuses.\<close>

lemma forms_match_server:
  assumes "(tabKey, entity) \<in> set DATA_ENTITIES"
  shows "\<exists>properties. map_of dto_properties (de_endpoint entity) = Some properties
    \<and> fst ` set (data_body number_text entered source_rows entity) \<subseteq> set properties"
proof -
  have "list_all (\<lambda>(tabKey, entity). case map_of dto_properties (de_endpoint entity) of
      None \<Rightarrow> False
    | Some properties \<Rightarrow> list_all (\<lambda>field. list_all (\<lambda>p. p \<in> set properties) (sent_properties field)) (de_fields entity))
    DATA_ENTITIES" by code_simp
  with assms obtain properties where "map_of dto_properties (de_endpoint entity) = Some properties"
    and "\<forall>field \<in> set (de_fields entity). set (sent_properties field) \<subseteq> set properties"
    by (fastforce simp: list_all_iff split: option.splits)
  with data_body_properties [of number_text entered source_rows entity] show ?thesis by fast
qed

text \<open>
  The coordinates of a location lead from a warehouse made from it back to its address, the last
  one where several share them.
\<close>

lemma warehouse_address:
  assumes "location \<in> set locations"
    and "\<And>other. other \<in> set locations \<Longrightarrow> coordKey number_text other = coordKey number_text location \<Longrightarrow>
      other ''address'' = location ''address''"
    and "coordKey number_text row = coordKey number_text location"
  shows "map_of (loadWarehouseAddressContext number_text locations) (coordKey number_text row) =
    Some (value_text number_text (location ''address''))"
proof -
  let ?k = "coordKey number_text location" and ?v = "value_text number_text (location ''address'')"
  have "map_of (fold (\<lambda>l. AList.update (coordKey number_text l) (value_text number_text (l ''address''))) ls al) ?k = Some ?v"
    if "set ls \<subseteq> set locations" and "location \<in> set ls \<or> map_of al ?k = Some ?v" for ls al
    using that
  proof (induction ls arbitrary: al)
    case (Cons l ls)
    then have "location \<in> set ls \<or> map_of (AList.update (coordKey number_text l) (value_text number_text (l ''address'')) al) ?k = Some ?v"
      using assms(2) [of l] by (auto simp: update_conv' split: if_splits)
    with Cons show ?case by simp
  qed simp
  with assms(1,3) show ?thesis by (simp add: loadWarehouseAddressContext_def)
qed

end
