(* ===== verification/Routes.thy ===== *)
theory Routes
  imports Console
begin

text \<open>
  Where the four outbound clients call (\<open>common/remote-location.ts\<close>), the addresses they build, and the
  routes of the controllers that answer there. The decorators of the controllers are the
  route table; what the server does with it follows the framework's documentation: the first
  route of the method whose segments match, case not counting, parameters decoded. \<open>fetch\<close>
  takes the dot segments out of a path before it sends it.
\<close>

section \<open>encodeURIComponent\<close>

text \<open>On 8-bit characters, whose UTF-8 form is one or two bytes.\<close>

definition utf8 :: "char \<Rightarrow> nat list" where
  "utf8 c = (let n = of_char c :: nat in if n < 128 then [n] else [192 + n div 64, 128 + n mod 64])"

definition hex_upper :: "nat \<Rightarrow> char" where
  "hex_upper n = char_of (if n < 10 then 48 + n else 55 + n)"

definition uri_unreserved :: "char \<Rightarrow> bool" where
  "uri_unreserved c \<longleftrightarrow>
     (let n = of_char c :: nat in (48 \<le> n \<and> n \<le> 57) \<or> (65 \<le> n \<and> n \<le> 90) \<or> (97 \<le> n \<and> n \<le> 122))
     \<or> c \<in> {CHR ''-'', CHR ''_'', CHR ''.'', CHR ''!'', CHR ''~'', CHR ''*'', CHR 0x27, CHR ''('', CHR '')''}"

definition percent :: "nat \<Rightarrow> string" where
  "percent byte = [CHR ''%'', hex_upper (byte div 16), hex_upper (byte mod 16)]"

definition encodeURIComponent :: "string \<Rightarrow> string" where
  "encodeURIComponent v = concat (map (\<lambda>c. if uri_unreserved c then [c] else concat (map percent (utf8 c))) v)"

text \<open>The server's way back: percent escapes to bytes, bytes to characters.\<close>

fun percent_bytes :: "string \<Rightarrow> nat list option" where
  "percent_bytes [] = Some []"
| "percent_bytes (c # rest) =
     (if c \<noteq> CHR ''%'' then map_option (\<lambda>bytes. of_char c # bytes) (percent_bytes rest)
      else (case rest of
              a # b # rest' \<Rightarrow>
                if is_hex a \<and> is_hex b then map_option (\<lambda>bytes. (16 * hex_digit a + hex_digit b) # bytes) (percent_bytes rest')
                else None
            | _ \<Rightarrow> None))"

fun utf8_text :: "nat list \<Rightarrow> string option" where
  "utf8_text [] = Some []"
| "utf8_text (b # bs) =
     (if b < 128 then map_option (\<lambda>v. char_of b # v) (utf8_text bs)
      else (case bs of
              b' # bs' \<Rightarrow>
                if 194 \<le> b \<and> b < 196 \<and> 128 \<le> b' \<and> b' < 192
                then map_option (\<lambda>v. char_of (64 * (b - 192) + (b' - 128)) # v) (utf8_text bs') else None
            | [] \<Rightarrow> None))"

definition decodeURIComponent :: "string \<Rightarrow> string option" where
  "decodeURIComponent v = Option.bind (percent_bytes v) utf8_text"

lemma hex_upper_digit:
  assumes "n < 16"
  shows "is_hex (hex_upper n)" and "hex_digit (hex_upper n) = n" and "uri_unreserved (hex_upper n)"
proof -
  have code: "of_char (hex_upper n) = (if n < 10 then 48 + n else 55 + n)" using assms by (simp add: hex_upper_def)
  show "is_hex (hex_upper n)" using assms by (simp add: is_hex_def Let_def code)
  have "of_char (lower (hex_upper n)) = (if n < 10 then 48 + n else 87 + n)" using assms by (simp add: lower_def Let_def code)
  then show "hex_digit (hex_upper n) = n" using assms by (simp add: hex_digit_def Let_def)
  show "uri_unreserved (hex_upper n)" using assms by (simp add: uri_unreserved_def Let_def code)
qed

lemma percent_bytes_percent:
  "b < 256 \<Longrightarrow> percent_bytes (percent b @ rest) = map_option (\<lambda>bytes. b # bytes) (percent_bytes rest)"
  using hex_upper_digit [of "b div 16"] hex_upper_digit [of "b mod 16"] by (simp add: percent_def)

lemma unreserved_plain:
  assumes "uri_unreserved c"
  shows "c \<noteq> CHR ''%''" and "c \<notin> {CHR ''/'', CHR ''?'', CHR '','', CHR ''&'', CHR ''+''}" and "(of_char c :: nat) < 128"
  using assms by (auto simp: uri_unreserved_def Let_def)

lemma utf8_bytes: "b \<in> set (utf8 c) \<Longrightarrow> b < 256"
proof -
  have "of_char c < (256 :: nat)" by simp
  then have "of_char c div 64 < (4 :: nat)" by linarith
  then show "b \<in> set (utf8 c) \<Longrightarrow> b < 256"
    by (auto simp: utf8_def Let_def split: if_splits)
qed

lemma percent_bytes_all:
  "\<forall>b \<in> set bs. b < 256 \<Longrightarrow> percent_bytes (concat (map percent bs) @ rest) = map_option (\<lambda>bytes. bs @ bytes) (percent_bytes rest)"
  by (induction bs; cases "percent_bytes rest") (simp_all add: percent_bytes_percent)

lemma percent_bytes_encode:
  "percent_bytes (encodeURIComponent v @ rest) = map_option (\<lambda>bytes. concat (map utf8 v) @ bytes) (percent_bytes rest)"
proof (induction v)
  case Nil
  then show ?case by (cases "percent_bytes rest") (simp_all add: encodeURIComponent_def)
next
  case (Cons c v)
  show ?case
  proof (cases "uri_unreserved c")
    case True
    from Cons unreserved_plain [OF True] True show ?thesis
      by (cases "percent_bytes rest") (simp_all add: encodeURIComponent_def utf8_def Let_def)
  next
    case False
    with Cons percent_bytes_all [of "utf8 c" "encodeURIComponent v @ rest"] utf8_bytes show ?thesis
      by (cases "percent_bytes rest") (simp_all add: encodeURIComponent_def)
  qed
qed

lemma utf8_text_utf8: "utf8_text (utf8 c @ bs) = map_option (\<lambda>v. c # v) (utf8_text bs)"
proof (cases "of_char c < (128 :: nat)")
  case False
  have n: "of_char c < (256 :: nat)" by simp
  have "of_char c div 64 < (4 :: nat)" "2 \<le> of_char c div (64 :: nat)" using n False by linarith+
  moreover have "64 * (of_char c div 64) + of_char c mod 64 = (of_char c :: nat)" by simp
  ultimately show ?thesis using False by (simp add: utf8_def Let_def)
qed (simp add: utf8_def Let_def)

lemma utf8_text_concat: "utf8_text (concat (map utf8 v)) = Some v"
  by (induction v) (simp_all add: utf8_text_utf8)

lemma decode_encode [simp]: "decodeURIComponent (encodeURIComponent v) = Some v"
  using percent_bytes_encode [of v "[]"] by (simp add: decodeURIComponent_def utf8_text_concat)

text \<open>A list of texts, each encoded, commas between them.\<close>

lemma decode_list: "decodeURIComponent (join '','' (map encodeURIComponent vs)) = Some (join '','' vs)"
proof -
  have "percent_bytes (join '','' (map encodeURIComponent vs)) = Some (concat (map utf8 (join '','' vs)))"
  proof (induction "'',''" vs rule: join.induct)
    case (2 v)
    then show ?case using percent_bytes_encode [of v "[]"] by simp
  next
    case (3 v w vs)
    then show ?case by (simp add: percent_bytes_encode) (simp add: utf8_def)
  qed simp
  then show ?thesis by (simp add: decodeURIComponent_def utf8_text_concat)
qed

lemma encoded_plain:
  assumes "c \<in> set (encodeURIComponent v)"
  shows "c \<notin> {CHR ''/'', CHR ''?'', CHR '','', CHR ''&'', CHR ''+''}"
proof -
  have "uri_unreserved (hex_upper (b div 16))" "uri_unreserved (hex_upper (b mod 16))" if "b \<in> set (utf8 d)" for b d
    using utf8_bytes [OF that] by (intro hex_upper_digit; simp)+
  then have "c = CHR ''%'' \<or> uri_unreserved c"
    using assms by (auto simp: encodeURIComponent_def percent_def split: if_splits)
  then show ?thesis using unreserved_plain(2) by fastforce
qed

lemma encode_eq_Nil [simp]: "encodeURIComponent v = [] \<longleftrightarrow> v = []"
  by (cases v) (auto simp: encodeURIComponent_def percent_def utf8_def Let_def)


section \<open>Where the clients call (common/remote-location.ts)\<close>

record remote_location =
  base_url :: string

definition setBaseUrl :: "string \<Rightarrow> remote_location \<Rightarrow> remote_location" where
  "setBaseUrl url location = location\<lparr>base_url := url\<rparr>"

text \<open>\<open>process.env[envVar] || \<dots>\<close>: no text is as good as no variable.\<close>

definition remoteLocationProvider :: "(string \<Rightarrow> string option) \<Rightarrow> string \<Rightarrow> string \<Rightarrow> remote_location" where
  "remoteLocationProvider env envVar defaultPath =
     \<lparr>base_url =
        (let preset = ''http://127.0.0.1:'' @ (case env ''PORT'' of None \<Rightarrow> ''3000'' | Some port \<Rightarrow> port) @ defaultPath
         in case env envVar of None \<Rightarrow> preset | Some url \<Rightarrow> if url = [] then preset else url)\<rparr>"

definition psp_location :: "(string \<Rightarrow> string option) \<Rightarrow> remote_location" where
  "psp_location env = remoteLocationProvider env ''PSP_BASE_URL'' ''/psp''"

definition customer_location :: "(string \<Rightarrow> string option) \<Rightarrow> remote_location" where
  "customer_location env = remoteLocationProvider env ''CUSTOMER_BASE_URL'' ''/customers''"

definition geocoding_location :: "(string \<Rightarrow> string option) \<Rightarrow> remote_location" where
  "geocoding_location env = remoteLocationProvider env ''GEOCODING_BASE_URL'' ''/addresses''"

definition catalog_location :: "(string \<Rightarrow> string option) \<Rightarrow> remote_location" where
  "catalog_location env = remoteLocationProvider env ''CATALOG_BASE_URL'' ''/products''"

text \<open>The addresses the clients build from it.\<close>

definition authorize_url :: "remote_location \<Rightarrow> string" where
  "authorize_url location = base_url location @ ''/authorize''"

definition charge_url :: "remote_location \<Rightarrow> string \<Rightarrow> string" where
  "charge_url location idempotencyKey = base_url location @ ''/charges/'' @ encodeURIComponent idempotencyKey"

definition customer_url :: "remote_location \<Rightarrow> string \<Rightarrow> string" where
  "customer_url location cid = base_url location @ ''/'' @ encodeURIComponent cid"

definition coordinates_url :: "remote_location \<Rightarrow> string \<Rightarrow> string" where
  "coordinates_url location address = base_url location @ ''/lookup?address='' @ encodeURIComponent address"

definition products_url :: "remote_location \<Rightarrow> string list \<Rightarrow> string" where
  "products_url location ids = base_url location @ ''?ids='' @ join '','' (map encodeURIComponent ids)"

section \<open>The routes of the controllers\<close>

datatype http_method = GET | POST | DELETE

datatype segment_pattern = Fixed string | Param

datatype server_route =
    OrdersCreate | OrdersGetOne | OrdersList
  | WarehousesIndex | WarehousesPost | WarehousesDelete
  | CustomersIndex | CustomersGetOne | CustomersPost | CustomersDelete
  | AddressesIndex | AddressesGet | AddressesPost | AddressesDelete
  | CardsIndex | CardsPost | CardsDelete
  | PspPostAuthorize | PspGetCharge
  | ProductsIndex | ProductsPost
  | StockIndex | StockPost

type_synonym route_table = "(http_method \<times> segment_pattern list \<times> server_route) list"

definition warehouse_routes :: route_table where
  "warehouse_routes =
     [(GET, [Fixed ''warehouses''], WarehousesIndex), (POST, [Fixed ''warehouses''], WarehousesPost),
      (DELETE, [Fixed ''warehouses'', Param], WarehousesDelete)]"

definition customer_routes :: route_table where
  "customer_routes =
     [(GET, [Fixed ''customers''], CustomersIndex), (GET, [Fixed ''customers'', Param], CustomersGetOne),
      (POST, [Fixed ''customers''], CustomersPost), (DELETE, [Fixed ''customers'', Param], CustomersDelete)]"

definition address_routes :: route_table where
  "address_routes =
     [(GET, [Fixed ''addresses''], AddressesIndex), (GET, [Fixed ''addresses'', Fixed ''lookup''], AddressesGet),
      (POST, [Fixed ''addresses''], AddressesPost), (DELETE, [Fixed ''addresses'', Param], AddressesDelete)]"

definition card_routes :: route_table where
  "card_routes =
     [(GET, [Fixed ''credit-cards''], CardsIndex), (POST, [Fixed ''credit-cards''], CardsPost),
      (DELETE, [Fixed ''credit-cards'', Param], CardsDelete)]"

definition psp_routes :: route_table where
  "psp_routes =
     [(POST, [Fixed ''psp'', Fixed ''authorize''], PspPostAuthorize),
      (GET, [Fixed ''psp'', Fixed ''charges'', Param], PspGetCharge)]"

definition product_routes :: route_table where
  "product_routes = [(GET, [Fixed ''products''], ProductsIndex), (POST, [Fixed ''products''], ProductsPost)]"

definition stock_routes :: route_table where
  "stock_routes = [(GET, [Fixed ''stock''], StockIndex), (POST, [Fixed ''stock''], StockPost)]"

definition order_routes :: route_table where
  "order_routes =
     [(POST, [Fixed ''orders''], OrdersCreate), (GET, [Fixed ''orders'', Param], OrdersGetOne), (GET, [Fixed ''orders''], OrdersList)]"

text \<open>The controllers in the order the modules list them.\<close>

definition mock_routes :: route_table where
  "mock_routes = warehouse_routes @ customer_routes @ address_routes @ card_routes @ psp_routes @ product_routes @ stock_routes"

definition server_routes :: route_table where
  "server_routes = mock_routes @ order_routes"

section \<open>From an address to a route\<close>

fun match_segments :: "segment_pattern list \<Rightarrow> string list \<Rightarrow> string list option" where
  "match_segments [] [] = Some []"
| "match_segments (Fixed name # patterns) (part # parts) =
     (if map lower part = map lower name then match_segments patterns parts else None)"
| "match_segments (Param # patterns) (part # parts) =
     Option.bind (decodeURIComponent part) (\<lambda>v. map_option (\<lambda>vs. v # vs) (match_segments patterns parts))"
| "match_segments _ _ = None"

fun find_route :: "route_table \<Rightarrow> http_method \<Rightarrow> string list \<Rightarrow> (server_route \<times> string list) option" where
  "find_route [] m parts = None"
| "find_route ((m', patterns, r) # table) m parts =
     (case if m' = m then match_segments patterns parts else None of
        Some params \<Rightarrow> Some (r, params)
      | None \<Rightarrow> find_route table m parts)"

text \<open>Dot segments: one dot goes, two dots go and take the segment before them along.\<close>

definition resolve_dots :: "string list \<Rightarrow> string list" where
  "resolve_dots parts = foldl (\<lambda>kept part. if part = ''.'' then kept else if part = ''..'' then butlast kept else kept @ [part]) [] parts"

text \<open>A slash at the end does not count.\<close>

definition path_parts :: "string \<Rightarrow> string list" where
  "path_parts path =
     (let parts = resolve_dots (split_at (CHR ''/'') (tl path))
      in if parts \<noteq> [] \<and> last parts = [] then butlast parts else parts)"

text \<open>Scheme and authority, path, query.\<close>

definition url_path :: "string \<Rightarrow> string" where
  "url_path url = takeWhile (\<lambda>c. c \<noteq> CHR ''?'') (dropWhile (\<lambda>c. c \<noteq> CHR ''/'') (drop (length ''http://'') url))"

definition url_query :: "string \<Rightarrow> string" where
  "url_query url = drop 1 (dropWhile (\<lambda>c. c \<noteq> CHR ''?'') url)"

text \<open>The value of a query parameter; a plus sign stands for a space.\<close>

definition query_value :: "string \<Rightarrow> string \<Rightarrow> string option" where
  "query_value name query =
     (case find (\<lambda>part. take (length name + 1) part = name @ ''='') (split_at (CHR ''&'') query) of
        None \<Rightarrow> None
      | Some part \<Rightarrow> decodeURIComponent (map (\<lambda>c. if c = CHR ''+'' then CHR '' '' else c) (drop (length name + 1) part)))"

definition served_by :: "http_method \<Rightarrow> string \<Rightarrow> (server_route \<times> string list) option" where
  "served_by m url = find_route server_routes m (path_parts (url_path url))"


section \<open>What the clients reach\<close>

lemma resolve_dots_plain: "\<forall>p \<in> set parts. p \<notin> {''.'', ''..''} \<Longrightarrow> resolve_dots parts = parts"
proof -
  have "foldl (\<lambda>kept part. if part = ''.'' then kept else if part = ''..'' then butlast kept else kept @ [part]) kept parts = kept @ parts"
    if "\<forall>p \<in> set parts. p \<notin> {''.'', ''..''}" for kept
    using that by (induction parts arbitrary: kept) auto
  from this [of "[]"] show "\<forall>p \<in> set parts. p \<notin> {''.'', ''..''} \<Longrightarrow> resolve_dots parts = parts"
    by (simp add: resolve_dots_def)
qed

text \<open>A segment as the clients put it in a path.\<close>

definition plain_part :: "string \<Rightarrow> bool" where
  "plain_part part \<longleftrightarrow> part \<notin> {[], ''.'', ''..''} \<and> CHR ''/'' \<notin> set part \<and> CHR ''?'' \<notin> set part"

lemma plain_encoded: "v \<notin> {[], ''.'', ''..''} \<Longrightarrow> plain_part (encodeURIComponent v)"
proof -
  have "decodeURIComponent ''.'' = Some ''.''" "decodeURIComponent ''..'' = Some ''..''"
    by code_simp+
  then have "encodeURIComponent v \<notin> {''.'', ''..''}" if "v \<notin> {''.'', ''..''}"
    using that decode_encode [of v] by (metis insert_iff option.inject singletonD)
  then show "v \<notin> {[], ''.'', ''..''} \<Longrightarrow> plain_part (encodeURIComponent v)"
    using encoded_plain [of _ v] by (auto simp: plain_part_def)
qed

lemma join_avoids: "c \<noteq> d \<Longrightarrow> \<forall>p \<in> set parts. c \<notin> set p \<Longrightarrow> c \<notin> set (join [d] parts)"
  by (induction "[d]" parts rule: join.induct) auto

lemma served_by_parts:
  assumes parts: "parts \<noteq> []" "list_all plain_part parts" and host: "CHR ''/'' \<notin> set host"
    and tail: "query = [] \<or> hd query = CHR ''?''"
  shows "served_by m (''http://'' @ host @ ''/'' @ join ''/'' parts @ query) = find_route server_routes m parts"
proof -
  let ?path = "join ''/'' parts"
  have plain: "\<forall>p \<in> set parts. p \<notin> {[], ''.'', ''..''}" "\<forall>p \<in> set parts. CHR ''/'' \<notin> set p"
    using parts(2) by (auto simp: list_all_iff plain_part_def)
  have "\<forall>p \<in> set parts. CHR ''?'' \<notin> set p" using parts(2) by (auto simp: list_all_iff plain_part_def)
  then have mark: "CHR ''?'' \<notin> set ?path" by (intro join_avoids) simp_all
  have "takeWhile (\<lambda>c. c \<noteq> CHR ''?'') query = []" using tail by (cases query) auto
  then have path: "takeWhile (\<lambda>c. c \<noteq> CHR ''?'') (?path @ query) = ?path"
    using mark by (subst takeWhile_append2) auto
  have "dropWhile (\<lambda>c. c \<noteq> CHR ''/'') (host @ CHR ''/'' # rest) = CHR ''/'' # rest" for rest
    using host by (induction host) auto
  then have "url_path (''http://'' @ host @ ''/'' @ ?path @ query) = CHR ''/'' # ?path"
    using path by (simp add: url_path_def)
  moreover have "last parts \<noteq> []" using parts(1) plain(1) last_in_set by blast
  then have "path_parts (CHR ''/'' # ?path) = parts"
    using split_join [OF parts(1) plain(2)] resolve_dots_plain [of parts] plain(1) parts(1) by (simp add: path_parts_def Let_def)
  ultimately show ?thesis by (simp add: served_by_def)
qed

lemma query_value_single:
  assumes "CHR ''&'' \<notin> set name" "CHR ''&'' \<notin> set v" "CHR ''+'' \<notin> set v"
  shows "query_value name (name @ ''='' @ v) = decodeURIComponent v"
proof -
  have "map (\<lambda>c. if c = CHR ''+'' then CHR '' '' else c) v = v" using assms(3) by (intro map_idI) auto
  moreover have "split_at (CHR ''&'') (name @ ''='' @ v) = [name @ ''='' @ v]" using assms(1,2) by (intro split_at_plain) auto
  ultimately show ?thesis by (simp add: query_value_def)
qed

lemma url_query_of:
  assumes "CHR ''?'' \<notin> set v"
  shows "url_query (v @ ''?'' @ query) = query"
  using assms by (induction v) (auto simp: url_query_def)

lemma match_fixed: "match_segments [Fixed a, Param] [a, encodeURIComponent v] = Some [v]"
  by simp

text \<open>A base address of a server of this program: scheme, authority, and the prefix of a controller.\<close>

definition at_mock :: "string \<Rightarrow> string \<Rightarrow> remote_location \<Rightarrow> bool" where
  "at_mock host prefix location \<longleftrightarrow> CHR ''/'' \<notin> set host \<and> CHR ''?'' \<notin> set host
     \<and> base_url location = ''http://'' @ host @ ''/'' @ prefix"

lemma clients_reach:
  assumes key: "v \<notin> {[], ''.'', ''..''}"
  shows "at_mock host ''psp'' location \<Longrightarrow> served_by POST (authorize_url location) = Some (PspPostAuthorize, [])"
    and "at_mock host ''psp'' location \<Longrightarrow> served_by GET (charge_url location v) = Some (PspGetCharge, [v])"
    and "at_mock host ''customers'' location \<Longrightarrow> served_by GET (customer_url location v) = Some (CustomersGetOne, [v])"
    and "at_mock host ''addresses'' location \<Longrightarrow> served_by GET (coordinates_url location v) = Some (AddressesGet, [])
      \<and> query_value ''address'' (url_query (coordinates_url location v)) = Some v"
    and "at_mock host ''products'' location \<Longrightarrow> served_by GET (products_url location ids) = Some (ProductsIndex, [])
      \<and> query_value ''ids'' (url_query (products_url location ids)) = Some (join '','' ids)"
proof -
  note tables = server_routes_def order_routes_def mock_routes_def warehouse_routes_def customer_routes_def address_routes_def card_routes_def psp_routes_def
    product_routes_def stock_routes_def
  have plain: "plain_part ''psp''" "plain_part ''authorize''" "plain_part ''charges''" "plain_part ''customers''"
    "plain_part ''addresses''" "plain_part ''lookup''" "plain_part ''products''" "plain_part (encodeURIComponent v)"
    using plain_encoded [OF key] by (simp_all add: plain_part_def)
  have marks: "CHR ''&'' \<notin> set (encodeURIComponent v)" "CHR ''+'' \<notin> set (encodeURIComponent v)" for v
    using encoded_plain [of _ v] by auto
  { assume at_mock: "at_mock host ''psp'' location"
    have "served_by POST (authorize_url location) = find_route server_routes POST [''psp'', ''authorize'']"
      using served_by_parts [of "[''psp'', ''authorize'']" host "[]" POST] at_mock plain by (simp add: at_mock_def authorize_url_def)
    then show "served_by POST (authorize_url location) = Some (PspPostAuthorize, [])" by (simp add: tables lower_def Let_def)
    have "served_by GET (charge_url location v) = find_route server_routes GET [''psp'', ''charges'', encodeURIComponent v]"
      using served_by_parts [of "[''psp'', ''charges'', encodeURIComponent v]" host "[]" GET] at_mock plain
      by (simp add: at_mock_def charge_url_def)
    then show "served_by GET (charge_url location v) = Some (PspGetCharge, [v])" by (simp add: tables lower_def Let_def) }
  { assume at_mock: "at_mock host ''customers'' location"
    have "served_by GET (customer_url location v) = find_route server_routes GET [''customers'', encodeURIComponent v]"
      using served_by_parts [of "[''customers'', encodeURIComponent v]" host "[]" GET] at_mock plain
      by (simp add: at_mock_def customer_url_def)
    then show "served_by GET (customer_url location v) = Some (CustomersGetOne, [v])" by (simp add: tables lower_def Let_def) }
  { assume at_mock: "at_mock host ''addresses'' location"
    let ?q = "''address='' @ encodeURIComponent v"
    have "served_by GET (coordinates_url location v) = find_route server_routes GET [''addresses'', ''lookup'']"
      using served_by_parts [of "[''addresses'', ''lookup'']" host "''?'' @ ?q" GET] at_mock plain
      by (simp add: at_mock_def coordinates_url_def)
    then have "served_by GET (coordinates_url location v) = Some (AddressesGet, [])" by (simp add: tables lower_def Let_def)
    moreover have "url_query (coordinates_url location v) = ?q"
      using url_query_of [of "''http://'' @ host @ ''/addresses/lookup''" ?q] at_mock by (simp add: at_mock_def coordinates_url_def)
    ultimately show "served_by GET (coordinates_url location v) = Some (AddressesGet, [])
        \<and> query_value ''address'' (url_query (coordinates_url location v)) = Some v"
      using query_value_single [of "''address''" "encodeURIComponent v"] marks by simp }
  { assume at_mock: "at_mock host ''products'' location"
    let ?v = "join '','' (map encodeURIComponent ids)"
    have "CHR ''&'' \<notin> set ?v" "CHR ''+'' \<notin> set ?v" using marks by (intro join_avoids; simp)+
    then have "query_value ''ids'' (''ids='' @ ?v) = Some (join '','' ids)"
      using query_value_single [of "''ids''" ?v] by (simp add: decode_list)
    moreover have "url_query (products_url location ids) = ''ids='' @ ?v"
      using url_query_of [of "''http://'' @ host @ ''/products''" "''ids='' @ ?v"] at_mock by (simp add: at_mock_def products_url_def)
    moreover have "served_by GET (products_url location ids) = find_route server_routes GET [''products'']"
      using served_by_parts [of "[''products'']" host "''?ids='' @ ?v" GET] at_mock plain
      by (simp add: at_mock_def products_url_def)
    then have "served_by GET (products_url location ids) = Some (ProductsIndex, [])" by (simp add: tables lower_def Let_def)
    ultimately show "served_by GET (products_url location ids) = Some (ProductsIndex, [])
        \<and> query_value ''ids'' (url_query (products_url location ids)) = Some (join '','' ids)" by simp }
qed


text \<open>The data screen: every listing and every form has its route, and a button to delete where there is one for that.\<close>

lemma encode_plain: "list_all uri_unreserved v \<Longrightarrow> encodeURIComponent v = v"
  by (induction v) (simp_all add: encodeURIComponent_def)

lemma hex_unreserved: "is_hex c \<Longrightarrow> uri_unreserved c"
  by (auto simp: is_hex_def uri_unreserved_def Let_def)

definition data_routes :: "string \<Rightarrow> (server_route \<times> server_route \<times> server_route option) option" where
  "data_routes endpoint = map_of
     [(''/products'', ProductsIndex, ProductsPost, None),
      (''/addresses'', AddressesIndex, AddressesPost, Some AddressesDelete),
      (''/warehouses'', WarehousesIndex, WarehousesPost, Some WarehousesDelete),
      (''/stock'', StockIndex, StockPost, None),
      (''/customers'', CustomersIndex, CustomersPost, Some CustomersDelete),
      (''/credit-cards'', CardsIndex, CardsPost, Some CardsDelete)] endpoint"

lemma data_screen_reaches:
  assumes entity: "(tabKey, entity) \<in> set DATA_ENTITIES" and host: "CHR ''/'' \<notin> set host" and oid: "is_mongo_id v"
  shows "\<exists>index post delete. data_routes (de_endpoint entity) = Some (index, post, delete)
    \<and> served_by GET (''http://'' @ host @ de_endpoint entity) = Some (index, [])
    \<and> served_by POST (''http://'' @ host @ de_endpoint entity) = Some (post, [])
    \<and> served_by DELETE (''http://'' @ host @ de_endpoint entity @ ''/'' @ v) = map_option (\<lambda>r. (r, [v])) delete
    \<and> (delete \<noteq> None \<longleftrightarrow> de_deletes entity)"
proof -
  note tables = server_routes_def order_routes_def mock_routes_def warehouse_routes_def customer_routes_def address_routes_def
    card_routes_def psp_routes_def product_routes_def stock_routes_def
  have "list_all uri_unreserved v" using oid hex_unreserved by (auto simp: is_mongo_id_def list_all_iff)
  note enc = encode_plain [OF this]
  have "v \<notin> {[], ''.'', ''..''}" using oid by (auto simp: is_mongo_id_def)
  note v = plain_encoded [OF this, unfolded enc]
  have dec: "decodeURIComponent v = Some v" using decode_encode [of v] by (simp only: enc)
  have one: "served_by m (''http://'' @ host @ CHR ''/'' # name) = find_route server_routes m [name]"
    and two: "served_by m (''http://'' @ host @ CHR ''/'' # name @ CHR ''/'' # v) = find_route server_routes m [name, v]"
    if "plain_part name" for m name
    using served_by_parts [of "[name]" host "[]" m] served_by_parts [of "[name, v]" host "[]" m] that v host by simp_all
  have plain: "plain_part ''products''" "plain_part ''addresses''" "plain_part ''warehouses''" "plain_part ''stock''"
    "plain_part ''customers''" "plain_part ''credit-cards''"
    by (simp_all add: plain_part_def)
  note urls = plain [THEN one, simplified] plain [THEN two, simplified]
  from entity consider "de_endpoint entity = ''/products'' \<and> \<not> de_deletes entity" | "de_endpoint entity = ''/addresses'' \<and> de_deletes entity"
    | "de_endpoint entity = ''/warehouses'' \<and> de_deletes entity" | "de_endpoint entity = ''/stock'' \<and> \<not> de_deletes entity"
    | "de_endpoint entity = ''/customers'' \<and> de_deletes entity" | "de_endpoint entity = ''/credit-cards'' \<and> de_deletes entity"
    by (auto simp: DATA_ENTITIES_def)
  then show ?thesis
    by cases (simp_all add: urls data_routes_def tables lower_def Let_def dec)
qed

end
