(* ===== verification/Startup.thy ===== *)
theory Startup
  imports Routes
begin

text \<open>
  The start of a process: \<open>main.ts\<close>, what \<open>app.module.ts\<close> and \<open>orders/orders.module.ts\<close> decide from the
  environment, and the work a process then does on its own: the polling of the relay, the
  jobs of the queue, the sweep every thirty seconds. The lifecycle hooks run when the
  application starts to listen, after the database has been checked.

  There are two environments. \<open>started\<close> is what the process was given; \<open>loaded\<close> is
  \<open>process.env\<close> once the configuration module of the framework has added the variables of the
  file \<open>.env\<close>, as \<open>app.module.ts\<close> has it do. The modules \<open>app.module.ts\<close> imports are evaluated
  before that, and with them the switch of the worker.
\<close>

section \<open>The parts\<close>

text \<open>\<open>process.env.ORDER_SAGA_WORKER_ENABLED ?? 'true'\<close>, read when the module is defined.\<close>

definition workerEnabled :: "(string \<Rightarrow> string option) \<Rightarrow> bool" where
  "workerEnabled env = env_flag env ''ORDER_SAGA_WORKER_ENABLED''"

datatype orders_provider =
    OrdersService | OrdersRepository | OutboxRepository | OutboxRelayService | OrderReconciliationService | OrderSagaProcessor

definition orders_providers :: "(string \<Rightarrow> string option) \<Rightarrow> orders_provider list" where
  "orders_providers env =
     [OrdersService, OrdersRepository, OutboxRepository, OutboxRelayService, OrderReconciliationService]
     @ (if workerEnabled env then [OrderSagaProcessor] else [])"

text \<open>
  The relay's timer, if the relay is enabled. The answer to \<open>hello\<close>: \<open>None\<close> is a connection
  without a database, \<open>Some None\<close> a server that is no replica set.
\<close>

definition relay_onModuleInit :: "orders_config \<Rightarrow> int option" where
  "relay_onModuleInit config = (if \<not> outbox_enabled config then None else Some (outbox_poll_interval config))"

definition assertReplicaSet :: "string option option \<Rightarrow> exn + unit" where
  "assertReplicaSet admin =
     (case admin of
        None \<Rightarrow> Inr ()
      | Some setName \<Rightarrow>
          if setName = None \<or> setName = Some [] then Inl (PlainError ''MongoDB is not running as a replica set.'') else Inr ())"

text \<open>\<open>configService.get(name, preset)\<close> looks at the validated environment.\<close>

definition setting_number :: "(string \<Rightarrow> env_value option) \<Rightarrow> string \<Rightarrow> rat \<Rightarrow> rat" where
  "setting_number vals name preset = (case vals name of Some (NumberValue x) \<Rightarrow> x | _ \<Rightarrow> preset)"

definition setting_text :: "(string \<Rightarrow> env_value option) \<Rightarrow> string \<Rightarrow> string \<Rightarrow> string" where
  "setting_text vals name preset = (case vals name of Some (TextValue v) \<Rightarrow> v | _ \<Rightarrow> preset)"

record app_module =
  am_redis :: string
  am_mongo :: string

definition AppModule :: "(string \<Rightarrow> env_value option) \<Rightarrow> app_module" where
  "AppModule vals = \<lparr>am_redis = setting_text vals ''REDIS_URI'' ''redis://127.0.0.1:6379'', am_mongo = setting_text vals ''MONGO_URI'' []\<rparr>"

section \<open>The start\<close>

text \<open>A process that listens: its connections, its clients' addresses, and what it does by itself.\<close>

record running =
  in_port :: rat
  in_connections :: app_module
  in_psp :: remote_location
  in_customers :: remote_location
  in_geocoding :: remote_location
  in_catalog :: remote_location
  in_orders :: orders_config
  in_queue :: queue_config
  in_payment :: payment_config
  in_relay :: "int option"
  in_worker :: bool
  in_sweep_every :: int

datatype start_failure = InvalidEnvironment "string list" | NoNumber | StartError exn

definition bootstrap :: "(string \<Rightarrow> string option) \<Rightarrow> (string \<Rightarrow> string option) \<Rightarrow> string option option \<Rightarrow> start_failure + running" where
  "bootstrap started loaded admin =
     (let providers = orders_providers started in
      case validateEnv loaded of
        Inl names \<Rightarrow> Inl (InvalidEnvironment names)
      | Inr vals \<Rightarrow>
          (case (ordersConfig loaded, queueConfig loaded, paymentConfig loaded) of
             (Some orders_c, Some queue_c, Some payment_c) \<Rightarrow>
               (case assertReplicaSet admin of
                  Inl e \<Rightarrow> Inl (StartError e)
                | Inr _ \<Rightarrow> Inr
                    \<lparr>in_port = setting_number vals ''PORT'' 3000, in_connections = AppModule vals,
                     in_psp = psp_location loaded, in_customers = customer_location loaded,
                     in_geocoding = geocoding_location loaded, in_catalog = catalog_location loaded,
                     in_orders = orders_c, in_queue = queue_c, in_payment = payment_c,
                     in_relay = relay_onModuleInit orders_c, in_worker = OrderSagaProcessor \<in> set providers,
                     in_sweep_every = 30\<rparr>)
           | _ \<Rightarrow> Inl NoNumber))"

section \<open>What has started\<close>

text \<open>A validated environment always has the numbers the records need: no text at all reads as zero.\<close>

lemma env_int_blank: "env name = Some [] \<Longrightarrow> env_int env name preset = Some 0"
  by (simp add: env_int_def env_number_def js_number_def trim_def)

lemma validated_int:
  assumes "validateEnv env = Inr vals" and "map_of EnvironmentVariables name = Some (Whole preset (Some least))" and "least \<le> preset"
  obtains i where "env_int env name preset = Some i"
proof (cases "env name = Some []")
  case True
  then have "env_int env name preset = Some 0" by (rule env_int_blank)
  from that [OF this] show thesis .
next
  case False
  show thesis by (rule validated_whole [OF assms(1) False assms(2,3)]) (rule that)
qed

lemma validated_number:
  assumes "validateEnv env = Inr vals" and "map_of EnvironmentVariables name = Some (Rate 0)"
  obtains x where "env_number env name 0 = Some x"
proof (cases "env name = Some []")
  case True
  then have "env_number env name 0 = Some 0" by (simp add: env_number_def js_number_def trim_def)
  from that [OF this] show thesis .
next
  case False
  show thesis by (rule validated_rate [OF assms(1) False assms(2)]) (rule that)
qed

lemma saga_rules:
  "map_of EnvironmentVariables ''ORDER_SAGA_CONCURRENCY'' = Some (Whole 5 (Some 1))"
  "map_of EnvironmentVariables ''ORDER_SAGA_ATTEMPTS'' = Some (Whole 5 (Some 1))"
  "map_of EnvironmentVariables ''ORDER_SAGA_BACKOFF_MS'' = Some (Whole 1000 (Some 100))"
  "map_of EnvironmentVariables ''ORDER_SAGA_WORKER_ENABLED'' = Some (Flag True)"
  "map_of EnvironmentVariables ''PORT'' = Some (Whole 3000 None)"
  "map_of EnvironmentVariables ''MONGO_URI'' = Some Required"
  "map_of EnvironmentVariables ''REDIS_URI'' = Some (Text ''redis://127.0.0.1:6379'')"
  "map_of EnvironmentVariables ''PSP_BASE_URL'' = Some Required"
  "map_of EnvironmentVariables ''CUSTOMER_BASE_URL'' = Some Required"
  "map_of EnvironmentVariables ''GEOCODING_BASE_URL'' = Some Required"
  "map_of EnvironmentVariables ''CATALOG_BASE_URL'' = Some Required"
  by (simp_all add: EnvironmentVariables_def)

lemma validated_configs:
  assumes "validateEnv env = Inr vals"
  shows "\<exists>o_c q_c p_c. ordersConfig env = Some o_c \<and> queueConfig env = Some q_c \<and> paymentConfig env = Some p_c"
proof -
  note int = validated_int [OF assms]
  obtain i1 where 1: "env_int env ''ORDER_OUTBOX_POLL_INTERVAL_MS'' 1000 = Some i1" by (rule int [OF rules(1)]) simp
  obtain i2 where 2: "env_int env ''ORDER_OUTBOX_BATCH_SIZE'' 100 = Some i2" by (rule int [OF rules(2)]) simp
  obtain i3 where 3: "env_int env ''ORDER_OUTBOX_CLAIM_TIMEOUT_MS'' 30000 = Some i3" by (rule int [OF rules(3)]) simp
  obtain i4 where 4: "env_int env ''ORDER_OUTBOX_MAX_ATTEMPTS'' 10 = Some i4" by (rule int [OF rules(4)]) simp
  obtain i5 where 5: "env_int env ''ORDER_STALE_AFTER_MS'' 300000 = Some i5" by (rule int [OF rules(6)]) simp
  obtain i6 where 6: "env_int env ''ORDER_SWEEP_LEASE_MS'' 60000 = Some i6" by (rule int [OF rules(7)]) simp
  obtain i7 where 7: "env_int env ''ORDER_SWEEP_BATCH_SIZE'' 50 = Some i7" by (rule int [OF rules(8)]) simp
  obtain i8 where 8: "env_int env ''ORDER_SAGA_CONCURRENCY'' 5 = Some i8" by (rule int [OF saga_rules(1)]) simp
  obtain i9 where 9: "env_int env ''ORDER_SAGA_ATTEMPTS'' 5 = Some i9" by (rule int [OF saga_rules(2)]) simp
  obtain i10 where 10: "env_int env ''ORDER_SAGA_BACKOFF_MS'' 1000 = Some i10" by (rule int [OF saga_rules(3)]) simp
  obtain i11 where 11: "env_int env ''PAYMENT_LATENCY_MS'' 0 = Some i11" by (rule int [OF rules(10)]) simp
  obtain x where 12: "env_number env ''PAYMENT_FAILURE_RATE'' 0 = Some x" by (rule validated_number [OF assms rules(11)])
  obtain y where 13: "env_number env ''PAYMENT_LOST_RESPONSE_RATE'' 0 = Some y" by (rule validated_number [OF assms rules(12)])
  show ?thesis
    by (simp add: ordersConfig_def queueConfig_def paymentConfig_def 1 2 3 4 5 6 7 8 9 10 11 12 13)
qed

text \<open>So only a variable in error or a database without transactions keeps a process from starting.\<close>

lemma bootstrap_starts:
  "(\<exists>p. bootstrap started loaded admin = Inr p) \<longleftrightarrow> (\<exists>vals. validateEnv loaded = Inr vals) \<and> assertReplicaSet admin = Inr ()"
proof (cases "validateEnv loaded")
  case (Inr vals)
  with validated_configs [OF Inr] show ?thesis
    by (auto simp: bootstrap_def Let_def split: sum.splits)
qed (simp add: bootstrap_def)

lemma bootstrap_refuses:
  assumes "bootstrap started loaded admin = Inl failure"
  shows "(\<exists>names. failure = InvalidEnvironment names \<and> validateEnv loaded = Inl names)
    \<or> (\<exists>e. failure = StartError e \<and> assertReplicaSet admin = Inl e)"
proof (cases "validateEnv loaded")
  case (Inr vals)
  with validated_configs [OF Inr] assms show ?thesis
    by (auto simp: bootstrap_def Let_def split: sum.splits)
next
  case (Inl names)
  with assms show ?thesis by (simp add: bootstrap_def)
qed

text \<open>Where a client calls: the address given, or its own mock when that is no text.\<close>

lemma validated_required:
  assumes "validateEnv env = Inr vals" and "map_of EnvironmentVariables name = Some Required"
  obtains v where "env name = Some v" and "vals name = Some (TextValue v)"
  using validateEnv_values [OF assms] by (cases "env name") (auto simp: env_check_def)

definition own_mock :: "(string \<Rightarrow> string option) \<Rightarrow> string \<Rightarrow> string" where
  "own_mock env path = ''http://127.0.0.1:'' @ (case env ''PORT'' of None \<Rightarrow> ''3000'' | Some port \<Rightarrow> port) @ path"

lemma location_of:
  assumes "validateEnv env = Inr vals" and "map_of EnvironmentVariables name = Some Required"
  shows "\<exists>v. env name = Some v \<and> base_url (remoteLocationProvider env name path) = (if v = [] then own_mock env path else v)"
proof -
  obtain v where "env name = Some v" by (rule validated_required [OF assms])
  then show ?thesis by (simp add: remoteLocationProvider_def own_mock_def)
qed

lemma bootstrap_started:
  assumes "bootstrap started loaded admin = Inr p"
  obtains vals where "validateEnv loaded = Inr vals" and "assertReplicaSet admin = Inr ()"
    and "ordersConfig loaded = Some (in_orders p)" and "queueConfig loaded = Some (in_queue p)"
    and "paymentConfig loaded = Some (in_payment p)"
    and "in_port p = setting_number vals ''PORT'' 3000" and "in_connections p = AppModule vals"
    and "in_psp p = psp_location loaded" and "in_customers p = customer_location loaded"
    and "in_geocoding p = geocoding_location loaded" and "in_catalog p = catalog_location loaded"
    and "in_relay p = relay_onModuleInit (in_orders p)" and "in_worker p \<longleftrightarrow> workerEnabled started"
  using assms by (auto simp: bootstrap_def orders_providers_def Let_def split: sum.splits option.splits if_splits)

lemma queue_worker: "queueConfig env = Some q \<Longrightarrow> worker_enabled q = workerEnabled env"
  by (auto simp: queueConfig_def workerEnabled_def bind_eq_Some_conv)

lemma assertReplicaSet_ok: "assertReplicaSet admin = Inr () \<longleftrightarrow> admin = None \<or> (\<exists>name. admin = Some (Some name) \<and> name \<noteq> [])"
  by (auto simp: assertReplicaSet_def split: option.splits)

lemma validated_port:
  assumes "validateEnv env = Inr vals"
  shows "vals ''PORT'' = Some (NumberValue (setting_number vals ''PORT'' 3000))"
  using validateEnv_values [OF assms saga_rules(5)]
  by (auto simp: setting_number_def env_check_def split: option.splits if_splits)

definition partial_env :: "string \<Rightarrow> string option" where
  "partial_env = map_of
     [(''MONGO_URI'', ''mongodb://127.0.0.1/canals''), (''PSP_BASE_URL'', ''https://psp.test''), (''CUSTOMER_BASE_URL'', []),
      (''GEOCODING_BASE_URL'', ''https://geo.test''), (''CATALOG_BASE_URL'', ''https://catalog.test''),
      (''ORDER_SAGA_WORKER_ENABLED'', ''false'')]"

end
