(* ===== verification/Wiring.thy ===== *)
theory Wiring
  imports Startup
begin

text \<open>
  What a process is made of: the modules with what they import, provide and export, the classes with
  what their constructors ask for, and the rules of the framework's container as its documentation
  has them. A class gets what its own module provides, what the modules it imports export, and what
  is global; it is made after what it asks for.
\<close>

section \<open>Modules\<close>

text \<open>A token names what can be injected: a class, a model, a group of settings, a queue, a location.\<close>

datatype token =
    Service string | OrdersPart orders_provider | ModelOf string | SettingsOf string | QueueOf string | LocationOf string
  | ConnectionToken | ConfigServiceToken | SchedulerToken

record wired_class =
  wc_token :: token
  wc_injects :: "token list"

definition wired_as :: "token \<Rightarrow> token list \<Rightarrow> wired_class" where
  "wired_as built_as injects = \<lparr>wc_token = built_as, wc_injects = injects\<rparr>"

text \<open>A module of the program, the \<open>forFeature\<close> modules of the framework, and those that are global.\<close>

datatype module_import = Imported string | Features "token list" | Global "token list"

record di_module =
  md_imports :: "module_import list"
  md_providers :: "wired_class list"
  md_controllers :: "wired_class list"
  md_exports :: "token list"

definition InventoryService_class :: wired_class where
  "InventoryService_class = wired_as (Service ''InventoryService'')
     [ConnectionToken, ModelOf ''Stock'', ModelOf ''Warehouse'', ModelOf ''StockMovement'']"

definition InventoryModule :: di_module where
  "InventoryModule =
     \<lparr>md_imports = [Features [ModelOf ''Warehouse'', ModelOf ''Stock'', ModelOf ''StockMovement'']],
      md_providers = [InventoryService_class], md_controllers = [], md_exports = [Service ''InventoryService'']\<rparr>"

definition PaymentModule :: di_module where
  "PaymentModule =
     \<lparr>md_imports = [], md_providers = [wired_as (Service ''PaymentService'') [LocationOf ''PSP_LOCATION''], wired_as (LocationOf ''PSP_LOCATION'') []],
      md_controllers = [], md_exports = [Service ''PaymentService'']\<rparr>"

definition CustomersModule :: di_module where
  "CustomersModule =
     \<lparr>md_imports = [], md_providers = [wired_as (Service ''CustomersService'') [LocationOf ''CUSTOMER_LOCATION''], wired_as (LocationOf ''CUSTOMER_LOCATION'') []],
      md_controllers = [], md_exports = [Service ''CustomersService'']\<rparr>"

definition GeocodingService_class :: wired_class where
  "GeocodingService_class = wired_as (Service ''GeocodingService'') [ConfigServiceToken, LocationOf ''GEOCODING_LOCATION'']"

definition GeocodingModule :: di_module where
  "GeocodingModule =
     \<lparr>md_imports = [], md_providers = [GeocodingService_class, wired_as (LocationOf ''GEOCODING_LOCATION'') []],
      md_controllers = [], md_exports = [Service ''GeocodingService'']\<rparr>"

definition CatalogModule :: di_module where
  "CatalogModule =
     \<lparr>md_imports = [], md_providers = [wired_as (Service ''CatalogService'') [LocationOf ''CATALOG_LOCATION''], wired_as (LocationOf ''CATALOG_LOCATION'') []],
      md_controllers = [], md_exports = [Service ''CatalogService'']\<rparr>"

definition OrdersService_injects :: "token list" where
  "OrdersService_injects =
     [ConnectionToken, ModelOf ''Order'', OrdersPart OrdersRepository, OrdersPart OutboxRepository,
      Service ''CustomersService'', Service ''CatalogService'', Service ''GeocodingService'']"

definition OutboxRelayService_injects :: "token list" where
  "OutboxRelayService_injects =
     [OrdersPart OutboxRepository, QueueOf ''order-saga'', SchedulerToken, SettingsOf ''orders'', SettingsOf ''queue'']"

definition OrderReconciliationService_injects :: "token list" where
  "OrderReconciliationService_injects =
     [OrdersPart OrdersRepository, Service ''InventoryService'', Service ''PaymentService'', SettingsOf ''orders'']"

definition OrderSagaProcessor_injects :: "token list" where
  "OrderSagaProcessor_injects =
     [OrdersPart OrdersRepository, Service ''InventoryService'', Service ''PaymentService'', Service ''CustomersService'']"

primrec orders_injects :: "orders_provider \<Rightarrow> token list" where
  "orders_injects OrdersService = OrdersService_injects"
| "orders_injects OrdersRepository = [ModelOf ''Order'']"
| "orders_injects OutboxRepository = [ModelOf ''OutboxEvent'']"
| "orders_injects OutboxRelayService = OutboxRelayService_injects"
| "orders_injects OrderReconciliationService = OrderReconciliationService_injects"
| "orders_injects OrderSagaProcessor = OrderSagaProcessor_injects"

definition OrdersModule :: "(string \<Rightarrow> string option) \<Rightarrow> di_module" where
  "OrdersModule env =
     \<lparr>md_imports = [Features [SettingsOf ''orders''], Features [SettingsOf ''queue''], Imported ''GeocodingModule'', Imported ''CustomersModule'',
        Imported ''PaymentModule'', Imported ''InventoryModule'', Imported ''CatalogModule'',
        Features [ModelOf ''Order'', ModelOf ''OutboxEvent''], Features [QueueOf ''order-saga'']],
      md_providers = map (\<lambda>part. wired_as (OrdersPart part) (orders_injects part)) (orders_providers env),
      md_controllers = [wired_as (Service ''OrdersController'') [OrdersPart OrdersService]], md_exports = []\<rparr>"

definition mock_services :: "wired_class list" where
  "mock_services =
     [wired_as (Service ''MockDataWarehousesService'') [ModelOf ''Warehouse''],
      wired_as (Service ''MockDataCustomersService'') [ModelOf ''Customer''],
      wired_as (Service ''MockDataAddressesService'') [ModelOf ''MockAddress''],
      wired_as (Service ''MockDataCreditCardsService'') [ModelOf ''MockCreditCard''],
      wired_as (Service ''MockDataPspService'') [ModelOf ''PspCharge'', SettingsOf ''payment'', Service ''MockDataCreditCardsService''],
      wired_as (Service ''MockDataProductsService'') [ModelOf ''Product''],
      wired_as (Service ''MockDataStockService'') [ModelOf ''Stock'']]"

definition mock_controllers :: "wired_class list" where
  "mock_controllers =
     [wired_as (Service ''MockDataWarehousesController'') [Service ''MockDataWarehousesService''],
      wired_as (Service ''MockDataCustomersController'') [Service ''MockDataCustomersService''],
      wired_as (Service ''MockDataAddressesController'') [Service ''MockDataAddressesService''],
      wired_as (Service ''MockDataCreditCardsController'') [Service ''MockDataCreditCardsService''],
      wired_as (Service ''MockDataPspController'') [Service ''MockDataPspService''],
      wired_as (Service ''MockDataProductsController'') [Service ''MockDataProductsService''],
      wired_as (Service ''MockDataStockController'') [Service ''MockDataStockService'']]"

definition MockDataModule :: di_module where
  "MockDataModule =
     \<lparr>md_imports = [Features [SettingsOf ''payment''],
        Features (map ModelOf [''Warehouse'', ''Customer'', ''PspCharge'', ''MockAddress'', ''MockCreditCard'', ''Product'', ''Stock''])],
      md_providers = mock_services, md_controllers = mock_controllers, md_exports = []\<rparr>"

text \<open>Of the four modules of the framework \<open>app.module.ts\<close> sets up, three export something, globally.\<close>

definition AppModule_wiring :: di_module where
  "AppModule_wiring =
     \<lparr>md_imports = [Global [ConfigServiceToken], Global [SchedulerToken], Global [], Global [ConnectionToken], Imported ''MockDataModule'',
        Imported ''CustomersModule'', Imported ''OrdersModule'', Imported ''GeocodingModule'', Imported ''PaymentModule'', Imported ''InventoryModule''],
      md_providers = [], md_controllers = [], md_exports = []\<rparr>"

definition app_modules :: "(string \<Rightarrow> string option) \<Rightarrow> (string \<times> di_module) list" where
  "app_modules env =
     [(''AppModule'', AppModule_wiring), (''MockDataModule'', MockDataModule), (''CustomersModule'', CustomersModule),
      (''OrdersModule'', OrdersModule env), (''GeocodingModule'', GeocodingModule), (''PaymentModule'', PaymentModule),
      (''InventoryModule'', InventoryModule), (''CatalogModule'', CatalogModule)]"

section \<open>The container\<close>

text \<open>The modules the root imports, directly or through others, in the order they are met.\<close>

definition module_named :: "(string \<times> di_module) list \<Rightarrow> string \<Rightarrow> di_module" where
  "module_named mods name =
     (case map_of mods name of Some m \<Rightarrow> m | None \<Rightarrow> \<lparr>md_imports = [], md_providers = [], md_controllers = [], md_exports = []\<rparr>)"

definition imported_names :: "di_module \<Rightarrow> string list" where
  "imported_names m = concat (map (\<lambda>i. case i of Imported name \<Rightarrow> [name] | _ \<Rightarrow> []) (md_imports m))"

primrec modules_reached :: "nat \<Rightarrow> (string \<times> di_module) list \<Rightarrow> string list \<Rightarrow> string list" where
  "modules_reached 0 mods names = names"
| "modules_reached (Suc n) mods names =
     modules_reached n mods (fold (\<lambda>name known. if name \<in> set known then known else known @ [name])
       (concat (map (\<lambda>name. imported_names (module_named mods name)) names)) names)"

definition reached_modules :: "(string \<times> di_module) list \<Rightarrow> di_module list" where
  "reached_modules mods = map (module_named mods) (modules_reached (length mods) mods [''AppModule''])"

definition global_tokens :: "di_module list \<Rightarrow> token list" where
  "global_tokens ms = concat (map (\<lambda>i. case i of Global ts \<Rightarrow> ts | _ \<Rightarrow> []) (concat (map md_imports ms)))"

definition visible_tokens :: "(string \<times> di_module) list \<Rightarrow> token list \<Rightarrow> di_module \<Rightarrow> token list" where
  "visible_tokens mods globals m = map wc_token (md_providers m)
     @ concat (map (\<lambda>i. case i of Imported name \<Rightarrow> md_exports (module_named mods name) | Features ts \<Rightarrow> ts | Global ts \<Rightarrow> []) (md_imports m))
     @ globals"

definition module_classes :: "di_module \<Rightarrow> wired_class list" where
  "module_classes m = md_providers m @ md_controllers m"

text \<open>Every class sees what it asks for.\<close>

definition has_all :: "token list \<Rightarrow> wired_class \<Rightarrow> bool" where
  "has_all seen c \<longleftrightarrow> list_all (\<lambda>t. t \<in> set seen) (wc_injects c)"

definition module_resolved :: "token list \<Rightarrow> di_module \<Rightarrow> bool" where
  "module_resolved seen m \<longleftrightarrow> list_all (has_all seen) (module_classes m)"

definition all_resolved :: "(string \<times> di_module) list \<Rightarrow> token list \<Rightarrow> di_module list \<Rightarrow> bool" where
  "all_resolved mods globals ms \<longleftrightarrow> list_all (\<lambda>m. module_resolved (visible_tokens mods globals m) m) ms"

text \<open>What is made in so many rounds, each making what has all it asks for; the framework's own things are there first.\<close>

definition framework_tokens :: "di_module list \<Rightarrow> token list" where
  "framework_tokens ms = concat (map (\<lambda>i. case i of Global ts \<Rightarrow> ts | Features ts \<Rightarrow> ts | Imported name \<Rightarrow> []) (concat (map md_imports ms)))"

primrec constructed :: "nat \<Rightarrow> wired_class list \<Rightarrow> token list \<Rightarrow> token list" where
  "constructed 0 cs built = built"
| "constructed (Suc n) cs built =
     constructed n (filter (\<lambda>c. \<not> has_all built c) cs) (map wc_token (filter (has_all built) cs) @ built)"

definition all_constructed :: "token list \<Rightarrow> wired_class list \<Rightarrow> bool" where
  "all_constructed built cs \<longleftrightarrow> list_all (\<lambda>c. wc_token c \<in> set built) cs"

text \<open>The routes of a controller.\<close>

definition controller_routes :: "wired_class \<Rightarrow> route_table" where
  "controller_routes c =
     (case map_of
        [(Service ''MockDataWarehousesController'', warehouse_routes), (Service ''MockDataCustomersController'', customer_routes),
         (Service ''MockDataAddressesController'', address_routes), (Service ''MockDataCreditCardsController'', card_routes),
         (Service ''MockDataPspController'', psp_routes), (Service ''MockDataProductsController'', product_routes),
         (Service ''MockDataStockController'', stock_routes), (Service ''OrdersController'', order_routes)] (wc_token c) of
        Some routes \<Rightarrow> routes
      | None \<Rightarrow> [])"

text \<open>
  A container is sound if everything is resolved, no class is made twice, all of them are made in a
  finite number of rounds, and the routes are those of its controllers.
\<close>

definition sound_container :: "nat \<Rightarrow> (string \<times> di_module) list \<Rightarrow> di_module list \<Rightarrow> bool" where
  "sound_container rounds mods ms \<longleftrightarrow> all_resolved mods (global_tokens ms) ms
     \<and> distinct (map wc_token (concat (map module_classes ms)))
     \<and> all_constructed (constructed rounds (concat (map module_classes ms)) (framework_tokens ms)) (concat (map module_classes ms))
     \<and> concat (map controller_routes (concat (map md_controllers ms))) = server_routes"

definition wired :: "nat \<Rightarrow> (string \<times> di_module) list \<Rightarrow> bool" where
  "wired rounds mods \<longleftrightarrow> sound_container rounds mods (reached_modules mods)"

section \<open>The program's container\<close>

text \<open>The environment decides about one class only, so there are two programs to look at.\<close>

lemma app_cases: "app_modules env = app_modules (\<lambda>_. if workerEnabled env then None else Some ''false'')"
proof -
  have "workerEnabled (\<lambda>_. if workerEnabled env then None else Some ''false'') = workerEnabled env"
    by (simp add: workerEnabled_def [of "\<lambda>_. if workerEnabled env then None else Some ''false''"] env_flag_def lower_def)
  then have "orders_providers (\<lambda>_. if workerEnabled env then None else Some ''false'') = orders_providers env"
    by (simp add: orders_providers_def)
  then show ?thesis by (simp add: app_modules_def OrdersModule_def)
qed

lemma app_wired: "wired 4 (app_modules env)"
proof -
  have "wired 4 (app_modules (\<lambda>_. None))" by code_simp
  moreover have "wired 4 (app_modules (\<lambda>_. Some ''false''))" by code_simp
  ultimately show ?thesis by (subst app_cases) (simp split: if_split)
qed

lemma worker_wired: "OrdersPart OrderSagaProcessor \<in> set (map wc_token (concat (map module_classes (reached_modules (app_modules env))))) \<longleftrightarrow> workerEnabled env"
proof -
  have "OrdersPart OrderSagaProcessor \<in> set (map wc_token (concat (map module_classes (reached_modules (app_modules (\<lambda>_. None))))))" by code_simp
  moreover have "OrdersPart OrderSagaProcessor \<notin> set (map wc_token (concat (map module_classes (reached_modules (app_modules (\<lambda>_. Some ''false''))))))" by code_simp
  ultimately show ?thesis by (subst app_cases) (simp split: if_split)
qed

end
