(* ===== verification/Management.thy ===== *)
theory Management
  imports Acceptance
begin

text \<open>
  What is put into the mock directories over the management API is what the order service's own
  clients get from them: per directory, the document that is made, the state it leaves behind,
  and the client's call in that state.
\<close>

lemma run_validated: "valid body \<Longrightarrow> run (validated valid handler body) s = run (handler body) s"
  by (simp add: validated_def)

section \<open>Customers\<close>

definition customer_made :: "create_customer_dto \<Rightarrow> world \<Rightarrow> customer" where
  "customer_made dto s = \<lparr>cu_id = fresh_id s, cu_name = dc_name dto, cu_card = dc_card dto\<rparr>"

definition with_customer :: "create_customer_dto \<Rightarrow> world \<Rightarrow> world" where
  "with_customer dto s = s\<lparr>customers := customers s @ [customer_made dto s]\<rparr>"

lemma customer_made_simps [simp]:
  "cu_id (customer_made dto s) = fresh_id s" "cu_name (customer_made dto s) = dc_name dto" "cu_card (customer_made dto s) = dc_card dto"
  "customers (with_customer dto s) = customers s @ [customer_made dto s]" "calm (with_customer dto s) = calm s"
  by (simp_all add: customer_made_def with_customer_def calm_def)

lemma customer_posted:
  assumes "calm s" and "CreateCustomerDto_valid dto" and "fresh_id s \<notin> cu_id ` set (customers s)"
  shows "run (customers_post dto) s = (Inr (customer_made dto s), with_customer dto s)"
  using assms
  by (simp add: customers_post_def run_validated customers_create_def run_db calm_def insert_unique_def customer_made_def
      with_customer_def Let_def)

lemma customer_found:
  assumes "calm s" and hex: "is_mongo_id (fresh_id s)" "ObjectId (fresh_id s) = fresh_id s"
    and new: "fresh_id s \<notin> cu_id ` set (customers s)"
  shows "run (getCustomerById (fresh_id s)) (with_customer dto s) = (Inr (Some (customer_made dto s)), with_customer dto s)"
proof -
  have "lookup cu_id (customers s) (fresh_id s) = None" by (metis lookup_None new)
  then have "lookup cu_id (customers (with_customer dto s)) (ObjectId (fresh_id s)) = Some (customer_made dto s)"
    by (simp add: hex lookup_append)
  then show ?thesis using assms(1) hex(1) by (intro run_getCustomerById) simp_all
qed

section \<open>Products\<close>

definition product_made :: "create_product_dto \<Rightarrow> world \<Rightarrow> product" where
  "product_made dto s = \<lparr>pr_id = fresh_id s, pr_name = dp_name dto, pr_description = dp_description dto, pr_price = dp_price dto\<rparr>"

definition with_product :: "create_product_dto \<Rightarrow> world \<Rightarrow> world" where
  "with_product dto s = s\<lparr>products := products s @ [product_made dto s]\<rparr>"

lemma product_made_simps [simp]:
  "pr_id (product_made dto s) = fresh_id s" "pr_name (product_made dto s) = dp_name dto"
  "pr_description (product_made dto s) = dp_description dto" "pr_price (product_made dto s) = dp_price dto"
  "products (with_product dto s) = products s @ [product_made dto s]" "calm (with_product dto s) = calm s"
  by (simp_all add: product_made_def with_product_def calm_def)

lemma product_posted:
  assumes "calm s" and "CreateProductDto_valid dto" and "fresh_id s \<notin> pr_id ` set (products s)"
  shows "run (products_post dto) s = (Inr (product_made dto s), with_product dto s)"
  using assms
  by (simp add: products_post_def run_validated products_create_def run_db calm_def insert_unique_def product_made_def
      with_product_def Let_def)

lemma product_found:
  assumes "calm s" and hex: "is_mongo_id (fresh_id s)" "ObjectId (fresh_id s) = fresh_id s"
    and new: "fresh_id s \<notin> pr_id ` set (products s)"
  shows "run (getProductsById [fresh_id s]) (with_product dto s) = (Inr [product_made dto s], with_product dto s)"
proof -
  have "catalogue_answer (with_product dto s) [fresh_id s] = [product_made dto s]"
    using new by (auto simp: catalogue_answer_def hex filter_empty_conv image_iff)
  then show ?thesis
    using run_products [of "with_product dto s" "[fresh_id s]"] assms(1) hex by (simp add: Let_def)
qed

section \<open>Addresses\<close>

text \<open>The address document, new or updated, and the collection with it.\<close>

definition address_upsert :: "create_address_dto \<Rightarrow> world \<Rightarrow> mock_address \<times> mock_address list" where
  "address_upsert dto s =
     (let trimmed = trim (da_address dto); location = \<lparr>latitude = da_latitude dto, longitude = da_longitude dto\<rparr>
      in upsert (\<lambda>a. same_address (ad_address a) trimmed) (\<lambda>a. a\<lparr>ad_address := trimmed, ad_location := location\<rparr>)
           \<lparr>ad_id = fresh_id s, ad_address = trimmed, ad_location = location\<rparr> (addresses s))"

abbreviation address_made :: "create_address_dto \<Rightarrow> world \<Rightarrow> mock_address" where
  "address_made dto s \<equiv> fst (address_upsert dto s)"

definition with_address :: "create_address_dto \<Rightarrow> world \<Rightarrow> world" where
  "with_address dto s = s\<lparr>addresses := snd (address_upsert dto s)\<rparr>"

lemma address_made_simps [simp]:
  "ad_address (address_made dto s) = trim (da_address dto)"
  "ad_location (address_made dto s) = \<lparr>latitude = da_latitude dto, longitude = da_longitude dto\<rparr>"
  "addresses (with_address dto s) = snd (address_upsert dto s)" "calm (with_address dto s) = calm s"
  by (auto simp: address_upsert_def with_address_def upsert_def calm_def Let_def split: option.split)

lemma address_stored: "address_made dto s \<in> set (snd (address_upsert dto s))"
  unfolding address_upsert_def Let_def by (rule upsert_stored [OF surjective_pairing]) (simp_all add: same_address_def)

lemma address_posted:
  assumes "calm s" and "CreateAddressDto_valid dto"
  shows "run (addresses_post dto) s = (Inr (address_made dto s), with_address dto s)"
  using assms
  by (simp add: addresses_post_def run_validated addresses_create_def Let_def run_db calm_def address_upsert_def with_address_def
      split: prod.split)

text \<open>Whatever upper and lower case and white space around it the address is asked for with.\<close>

lemma address_found:
  assumes "calm s" and "same_address (trim v) (trim (da_address dto))" and "v \<noteq> []"
  shows "run (getCoordinates v) (with_address dto s) = (Inr \<lparr>latitude = da_latitude dto, longitude = da_longitude dto\<rparr>, with_address dto s)"
proof -
  have "find (\<lambda>a. same_address (ad_address a) (trim (da_address dto))) (snd (address_upsert dto s)) = Some (address_made dto s)"
    unfolding address_upsert_def Let_def by (rule upsert_find [OF surjective_pairing]) (simp_all add: same_address_def)
  then have "find (\<lambda>a. same_address (ad_address a) (trim v)) (addresses (with_address dto s)) = Some (address_made dto s)"
    using assms(2) by (simp add: same_address_def)
  from run_getCoordinates [OF _ assms(3) this] assms(1) show ?thesis by simp
qed

section \<open>Cards\<close>

definition card_upsert :: "create_credit_card_dto \<Rightarrow> world \<Rightarrow> credit_card \<times> credit_card list" where
  "card_upsert dto s =
     upsert (\<lambda>c. cc_number c = dk_number dto) (\<lambda>c. c\<lparr>cc_status := dk_status dto, cc_reason := given (dk_reason dto) (cc_reason c)\<rparr>)
       \<lparr>cc_id = fresh_id s, cc_number = dk_number dto, cc_status = dk_status dto, cc_reason = given (dk_reason dto) None\<rparr> (cards s)"

abbreviation card_made :: "create_credit_card_dto \<Rightarrow> world \<Rightarrow> credit_card" where
  "card_made dto s \<equiv> fst (card_upsert dto s)"

definition with_card :: "create_credit_card_dto \<Rightarrow> world \<Rightarrow> world" where
  "with_card dto s = s\<lparr>cards := snd (card_upsert dto s)\<rparr>"

lemma card_made_simps [simp]:
  "cc_number (card_made dto s) = dk_number dto" "cc_status (card_made dto s) = dk_status dto"
  "cards (with_card dto s) = snd (card_upsert dto s)" "calm (with_card dto s) = calm s"
  "charge_of (with_card dto s) = charge_of s"
  by (auto simp: card_upsert_def with_card_def upsert_def calm_def charge_of_def fun_eq_iff find_Some_iff split: option.split)

lemma card_stored: "card_made dto s \<in> set (snd (card_upsert dto s))"
  unfolding card_upsert_def by (rule upsert_stored [OF surjective_pairing]) simp_all

lemma card_posted:
  assumes "calm s" and "CreateCreditCardDto_valid dto"
  shows "run (cards_post dto) s = (Inr (card_made dto s), with_card dto s)"
  using assms
  by (simp add: cards_post_def run_validated cards_create_def run_db calm_def card_upsert_def with_card_def split: prod.split)

text \<open>A card stays pinned: from then on the gateway's answer to a charge is the one asked for.\<close>

lemma card_charged:
  assumes "calm s" and "AuthorizeChargeDto_valid req" and "a_card req = dk_number dto" and "charge_of s (a_key req) = None"
  shows "\<exists>r u. run (authorize req) (with_card dto s) = (Inr r, u) \<and> p_success r = (dk_status dto = APPROVE)"
proof -
  have "find (\<lambda>c. cc_number c = dk_number dto) (snd (card_upsert dto s)) = Some (card_made dto s)"
    unfolding card_upsert_def by (rule upsert_find [OF surjective_pairing]) simp_all
  then have pinned: "pinned_decline (a_card req) (with_card dto s) = (dk_status dto = DECLINE)"
    using assms(3) by (simp add: pinned_decline_def card_state_def)
  from run_authorize [of "with_card dto s" req] assms(1,2,4)
  have "run (authorize req) (with_card dto s) =
      (Inr (toResult (charge_made req (with_card dto s))), charged_world req (with_card dto s))" by simp
  moreover have "p_success (toResult (charge_made req (with_card dto s))) = (dk_status dto = APPROVE)"
    using pinned by (cases "dk_status dto") (simp_all add: toResult_def)
  ultimately show ?thesis by blast
qed

section \<open>All four\<close>

theorem directories_round_trip:
  assumes calm: "calm s" and hex: "is_mongo_id (fresh_id s)" "ObjectId (fresh_id s) = fresh_id s"
  shows "(CreateCustomerDto_valid c \<and> fresh_id s \<notin> cu_id ` set (customers s) \<longrightarrow>
      (\<exists>t. run (customers_post c) s = (Inr (customer_made c s), t)
        \<and> run (getCustomerById (fresh_id s)) t = (Inr (Some (customer_made c s)), t)))
    \<and> (CreateProductDto_valid p \<and> fresh_id s \<notin> pr_id ` set (products s) \<longrightarrow>
      (\<exists>t. run (products_post p) s = (Inr (product_made p s), t)
        \<and> run (getProductsById [fresh_id s]) t = (Inr [product_made p s], t)))
    \<and> (CreateAddressDto_valid a \<and> same_address (trim v) (trim (da_address a)) \<and> v \<noteq> [] \<longrightarrow>
      (\<exists>row t. run (addresses_post a) s = (Inr row, t)
        \<and> run (getCoordinates v) t = (Inr \<lparr>latitude = da_latitude a, longitude = da_longitude a\<rparr>, t)))
    \<and> (CreateCreditCardDto_valid k \<and> AuthorizeChargeDto_valid req \<and> a_card req = dk_number k \<and> charge_of s (a_key req) = None \<longrightarrow>
      (\<exists>row t r u. run (cards_post k) s = (Inr row, t) \<and> run (authorize req) t = (Inr r, u)
        \<and> p_success r = (dk_status k = APPROVE)))"
  using customer_posted [OF calm, of c] customer_found [OF calm hex, of c] product_posted [OF calm, of p] product_found [OF calm hex, of p]
    address_posted [OF calm, of a] address_found [OF calm, of v a] card_posted [OF calm, of k] card_charged [OF calm, of req k]
  by blast

end
