(* ===== verification/Page.thy ===== *)
theory Page
  imports Startup Management
begin

text \<open>
  The pages of the browser console as \<open>frontend/app.js\<close> keeps them: what is on show, what a click sends,
  and what its answer makes of the page. A handler that waits for an answer is two
  operations, and between them the user may do anything the page allows. Answers are what
  \<open>apiFetch\<close> makes of them: the message of the error it throws, or the list or document the
  route returns. Names and addresses are taken to hold no markup.
\<close>

section \<open>Messages and choices\<close>

record message =
  ms_text :: string
  ms_kind :: string
  ms_hidden :: bool

definition setMessage :: "string \<Rightarrow> string \<Rightarrow> message" where
  "setMessage text kind = \<lparr>ms_text = text, ms_kind = kind, ms_hidden = (text = [])\<rparr>"

definition showScreen :: "string \<Rightarrow> (string \<times> bool) list \<Rightarrow> (string \<times> bool) list" where
  "showScreen chosen_screen screens = map (\<lambda>(name, _). (name, name \<noteq> chosen_screen)) screens"

text \<open>
  An option: what choosing it gives, its label, whether it can be chosen, and whether it is marked
  as selected. A list that has just been filled holds the marked option's value, or the
  first one's that can be chosen.
\<close>

record select_option =
  op_value :: string
  op_label :: string
  op_disabled :: bool
  op_selected :: bool

definition plain_option :: "string \<Rightarrow> string \<Rightarrow> select_option" where
  "plain_option v label = \<lparr>op_value = v, op_label = label, op_disabled = False, op_selected = False\<rparr>"

definition placeholder :: "string \<Rightarrow> select_option list" where
  "placeholder label = [\<lparr>op_value = [], op_label = label, op_disabled = True, op_selected = True\<rparr>]"

definition select_value :: "select_option list \<Rightarrow> string" where
  "select_value options =
     (case filter op_selected options of
        [] \<Rightarrow> (case find (\<lambda>opt. \<not> op_disabled opt) options of None \<Rightarrow> [] | Some opt \<Rightarrow> op_value opt)
      | marked \<Rightarrow> op_value (last marked))"

section \<open>The order page\<close>

record order_page =
  op_customers :: "select_option list"
  op_addresses :: "select_option list"
  op_products :: "product list"
  op_form :: order_form
  op_message :: message
  op_submitting :: bool
  op_listing :: "(string \<times> string) \<times> (string \<times> string \<times> string \<times> string) list"

definition customer_options :: "customer list \<Rightarrow> select_option list" where
  "customer_options found =
     (if found \<noteq> [] then map (\<lambda>c. plain_option (cu_id c) (cu_name c)) found else placeholder ''No customers found'')"

definition address_options :: "mock_address list \<Rightarrow> select_option list" where
  "address_options found =
     (if found \<noteq> [] then map (\<lambda>a. plain_option (ad_address a) (ad_address a)) found else placeholder ''No addresses found'')"

text \<open>The three lists, each loaded on its own: one that fails leaves the others as they are.\<close>

definition load_customers :: "string + customer list \<Rightarrow> order_page \<Rightarrow> order_page" where
  "load_customers fetched page =
     (let options = (case fetched of Inr found \<Rightarrow> customer_options found | Inl _ \<Rightarrow> placeholder ''Failed to load'')
      in page\<lparr>op_customers := options, op_form := (op_form page)\<lparr>of_customer := select_value options\<rparr>,
              op_message := (case fetched of Inr _ \<Rightarrow> op_message page
                | Inl failure \<Rightarrow> setMessage (''Could not load customers: '' @ failure) ''error'')\<rparr>)"

definition load_addresses :: "string + mock_address list \<Rightarrow> order_page \<Rightarrow> order_page" where
  "load_addresses fetched page =
     (let options = (case fetched of Inr found \<Rightarrow> address_options found | Inl _ \<Rightarrow> placeholder ''Failed to load'')
      in page\<lparr>op_addresses := options, op_form := (op_form page)\<lparr>of_address := select_value options\<rparr>,
              op_message := (case fetched of Inr _ \<Rightarrow> op_message page
                | Inl failure \<Rightarrow> setMessage (''Could not load addresses: '' @ failure) ''error'')\<rparr>)"

definition load_products :: "string + product list \<Rightarrow> order_page \<Rightarrow> order_page" where
  "load_products fetched page =
     (case fetched of
        Inr found \<Rightarrow> page\<lparr>op_products := found\<rparr>
      | Inl failure \<Rightarrow> page\<lparr>op_message := setMessage (''Could not load products: '' @ failure) ''error''\<rparr>)"

definition loadReferenceData :: "string + customer list \<Rightarrow> string + mock_address list \<Rightarrow> string + product list \<Rightarrow> order_page \<Rightarrow> order_page" where
  "loadReferenceData customers_found addresses_found products_found page =
     load_products products_found (load_addresses addresses_found (load_customers customers_found page))"

text \<open>The products of a row; nothing is chosen in advance, so it starts with the first of them.\<close>

definition productOptionsHtml :: "(rat option \<Rightarrow> string) \<Rightarrow> product list \<Rightarrow> string option \<Rightarrow> select_option list" where
  "productOptionsHtml number_text found selectedId =
     (if found = [] then placeholder ''No products found''
      else map (\<lambda>p. \<lparr>op_value = pr_id p, op_label = pr_name p @ dash @ ''$'' @ number_text (Some (pr_price p)),
                      op_disabled = False, op_selected = (Some (pr_id p) = selectedId)\<rparr>) found)"

definition add_row :: "(rat option \<Rightarrow> string) \<Rightarrow> order_page \<Rightarrow> order_page" where
  "add_row number_text page =
     page\<lparr>op_form := (op_form page)\<lparr>of_rows :=
       addItemRow (select_value (productOptionsHtml number_text (op_products page) None)) (of_rows (op_form page))\<rparr>\<rparr>"

definition autofillIdempotencyKey :: "string \<Rightarrow> order_page \<Rightarrow> order_page" where
  "autofillIdempotencyKey generated page = page\<lparr>op_form := (op_form page)\<lparr>of_key := generated\<rparr>\<rparr>"

text \<open>The page's ellipsis is three bytes of UTF-8.\<close>

definition ellipsis :: string where
  "ellipsis = [CHR 0xE2, CHR 0x80, CHR 0xA6]"

text \<open>The submit button: nothing while it is disabled, else the request that goes out, if the form is filled in.\<close>

definition submit_clicked :: "string \<Rightarrow> order_page \<Rightarrow> order_page \<times> (string \<times> order_body) option" where
  "submit_clicked generated page =
     (if op_submitting page then (page, None)
      else (case submitOrder generated (op_form page) of
              Inl text \<Rightarrow> (page\<lparr>op_message := setMessage text ''error''\<rparr>, None)
            | Inr request \<Rightarrow>
                (page\<lparr>op_submitting := True, op_message := setMessage (''Creating order'' @ ellipsis) ''info''\<rparr>, Some request)))"

text \<open>Its answer. The list of orders is loaded again before the button works again.\<close>

definition submit_answered :: "string \<Rightarrow> string + order_response \<Rightarrow> string + order_response list \<Rightarrow> order_page \<Rightarrow> order_page" where
  "submit_answered generated reply listing page =
     (case reply of
        Inl failure \<Rightarrow> page\<lparr>op_message := setMessage (''Failed to create order: '' @ failure) ''error'', op_submitting := False\<rparr>
      | Inr r \<Rightarrow>
          (let page = page\<lparr>op_message := setMessage (''Order created: '' @ or_order r @ '' ('' @ status_text (or_status r) @ '')'') ''success''\<rparr>;
               page = autofillIdempotencyKey generated page
           in page\<lparr>op_listing := loadOrders listing (snd (op_listing page)), op_submitting := False\<rparr>))"

text \<open>The document shown under an order: hidden again by a second click, and then not loaded.\<close>

record order_detail =
  od_text :: string
  od_hidden :: bool

definition detail_clicked :: "order_detail \<Rightarrow> order_detail \<times> bool" where
  "detail_clicked detail =
     (if \<not> od_hidden detail then (detail\<lparr>od_hidden := True\<rparr>, False)
      else (\<lparr>od_text = ''Loading'' @ ellipsis, od_hidden = False\<rparr>, True))"

definition detail_answered :: "(order_response \<Rightarrow> string) \<Rightarrow> string + order_response \<Rightarrow> order_detail \<Rightarrow> order_detail" where
  "detail_answered stringify reply detail =
     detail\<lparr>od_text := (case reply of Inl failure \<Rightarrow> ''Failed to load details: '' @ failure | Inr r \<Rightarrow> stringify r)\<rparr>"

definition init :: "(rat option \<Rightarrow> string) \<Rightarrow> string \<Rightarrow> string + customer list \<Rightarrow> string + mock_address list \<Rightarrow> string + product list \<Rightarrow>
    string + order_response list \<Rightarrow> order_page \<Rightarrow> order_page" where
  "init number_text generated customers_found addresses_found products_found listing page =
     (let page = autofillIdempotencyKey generated page;
          page = loadReferenceData customers_found addresses_found products_found page;
          page = add_row number_text page
      in page\<lparr>op_listing := loadOrders listing (snd (op_listing page))\<rparr>)"

text \<open>The page before its script has run.\<close>

definition blank_page :: order_page where
  "blank_page =
     \<lparr>op_customers = placeholder (''Loading customers'' @ ellipsis), op_addresses = placeholder (''Loading addresses'' @ ellipsis),
      op_products = [],
      op_form = \<lparr>of_customer = [], of_address = [], of_key = [], of_rows = []\<rparr>,
      op_message = setMessage [] [], op_submitting = False, op_listing = (([], []), [])\<rparr>"

section \<open>The data page\<close>

text \<open>
  Two cards per tab, the form and then the list; the form waits for its lists of choices, and
  the list comes when it is done. \<open>ds_pending\<close> has, per form under way, what it waits for still.
  A click on a tab clears the page, but not what is under way.
\<close>

datatype data_card = FormCard string | ListCard string

record data_screen =
  ds_active :: string
  ds_cards :: "data_card list"
  ds_pending :: "(string \<times> nat) list"

text \<open>A field that chooses from a listing waits for that listing, and for the addresses where its labels need them.\<close>

definition field_waits :: "data_field \<Rightarrow> nat" where
  "field_waits field =
     (if df_kind field = SelectInput \<and> df_options field = [] \<and> df_source field \<noteq> None
      then (if df_shows field = [] then 2 else 1) else 0)"

definition form_waits :: "data_entity \<Rightarrow> nat" where
  "form_waits entity = sum_list (map field_waits (de_fields entity))"

definition list_appended :: "string \<Rightarrow> data_screen \<Rightarrow> data_screen" where
  "list_appended tabKey screen = screen\<lparr>ds_cards := ds_cards screen @ [ListCard tabKey]\<rparr>"

definition selectDataTab :: "string \<Rightarrow> data_screen \<Rightarrow> data_screen" where
  "selectDataTab tabKey screen =
     (let screen = screen\<lparr>ds_active := tabKey, ds_cards := [FormCard tabKey]\<rparr>;
          waits = (case map_of DATA_ENTITIES tabKey of None \<Rightarrow> 0 | Some entity \<Rightarrow> form_waits entity)
      in if waits = 0 then list_appended tabKey screen
         else screen\<lparr>ds_pending := ds_pending screen @ [(tabKey, waits)]\<rparr>)"

text \<open>One of the answers a form waits for, be it a list or a failure.\<close>

definition source_answered :: "nat \<Rightarrow> data_screen \<Rightarrow> data_screen" where
  "source_answered i screen =
     (if i < length (ds_pending screen)
      then (let (tabKey, waits) = ds_pending screen ! i
            in if waits \<le> 1
               then list_appended tabKey (screen\<lparr>ds_pending := take i (ds_pending screen) @ drop (Suc i) (ds_pending screen)\<rparr>)
               else screen\<lparr>ds_pending := (ds_pending screen)[i := (tabKey, waits - 1)]\<rparr>)
      else screen)"

text \<open>The form's button, and its answer: a saved form is emptied and the list loaded again.\<close>

record data_form =
  dm_entered :: "string \<Rightarrow> string"
  dm_message :: message
  dm_saving :: bool

definition save_clicked :: "(rat option \<Rightarrow> string) \<Rightarrow> (string \<Rightarrow> data_item list) \<Rightarrow> data_entity \<Rightarrow> data_form \<Rightarrow>
    data_form \<times> (string \<times> data_value) list option" where
  "save_clicked number_text source_rows entity form =
     (if dm_saving form then (form, None)
      else (form\<lparr>dm_message := setMessage (''Saving'' @ ellipsis) ''info'', dm_saving := True\<rparr>,
            Some (data_body number_text (dm_entered form) source_rows entity)))"

definition save_answered :: "(string \<Rightarrow> string) \<Rightarrow> string + unit \<Rightarrow> data_form \<Rightarrow> data_form \<times> bool" where
  "save_answered initial reply form =
     (case reply of
        Inl failure \<Rightarrow> (form\<lparr>dm_message := setMessage (''Failed to save: '' @ failure) ''error'', dm_saving := False\<rparr>, False)
      | Inr _ \<Rightarrow> (form\<lparr>dm_entered := initial, dm_message := setMessage ''Saved.'' ''success'', dm_saving := False\<rparr>, True))"

text \<open>A row's delete button: the list is loaded again, or its message says what went wrong.\<close>

definition delete_answered :: "string + unit \<Rightarrow> message \<Rightarrow> message \<times> bool" where
  "delete_answered reply old =
     (case reply of Inl failure \<Rightarrow> (setMessage (''Failed to delete: '' @ failure) ''error'', False) | Inr _ \<Rightarrow> (old, True))"

section \<open>The pages in use\<close>

text \<open>A page that has found something to choose from is filled in, and can be submitted as it is.\<close>

lemma select_plain: "options \<noteq> [] \<Longrightarrow> \<forall>opt \<in> set options. \<not> op_disabled opt \<and> \<not> op_selected opt \<Longrightarrow>
    select_value options = op_value (hd options)"
  by (cases options) (simp_all add: select_value_def filter_False)

lemma init_form:
  assumes "customers_found \<noteq> []" and "addresses_found \<noteq> []" and "products_found \<noteq> []"
  shows "op_form (init number_text generated (Inr customers_found) (Inr addresses_found) (Inr products_found) listing page) =
    \<lparr>of_customer = cu_id (hd customers_found), of_address = ad_address (hd addresses_found), of_key = generated,
     of_rows = of_rows (op_form page) @ [(pr_id (hd products_found), ''1'')]\<rparr>"
proof -
  have "select_value (customer_options customers_found) = cu_id (hd customers_found)"
    using assms(1) by (subst select_plain) (auto simp: customer_options_def plain_option_def hd_map)
  moreover have "select_value (address_options addresses_found) = ad_address (hd addresses_found)"
    using assms(2) by (subst select_plain) (auto simp: address_options_def plain_option_def hd_map)
  moreover have "select_value (productOptionsHtml number_text products_found None) = pr_id (hd products_found)"
    using assms(3) by (subst select_plain) (auto simp: productOptionsHtml_def hd_map)
  ultimately show ?thesis
    by (cases "op_form page")
      (simp add: init_def loadReferenceData_def load_products_def load_addresses_def load_customers_def
        autofillIdempotencyKey_def add_row_def addItemRow_def Let_def)
qed

text \<open>While a request is under way no other goes out.\<close>

lemma one_request_at_a_time:
  assumes "submit_clicked generated page = (page', Some request)"
  shows "submit_clicked generated' page' = (page', None)"
  using assms by (auto simp: submit_clicked_def split: if_splits sum.splits)

text \<open>A failed request leaves the form as it was: another click sends the same again, under the same key if the field has one.\<close>

lemma failed_request_is_kept:
  assumes "submit_clicked generated page = (page', Some (key, body))"
  shows "\<exists>page''. submit_clicked generated' (submit_answered fresh (Inl failure) listing page') =
    (page'', Some (if trim (of_key (op_form page)) \<noteq> [] then key else generated', body))"
  using assms
  by (auto simp: submit_clicked_def submit_answered_def submitOrder_def Let_def split: if_splits sum.splits)

lemma answered_request_is_dropped:
  "of_key (op_form (submit_answered fresh (Inr r) listing page)) = fresh"
  by (simp add: submit_answered_def autofillIdempotencyKey_def Let_def)

text \<open>A tab that is left alone shows its form and its list.\<close>

lemma sources_answered:
  "0 < n \<Longrightarrow> (source_answered 0 ^^ n) \<lparr>ds_active = a, ds_cards = cards_shown, ds_pending = (tabKey, n) # others\<rparr> =
    \<lparr>ds_active = a, ds_cards = cards_shown @ [ListCard tabKey], ds_pending = others\<rparr>"
proof (induction n)
  case (Suc n)
  then show ?case
    by (cases n) (simp_all add: source_answered_def list_appended_def funpow_swap1 del: funpow.simps(2) add: funpow_Suc_right)
qed simp

lemma undisturbed_tab:
  assumes "ds_pending screen = []" and "map_of DATA_ENTITIES tabKey = Some entity"
  shows "(source_answered 0 ^^ form_waits entity) (selectDataTab tabKey screen) =
    \<lparr>ds_active = tabKey, ds_cards = [FormCard tabKey, ListCard tabKey], ds_pending = []\<rparr>"
proof (cases "form_waits entity")
  case 0
  with assms show ?thesis by (cases screen) (simp add: selectDataTab_def list_appended_def)
next
  case (Suc n)
  have "selectDataTab tabKey screen = \<lparr>ds_active = tabKey, ds_cards = [FormCard tabKey], ds_pending = (tabKey, form_waits entity) # []\<rparr>"
    using assms Suc by (cases screen) (simp add: selectDataTab_def)
  with sources_answered [of "form_waits entity"] Suc show ?thesis by simp
qed

text \<open>A tab chosen while another one's form is under way ends up with that one's list as well.\<close>

lemma waits:
  "\<exists>entity. map_of DATA_ENTITIES ''stock'' = Some entity \<and> form_waits entity = 3"
  "\<exists>entity. map_of DATA_ENTITIES ''products'' = Some entity \<and> form_waits entity = 0"
  by (simp_all add: DATA_ENTITIES_def form_waits_def field_waits_def input_def chosen_def)

lemma mixed_tabs:
  "(source_answered 0 ^^ 3) (selectDataTab ''products'' (selectDataTab ''stock'' \<lparr>ds_active = [], ds_cards = [], ds_pending = []\<rparr>)) =
    \<lparr>ds_active = ''products'', ds_cards = [FormCard ''products'', ListCard ''products'', ListCard ''stock''], ds_pending = []\<rparr>"
  using waits sources_answered [of 3] by (auto simp: selectDataTab_def list_appended_def)

end
