(* ===== verification/Bodies.thy ===== *)
theory Bodies
  imports Page
begin

text \<open>
  What goes over the wire: JSON values, the request classes as the validation pipe reads them
  (types, declared properties, nothing else), the \<open>toDto\<close> functions of the mock services, and
  what the clients and the console write and read. \<open>JSON.stringify\<close> and \<open>JSON.parse\<close> are each
  other's inverse on these values; the last of two properties of one name counts. The framework's
  body parser lets only objects and arrays through; what it refuses itself is not modelled.
\<close>

section \<open>Values and their members\<close>

datatype json =
    JNull
  | JBool bool
  | JNumber rat
  | JString string
  | JArray "json list"
  | JObject "(string \<times> json) list"

definition get_member :: "string \<Rightarrow> json \<Rightarrow> json option" where
  "get_member name v = (case v of JObject kvs \<Rightarrow> map_of (rev kvs) name | _ \<Rightarrow> None)"

text \<open>\<open>whitelist\<close> and \<open>forbidNonWhitelisted\<close>: an object with no property but those the class declares.\<close>

definition declares :: "string list \<Rightarrow> json \<Rightarrow> bool" where
  "declares names v \<longleftrightarrow> (case v of JObject kvs \<Rightarrow> list_all (\<lambda>(name, _). name \<in> set names) kvs | _ \<Rightarrow> False)"

definition text_member :: "string \<Rightarrow> json \<Rightarrow> string option" where
  "text_member name v = (case get_member name v of Some (JString text) \<Rightarrow> Some text | _ \<Rightarrow> None)"

text \<open>\<open>@IsOptional\<close>: absent or \<open>null\<close> passes; the result tells the two apart.\<close>

definition optional_member :: "string \<Rightarrow> json \<Rightarrow> string option option option" where
  "optional_member name v =
     (case get_member name v of
        None \<Rightarrow> Some None
      | Some JNull \<Rightarrow> Some (Some None)
      | Some (JString text) \<Rightarrow> Some (Some (Some text))
      | _ \<Rightarrow> None)"

definition number_member :: "string \<Rightarrow> json \<Rightarrow> rat option" where
  "number_member name v = (case get_member name v of Some (JNumber x) \<Rightarrow> Some x | _ \<Rightarrow> None)"

definition whole_member :: "string \<Rightarrow> json \<Rightarrow> int option" where
  "whole_member name v = whole (number_member name v)"

text \<open>
  \<open>@IsLatitude\<close> and \<open>@IsLongitude\<close> let text pass as well as numbers; \<open>latlong\<close> gives the number
  the database then stores.
\<close>

definition coordinate_member :: "(string \<Rightarrow> rat option) \<Rightarrow> string \<Rightarrow> json \<Rightarrow> rat option" where
  "coordinate_member latlong name v =
     (case get_member name v of Some (JNumber x) \<Rightarrow> Some x | Some (JString text) \<Rightarrow> latlong text | _ \<Rightarrow> None)"

section \<open>Request bodies\<close>

definition read_body :: "string list \<Rightarrow> (json \<Rightarrow> 'a option) \<Rightarrow> json \<Rightarrow> 'a option" where
  "read_body names read v = (if declares names v then read v else None)"

definition CreateCustomerDto_read :: "json \<Rightarrow> create_customer_dto option" where
  "CreateCustomerDto_read = read_body [''name'', ''creditCard''] (\<lambda>v.
     Option.bind (text_member ''name'' v) (\<lambda>name.
     Option.bind (text_member ''creditCard'' v) (\<lambda>creditCard.
     Some \<lparr>dc_name = name, dc_card = creditCard\<rparr>)))"

text \<open>A description of \<open>null\<close> is none.\<close>

definition CreateProductDto_read :: "json \<Rightarrow> create_product_dto option" where
  "CreateProductDto_read = read_body [''name'', ''description'', ''price''] (\<lambda>v.
     Option.bind (text_member ''name'' v) (\<lambda>name.
     Option.bind (optional_member ''description'' v) (\<lambda>description.
     Option.bind (number_member ''price'' v) (\<lambda>price.
     Some \<lparr>dp_name = name, dp_description = given description None, dp_price = price\<rparr>))))"

primrec card_text :: "card_status \<Rightarrow> string" where
  "card_text APPROVE = ''APPROVE''"
| "card_text DECLINE = ''DECLINE''"

definition card_status_of :: "string \<Rightarrow> card_status option" where
  "card_status_of text = find (\<lambda>st. card_text st = text) [APPROVE, DECLINE]"

definition CreateCreditCardDto_read :: "json \<Rightarrow> create_credit_card_dto option" where
  "CreateCreditCardDto_read = read_body [''cardNumber'', ''status'', ''declineReason''] (\<lambda>v.
     Option.bind (text_member ''cardNumber'' v) (\<lambda>cardNumber.
     Option.bind (Option.bind (text_member ''status'' v) card_status_of) (\<lambda>status.
     Option.bind (optional_member ''declineReason'' v) (\<lambda>declineReason.
     Some \<lparr>dk_number = cardNumber, dk_status = status, dk_reason = declineReason\<rparr>))))"

definition CreateAddressDto_read :: "(string \<Rightarrow> rat option) \<Rightarrow> json \<Rightarrow> create_address_dto option" where
  "CreateAddressDto_read latlong = read_body [''address'', ''latitude'', ''longitude''] (\<lambda>v.
     Option.bind (text_member ''address'' v) (\<lambda>address.
     Option.bind (coordinate_member latlong ''latitude'' v) (\<lambda>lat.
     Option.bind (coordinate_member latlong ''longitude'' v) (\<lambda>long.
     Some \<lparr>da_address = address, da_latitude = lat, da_longitude = long\<rparr>))))"

definition CreateWarehouseDto_read :: "(string \<Rightarrow> rat option) \<Rightarrow> json \<Rightarrow> create_warehouse_dto option" where
  "CreateWarehouseDto_read latlong = read_body [''latitude'', ''longitude''] (\<lambda>v.
     Option.bind (coordinate_member latlong ''latitude'' v) (\<lambda>lat.
     Option.bind (coordinate_member latlong ''longitude'' v) (\<lambda>long.
     Some \<lparr>dw_latitude = lat, dw_longitude = long\<rparr>)))"

text \<open>A quantity of stock is a whole number here.\<close>

definition AddStockDto_read :: "json \<Rightarrow> add_stock_dto option" where
  "AddStockDto_read = read_body [''warehouseId'', ''productId'', ''quantity''] (\<lambda>v.
     Option.bind (text_member ''warehouseId'' v) (\<lambda>warehouseId.
     Option.bind (text_member ''productId'' v) (\<lambda>productId.
     Option.bind (whole_member ''quantity'' v) (\<lambda>quantity.
     Some \<lparr>as_warehouse = warehouseId, as_product = productId, as_quantity = quantity\<rparr>))))"

definition AuthorizeChargeDto_read :: "json \<Rightarrow> authorize_dto option" where
  "AuthorizeChargeDto_read = read_body [''idempotencyKey'', ''creditCard'', ''amount'', ''description''] (\<lambda>v.
     Option.bind (text_member ''idempotencyKey'' v) (\<lambda>idempotencyKey.
     Option.bind (text_member ''creditCard'' v) (\<lambda>creditCard.
     Option.bind (whole_member ''amount'' v) (\<lambda>amount.
     Option.bind (text_member ''description'' v) (\<lambda>description.
     Some \<lparr>a_key = idempotencyKey, a_card = creditCard, a_amount = amount, a_description = description\<rparr>)))))"

definition ItemDto_read :: "json \<Rightarrow> item_dto option" where
  "ItemDto_read = read_body [''productId'', ''quantity''] (\<lambda>v.
     Option.bind (text_member ''productId'' v) (\<lambda>productId.
     Option.bind (whole_member ''quantity'' v) (\<lambda>quantity.
     Some \<lparr>it_product = productId, it_quantity = quantity\<rparr>)))"

definition items_member :: "json \<Rightarrow> item_dto list option" where
  "items_member v = (case get_member ''items'' v of Some (JArray vs) \<Rightarrow> those (map ItemDto_read vs) | _ \<Rightarrow> None)"

definition CreateOrderDto_read :: "json \<Rightarrow> create_order_dto option" where
  "CreateOrderDto_read = read_body [''customerId'', ''shippingAddress'', ''items''] (\<lambda>v.
     Option.bind (text_member ''customerId'' v) (\<lambda>customerId.
     Option.bind (text_member ''shippingAddress'' v) (\<lambda>shippingAddress.
     Option.bind (items_member v) (\<lambda>items.
     Some \<lparr>co_customer = customerId, co_address = shippingAddress, co_items = items\<rparr>))))"

section \<open>What the clients and the console write\<close>

text \<open>\<open>jsonInit('POST', dto)\<close> of the gateway's client.\<close>

definition authorize_json :: "authorize_dto \<Rightarrow> json" where
  "authorize_json dto = JObject
     [(''idempotencyKey'', JString (a_key dto)), (''creditCard'', JString (a_card dto)),
      (''amount'', JNumber (of_int (a_amount dto))), (''description'', JString (a_description dto))]"

text \<open>A quantity that is no number is written as \<open>null\<close>.\<close>

definition number_json :: "rat option \<Rightarrow> json" where
  "number_json x = (case x of None \<Rightarrow> JNull | Some n \<Rightarrow> JNumber n)"

definition item_json :: "string \<times> rat option \<Rightarrow> json" where
  "item_json item = JObject [(''productId'', JString (fst item)), (''quantity'', number_json (snd item))]"

definition order_json :: "order_body \<Rightarrow> json" where
  "order_json body = JObject
     [(''customerId'', JString (ob_customer body)), (''shippingAddress'', JString (ob_address body)),
      (''items'', JArray (map item_json (ob_items body)))]"

definition value_json :: "data_value \<Rightarrow> json" where
  "value_json v = (case v of TextOf text \<Rightarrow> JString text | NumberOf x \<Rightarrow> number_json x)"

definition data_json :: "(string \<times> data_value) list \<Rightarrow> json" where
  "data_json body = JObject (map (\<lambda>(name, v). (name, value_json v)) body)"

section \<open>What the mock services answer, and what is read of it\<close>

text \<open>The \<open>toDto\<close> functions; a property that is \<open>undefined\<close> is not written, and one stored as \<open>null\<close> is taken for that.\<close>

definition optional_json :: "string \<Rightarrow> string option \<Rightarrow> (string \<times> json) list" where
  "optional_json name v = (case v of None \<Rightarrow> [] | Some text \<Rightarrow> [(name, JString text)])"

definition coordinates_json :: "coordinates \<Rightarrow> (string \<times> json) list" where
  "coordinates_json loc = [(''latitude'', JNumber (latitude loc)), (''longitude'', JNumber (longitude loc))]"

definition warehouses_toDto :: "warehouse \<Rightarrow> json" where
  "warehouses_toDto w = JObject ((''id'', JString (w_id w)) # coordinates_json (w_location w))"

definition customers_toDto :: "customer \<Rightarrow> json" where
  "customers_toDto c = JObject [(''id'', JString (cu_id c)), (''name'', JString (cu_name c)), (''creditCard'', JString (cu_card c))]"

definition addresses_toDto :: "mock_address \<Rightarrow> json" where
  "addresses_toDto a = JObject ([(''id'', JString (ad_id a)), (''address'', JString (ad_address a))] @ coordinates_json (ad_location a))"

definition cards_toDto :: "credit_card \<Rightarrow> json" where
  "cards_toDto c = JObject
     ([(''id'', JString (cc_id c)), (''cardNumber'', JString (cc_number c)), (''status'', JString (card_text (cc_status c)))]
      @ optional_json ''declineReason'' (cc_reason c))"

definition products_toDto :: "product \<Rightarrow> json" where
  "products_toDto p = JObject
     ([(''id'', JString (pr_id p)), (''name'', JString (pr_name p))] @ optional_json ''description'' (pr_description p)
      @ [(''price'', JNumber (pr_price p))])"

definition stock_toDto :: "stock_row \<Rightarrow> json" where
  "stock_toDto r = JObject
     [(''warehouseId'', JString (s_warehouse r)), (''productId'', JString (s_product r)), (''quantity'', JNumber (of_int (s_quantity r)))]"

text \<open>The clients' views of an answer (\<open>Customer\<close>, \<open>Product\<close>, \<open>Coordinates\<close>), and the console's.\<close>

definition customer_read :: "json \<Rightarrow> customer option" where
  "customer_read v =
     Option.bind (text_member ''id'' v) (\<lambda>cid.
     Option.bind (text_member ''name'' v) (\<lambda>name.
     Option.bind (text_member ''creditCard'' v) (\<lambda>creditCard.
     Some \<lparr>cu_id = cid, cu_name = name, cu_card = creditCard\<rparr>)))"

definition product_read :: "json \<Rightarrow> product option" where
  "product_read v =
     Option.bind (text_member ''id'' v) (\<lambda>pid.
     Option.bind (text_member ''name'' v) (\<lambda>name.
     Option.bind (optional_member ''description'' v) (\<lambda>description.
     Option.bind (number_member ''price'' v) (\<lambda>price.
     Some \<lparr>pr_id = pid, pr_name = name, pr_description = given description None, pr_price = price\<rparr>))))"

definition coordinates_read :: "json \<Rightarrow> coordinates option" where
  "coordinates_read v =
     Option.bind (number_member ''latitude'' v) (\<lambda>lat.
     Option.bind (number_member ''longitude'' v) (\<lambda>long.
     Some \<lparr>latitude = lat, longitude = long\<rparr>))"

definition row_of :: "json \<Rightarrow> data_item" where
  "row_of v = (\<lambda>name.
     case get_member name v of
       Some (JString text) \<Rightarrow> Some (TextOf text)
     | Some (JNumber x) \<Rightarrow> Some (NumberOf (Some x))
     | _ \<Rightarrow> None)"

section \<open>Round trips\<close>

lemmas member_defs = read_body_def declares_def text_member_def optional_member_def number_member_def whole_member_def
  coordinate_member_def get_member_def

lemma customer_read_toDto [simp]: "customer_read (customers_toDto c) = Some c"
  by (simp add: customer_read_def customers_toDto_def member_defs)

lemma product_read_toDto [simp]: "product_read (products_toDto p) = Some p"
  by (cases "pr_description p") (simp_all add: product_read_def products_toDto_def optional_json_def member_defs given_def)

lemma coordinates_read_json [simp]: "coordinates_read (JObject (coordinates_json loc)) = Some loc"
  by (simp add: coordinates_read_def coordinates_json_def member_defs)

lemma those_Some [simp]: "those (map Some xs) = Some xs"
  by (induction xs) simp_all

lemma those_map: "(\<And>x. x \<in> set xs \<Longrightarrow> f x = Some (g x)) \<Longrightarrow> those (map f xs) = Some (map g xs)"
  by (induction xs) simp_all

lemma those_None: "x \<in> set xs \<Longrightarrow> f x = None \<Longrightarrow> those (map f xs) = None"
  by (induction xs) (auto split: option.split)

lemma authorize_read_json [simp]: "AuthorizeChargeDto_read (authorize_json dto) = Some dto"
  by (simp add: AuthorizeChargeDto_read_def authorize_json_def member_defs whole_def)

text \<open>What the server reads of an order the console sends.\<close>

lemma item_read_json: "ItemDto_read (item_json item) = map_option (\<lambda>n. \<lparr>it_product = fst item, it_quantity = n\<rparr>) (whole (snd item))"
  by (cases "snd item") (simp_all add: ItemDto_read_def item_json_def number_json_def member_defs whole_def)

lemma order_read_json: "CreateOrderDto_read (order_json body) = received body"
proof -
  have "items_member (order_json body) = those (map ItemDto_read (map item_json (ob_items body)))"
    by (simp add: items_member_def order_json_def get_member_def)
  also have "\<dots> = (if list_all (\<lambda>i. whole (snd i) \<noteq> None) (ob_items body)
      then Some (map (\<lambda>i. \<lparr>it_product = fst i, it_quantity = the (whole (snd i))\<rparr>) (ob_items body)) else None)"
  proof (cases "list_all (\<lambda>i. whole (snd i) \<noteq> None) (ob_items body)")
    case True
    then show ?thesis
      unfolding map_map comp_def item_read_json
      by (simp add: list_all_iff) (rule those_map, force)
  next
    case False
    then obtain i where "i \<in> set (ob_items body)" "whole (snd i) = None" by (auto simp: list_all_iff)
    then show ?thesis
      using False unfolding map_map comp_def item_read_json by (subst those_None [of i]) simp_all
  qed
  finally have items: "items_member (order_json body) = \<dots>" .
  show ?thesis
    unfolding CreateOrderDto_read_def read_body_def items received_def
    by (simp add: order_json_def declares_def text_member_def get_member_def)
qed

end
