(* ===== verification/Server.thy ===== *)
theory Server
  imports Bodies
begin

text \<open>
  The server as a whole: a request comes in, its address is routed to a handler, its body and
  query are validated, and what the handler returns or throws becomes an answer with a status
  (\<open>@HttpCode\<close> or the framework's default, and \<open>domain-exception.filter.ts\<close>). The clients' calls
  are such requests.
\<close>

section \<open>Requests and answers\<close>

text \<open>
  The body of a request is a JSON value or missing, the key header the list of its values. The
  mock directories answer with the documents their \<open>toDto\<close> functions make; an order and a
  charge, which have a date, are left as they are.
\<close>

datatype request_body = NoBody | Sent json

datatype response_body =
    OrderAnswer order_response | OrdersAnswer paginated_orders | ChargeAnswer payment_result
  | Row json | Rows "json list" | EmptyAnswer | ErrorAnswer error_json

record http_request =
  rq_method :: http_method
  rq_url :: string
  rq_keys :: "string list"
  rq_body :: request_body

definition answering :: "int \<Rightarrow> ('a \<Rightarrow> response_body) \<Rightarrow> 'a io \<Rightarrow> (int \<times> response_body) io" where
  "answering status f handler = await handler (\<lambda>a. Return (status, f a))"

text \<open>A parameter the pipe makes of what was sent; a body that is missing has no property at all.\<close>

definition with_valid :: "'b option \<Rightarrow> ('b \<Rightarrow> 'a io) \<Rightarrow> 'a io" where
  "with_valid parameter handler = (case parameter of None \<Rightarrow> Throw validation_failed | Some b \<Rightarrow> handler b)"

definition body_value :: "request_body \<Rightarrow> json" where
  "body_value body = (case body of NoBody \<Rightarrow> JObject [] | Sent v \<Rightarrow> v)"

text \<open>
  The query of a listing of orders: known names, each at most once, numbers that are whole and
  positive, a status by its text. What is not given has its default.
\<close>

definition query_names :: "string \<Rightarrow> string list" where
  "query_names query = map (takeWhile (\<lambda>c. c \<noteq> CHR ''='')) (filter (\<lambda>part. part \<noteq> []) (split_at (CHR ''&'') query))"

definition query_count :: "string \<Rightarrow> string \<Rightarrow> nat \<Rightarrow> nat option" where
  "query_count query name preset =
     (case query_value name query of
        None \<Rightarrow> Some preset
      | Some text \<Rightarrow> Option.bind (whole (js_number text)) (\<lambda>i. if 1 \<le> i then Some (nat i) else None))"

definition query_status :: "string \<Rightarrow> order_status option option" where
  "query_status query =
     (case query_value ''status'' query of
        None \<Rightarrow> Some None
      | Some text \<Rightarrow> map_option Some (find (\<lambda>st. status_text st = text) ORDER_STATUSES))"

definition list_query :: "string \<Rightarrow> list_orders_filter option" where
  "list_query query =
     (let names = query_names query in
      if \<not> list_all (\<lambda>name. name \<in> {''customerId'', ''status'', ''page'', ''limit''}) names \<or> \<not> distinct names then None
      else Option.bind (query_status query) (\<lambda>status.
           Option.bind (query_count query ''page'' 1) (\<lambda>page.
           Option.bind (query_count query ''limit'' 20) (\<lambda>limit.
           Some \<lparr>lf_customer = query_value ''customerId'' query, lf_status = status, lf_page = page, lf_limit = limit\<rparr>))))"

definition first_param :: "string list \<Rightarrow> string" where
  "first_param params = (case params of [] \<Rightarrow> [] | v # _ \<Rightarrow> v)"

definition text_param :: "string option \<Rightarrow> string" where
  "text_param v = (case v of None \<Rightarrow> [] | Some text \<Rightarrow> text)"

definition handle_route :: "(string \<Rightarrow> string) \<Rightarrow> (string \<Rightarrow> rat option) \<Rightarrow> server_route \<Rightarrow> string list \<Rightarrow> http_request \<Rightarrow> (int \<times> response_body) io" where
  "handle_route hash latlong r params req =
     (let body = body_value (rq_body req); query = url_query (rq_url req); param = first_param params in
      case r of
        OrdersCreate \<Rightarrow> answering 202 OrderAnswer
          (case CreateOrderDto_read body of
             Some dto \<Rightarrow> orders_create hash (rq_keys req) dto
           | None \<Rightarrow> (case extractIdempotencyKey (rq_keys req) of Inl e \<Rightarrow> Throw e | Inr _ \<Rightarrow> Throw validation_failed))
      | OrdersGetOne \<Rightarrow> answering 200 OrderAnswer (orders_getOne param)
      | OrdersList \<Rightarrow> answering 200 OrdersAnswer (with_valid (list_query query) orders_list)
      | WarehousesIndex \<Rightarrow> answering 200 (\<lambda>rows. Rows (map warehouses_toDto rows)) warehouses_index
      | WarehousesPost \<Rightarrow> answering 201 (\<lambda>a. Row (warehouses_toDto a)) (with_valid (CreateWarehouseDto_read latlong body) warehouses_post)
      | WarehousesDelete \<Rightarrow> answering 204 (\<lambda>_. EmptyAnswer) (warehouses_delete param)
      | CustomersIndex \<Rightarrow> answering 200 (\<lambda>rows. Rows (map customers_toDto rows)) customers_index
      | CustomersGetOne \<Rightarrow> answering 200 (\<lambda>c. Row (customers_toDto c)) (customers_getOne param)
      | CustomersPost \<Rightarrow> answering 201 (\<lambda>a. Row (customers_toDto a)) (with_valid (CreateCustomerDto_read body) customers_post)
      | CustomersDelete \<Rightarrow> answering 204 (\<lambda>_. EmptyAnswer) (customers_delete param)
      | AddressesIndex \<Rightarrow> answering 200 (\<lambda>rows. Rows (map addresses_toDto rows)) addresses_index
      | AddressesGet \<Rightarrow> answering 200 (\<lambda>c. Row (JObject (coordinates_json c))) (addresses_get (text_param (query_value ''address'' query)))
      | AddressesPost \<Rightarrow> answering 201 (\<lambda>a. Row (addresses_toDto a)) (with_valid (CreateAddressDto_read latlong body) addresses_post)
      | AddressesDelete \<Rightarrow> answering 204 (\<lambda>_. EmptyAnswer) (addresses_delete param)
      | CardsIndex \<Rightarrow> answering 200 (\<lambda>rows. Rows (map cards_toDto rows)) cards_index
      | CardsPost \<Rightarrow> answering 201 (\<lambda>a. Row (cards_toDto a)) (with_valid (CreateCreditCardDto_read body) cards_post)
      | CardsDelete \<Rightarrow> answering 204 (\<lambda>_. EmptyAnswer) (cards_delete param)
      | PspPostAuthorize \<Rightarrow> answering 201 ChargeAnswer (with_valid (AuthorizeChargeDto_read body) psp_post_authorize)
      | PspGetCharge \<Rightarrow> answering 200 ChargeAnswer (psp_getCharge param)
      | ProductsIndex \<Rightarrow> answering 200 (\<lambda>rows. Rows (map products_toDto rows)) (products_index (text_param (query_value ''ids'' query)))
      | ProductsPost \<Rightarrow> answering 201 (\<lambda>a. Row (products_toDto a)) (with_valid (CreateProductDto_read body) products_post)
      | StockIndex \<Rightarrow> answering 200 (\<lambda>rows. Rows (map stock_toDto rows)) stock_index
      | StockPost \<Rightarrow> answering 201 (\<lambda>a. Row (stock_toDto a)) (with_valid (AddStockDto_read body) stock_post))"

text \<open>No route: the framework's own 404.\<close>

definition method_text :: "http_method \<Rightarrow> string" where
  "method_text m = (case m of GET \<Rightarrow> ''GET'' | POST \<Rightarrow> ''POST'' | DELETE \<Rightarrow> ''DELETE'')"

definition handle :: "(string \<Rightarrow> string) \<Rightarrow> (string \<Rightarrow> rat option) \<Rightarrow> http_request \<Rightarrow> (int \<times> response_body) io" where
  "handle hash latlong req =
     (case served_by (rq_method req) (rq_url req) of
        None \<Rightarrow> Throw (NotFoundException (''Cannot '' @ method_text (rq_method req) @ '' '' @ url_path (rq_url req)))
      | Some (r, params) \<Rightarrow> handle_route hash latlong r params req)"

definition respond :: "(string \<Rightarrow> string) \<Rightarrow> (string \<Rightarrow> rat option) \<Rightarrow> http_request \<Rightarrow> (int \<times> response_body) io" where
  "respond hash latlong req = catching (handle hash latlong req) 
     (\<lambda>e. Return (fst (exception_filter e), ErrorAnswer (snd (exception_filter e))))"

section \<open>The clients' calls\<close>

text \<open>\<open>fetchJson\<close> as a request over the link to a server of this program; \<open>read\<close> takes a body for what the client expects.\<close>

definition over_http :: "(string \<Rightarrow> string) \<Rightarrow> (string \<Rightarrow> rat option) \<Rightarrow> http_request \<Rightarrow> (response_body \<Rightarrow> 'a option) \<Rightarrow> (int \<times> 'a option) io" where
  "over_http hash latlong req read =
     await (send http_link) (\<lambda>_.
     await (respond hash latlong req) (\<lambda>(status, body).
     await (receive http_link) (\<lambda>_. Return (status, read body))))"

lemma catching_result:
  "await (catching (await p (\<lambda>a. Return (f a))) (\<lambda>e. Return (g e))) k =
   await (catching (await p (\<lambda>a. Return (Inr a))) (\<lambda>e. Return (Inl e))) (\<lambda>r. case r of Inr a \<Rightarrow> k (f a) | Inl e \<Rightarrow> k (g e))"
  by (induction p rule: prog_operations) (simp_all add: map_prod_def split_beta)

lemma fetch_over_http:
  assumes served: "handle hash latlong req = answering status f handler"
    and read: "\<And>a. read (f a) = Some a" "\<And>j. read (ErrorAnswer j) = None"
  shows "fetchJson status handler = over_http hash latlong req read"
  unfolding fetchJson_def over_http_def respond_def served answering_def
  by (subst (1 2) catching_result) (simp add: read)

section \<open>What comes back\<close>

text \<open>The HTTP exceptions the program throws: each has a body that repeats its status.\<close>

definition own_exception :: "exn \<Rightarrow> bool" where
  "own_exception e \<longleftrightarrow> (\<forall>status body. e = HttpException status body \<longrightarrow>
     status \<in> {400, 404, 504} \<and> (\<exists>j. body = JsonBody j \<and> ej_status j = status))"

abbreviation proper :: "'a io \<Rightarrow> bool" where
  "proper p \<equiv> ends (\<lambda>_. True) own_exception p"

lemma own_exceptions [simp]:
  "own_exception (BadRequestException code msgs)" "own_exception (NotFoundException msg)" "own_exception (GatewayTimeoutException msg)"
  "own_exception (PlainError msg)" "own_exception (UnprocessableOrderError what msg)" "own_exception (IdempotencyKeyReuseError v)"
  "own_exception ConcurrentRequestError" "own_exception (OrderNotFoundError v)" "own_exception (duplicate_key fs)"
  "own_exception net_error" "own_exception validation_failed" "own_exception PaymentGatewayTimeoutError"
  by (simp_all add: own_exception_def BadRequestException_def NotFoundException_def GatewayTimeoutException_def duplicate_key_def
      net_error_def validation_failed_def)

lemma proper_await: "proper p \<Longrightarrow> (\<And>a. proper (k a)) \<Longrightarrow> proper (await p k)"
  by (rule ends_await, rule ends_mono [of "\<lambda>_. True" own_exception]) auto

lemma proper_catching: "ends Q' E' p \<Longrightarrow> (\<And>e. E' e \<Longrightarrow> proper (h e)) \<Longrightarrow> proper (catching p h)"
  by (rule ends_catching, rule ends_mono [of Q' E']) auto

lemma proper_sample: "proper (sample g)"
  by (simp add: sample_def)

lemma proper_answer: "(\<And>e. r = Inl e \<Longrightarrow> own_exception e) \<Longrightarrow> proper (answer r)"
  by (cases r) (simp_all add: answer_def)

lemma proper_db: "(\<And>s e t. f s = (Inl e, t) \<Longrightarrow> own_exception e) \<Longrightarrow> proper (db f)"
  by (auto simp: db_def over_def intro!: proper_answer split: link.splits) (metis prod.collapse)

lemma proper_db_read: "proper (db_read g)"
  unfolding db_read_def by (rule proper_db) auto

lemmas proper_rules = proper_await proper_sample proper_db proper_db_read proper_answer

lemma proper_path_id: "proper (path_id v)"
  unfolding path_id_def by (auto intro!: proper_rules simp: ParseObjectIdPipe_def split: if_splits)

lemma proper_fetchJson: "proper handler \<Longrightarrow> proper (fetchJson status handler)"
  unfolding fetchJson_def
  by (auto intro!: proper_await proper_catching [of "\<lambda>_. True" own_exception] simp: send_def receive_def)

lemma proper_validated: "(\<And>b. proper (handler b)) \<Longrightarrow> proper (validated valid handler body)"
  by (simp add: validated_def)

lemma proper_with_valid: "(\<And>b. proper (handler b)) \<Longrightarrow> proper (with_valid parameter handler)"
  by (simp add: with_valid_def split: option.split)

lemma proper_removed: "proper (removed what oid n)"
  by (simp add: removed_def)

lemma proper_directories:
  "proper (customers_getOne v)" "proper (products_index query)" "proper (addresses_get query)"
  unfolding customers_getOne_def customers_findById_def products_index_def products_list_def addresses_get_def addresses_lookup_def
  by (auto intro!: proper_rules proper_path_id split: option.split)

lemma proper_management:
  "proper (warehouses_post d1)" "proper (customers_post d2)" "proper (addresses_post d3)" "proper (cards_post d4)"
  "proper (products_post d5)" "proper (stock_post d6)"
  unfolding warehouses_post_def customers_post_def addresses_post_def cards_post_def products_post_def stock_post_def
    warehouses_create_def customers_create_def addresses_create_def cards_create_def products_create_def addStock_def add_stock_op_def
  by (auto intro!: proper_validated proper_db simp: Let_def split: option.splits prod.splits)

lemma proper_deletes:
  "proper (warehouses_delete v)" "proper (customers_delete v)" "proper (addresses_delete v)" "proper (cards_delete v)"
  unfolding warehouses_delete_def customers_delete_def addresses_delete_def cards_delete_def
    warehouses_remove_def customers_remove_def addresses_remove_def cards_remove_def
  by (auto intro!: proper_await proper_path_id proper_db proper_removed split: prod.splits)

lemma proper_lists:
  "proper warehouses_index" "proper customers_index" "proper addresses_index" "proper cards_index" "proper stock_index"
  unfolding warehouses_index_def customers_index_def addresses_index_def cards_index_def stock_index_def
    warehouses_list_def customers_list_def addresses_list_def cards_list_def stock_list_def
  by (rule proper_db_read)+

lemma proper_psp_getCharge: "proper (psp_getCharge v)"
  unfolding psp_getCharge_def psp_getByIdempotencyKey_def by (auto intro!: proper_rules split: option.split)

lemma proper_psp_post_authorize: "proper (psp_post_authorize dto)"
proof -
  have insert: "proper (await (db (insert_charge c)) (\<lambda>_. Return None))" for c
    by (auto intro!: proper_await proper_db simp: insert_charge_def split: option.splits)
  have "proper (charge_conflict dto e)" if "own_exception e" for e
    using that unfolding charge_conflict_def by (auto intro!: proper_rules split: option.split)
  then have "proper (psp_charge_card dto c)" for c
    unfolding psp_charge_card_def by (auto intro!: proper_await proper_catching [OF insert] proper_sample split: option.split)
  then show ?thesis
    unfolding psp_post_authorize_def psp_authorize_def findByCardNumber_def is_declined_def
    by (auto intro!: proper_rules simp: BadRequestException_def [symmetric] split: option.split)
qed

lemma proper_clients:
  "proper (getCustomerById v)" "proper (getProductsById ids)" "proper (getCoordinates v)"
  unfolding getCustomerById_def getProductsById_def getCoordinates_def
  by (auto intro!: proper_await proper_fetchJson proper_directories simp: Let_def simp del: join.simps split: option.split)

lemma proper_await_attempts: "proper (await_attempts n c k)"
  by (induction n) (auto simp: findByIdempotencyKey_def intro!: proper_await proper_db_read split: option.split)

lemma proper_acceptOrder: "proper (acceptOrder hash dto key)"
proof -
  have replay: "proper (resolveReplay ord fingerprint)" for ord fingerprint
    by (simp add: resolveReplay_def)
  have products: "proper (loadProducts dto)" and coordinates: "proper (resolveCoordinates v)" for v
    unfolding loadProducts_def resolveCoordinates_def by (rule proper_catching [OF proper_clients(2)] proper_catching [OF proper_clients(3)], simp)+
  have "own_exception e" if "price_items items found = Inl e" for items found e
    using that by (induction items arbitrary: e) (auto split: option.splits sum.splits)
  then have priced: "own_exception e" if "priceOrder dto found = Inl e" for found e
    using that by (auto simp: priceOrder_def split: sum.splits)
  have "proper (db (accept_tx ord))" for ord
    by (rule proper_db) (auto simp: accept_tx_def insert_order_def createOrderCreatedEvent_def Let_def split: option.splits sum.splits if_splits)
  then have tx: "ends (\<lambda>r. case r of Inl e \<Rightarrow> own_exception e | Inr _ \<Rightarrow> True) own_exception (attempt (db (accept_tx ord)))" for ord
    by (intro ends_attempt) (auto elim: ends_mono)
  have "proper (commit_order ord orderId c k fingerprint)" for ord orderId c k fingerprint
    unfolding commit_order_def awaitWinner_def findById_def
    by (rule ends_await, rule ends_mono [OF tx])
      (auto intro!: proper_await proper_db_read proper_await_attempts replay split: sum.splits option.split)
  then show ?thesis
    unfolding acceptOrder_def findByIdempotencyKey_def Let_def
    by (auto intro!: proper_await proper_db_read proper_clients products coordinates proper_sample replay priced split: option.split sum.split)
qed

lemma proper_orders:
  "proper (orders_create hash header dto)" "proper (orders_getOne v)" "proper (orders_list query)"
  unfolding orders_create_def orders_getOne_def orders_list_def getOrder_def findById_def listOrders_def list_orders_def
  by (auto intro!: proper_await proper_acceptOrder proper_path_id proper_db_read
      simp: extractIdempotencyKey_def Let_def split: sum.splits option.split if_splits)

text \<open>A success has its status and a document, a failure an error that repeats the status, an error of the server's own nothing but that.\<close>

definition internal_error :: error_json where
  "internal_error = \<lparr>ej_status = 500, ej_code = Some ''INTERNAL_ERROR'', ej_message = [''Internal server error'']\<rparr>"

definition good_answer :: "int \<times> response_body \<Rightarrow> bool" where
  "good_answer r \<longleftrightarrow> fst r \<in> {200, 201, 202, 204} \<and> (\<forall>j. snd r \<noteq> ErrorAnswer j)"

definition bad_answer :: "int \<times> response_body \<Rightarrow> bool" where
  "bad_answer r \<longleftrightarrow> (\<exists>j. snd r = ErrorAnswer j \<and> ej_status j = fst r
     \<and> (fst r \<in> {400, 404, 409, 422, 504} \<or> fst r = 500 \<and> j = internal_error))"

lemma ends_answering: "proper handler \<Longrightarrow> (\<And>a. Q (status, f a)) \<Longrightarrow> ends Q own_exception (answering status f handler)"
  unfolding answering_def by (rule ends_await, rule ends_mono [of "\<lambda>_. True" own_exception]) auto

lemma handle_route_ends: "ends good_answer own_exception (handle_route hash latlong r params req)"
proof -
  have "proper ((case extractIdempotencyKey ks of Inl e \<Rightarrow> Throw e | Inr _ \<Rightarrow> Throw validation_failed) :: order_response io)" for ks
    by (auto simp: extractIdempotencyKey_def Let_def)
  then show ?thesis
    unfolding handle_route_def Let_def
    by (cases r)
      (auto intro!: ends_answering proper_orders proper_lists proper_management proper_deletes proper_directories
        proper_psp_getCharge proper_psp_post_authorize proper_with_valid simp: good_answer_def split: option.split)
qed

lemma filtered_failure: "own_exception e \<Longrightarrow> bad_answer (fst (exception_filter e), ErrorAnswer (snd (exception_filter e)))"
  by (cases e) (auto simp: bad_answer_def exception_filter_def domain_error_def own_exception_def internal_error_def)

lemma respond_ends: "ends (\<lambda>r. good_answer r \<or> bad_answer r) (\<lambda>_. False) (respond hash latlong req)"
proof -
  have "ends good_answer own_exception (handle hash latlong req)"
    by (auto simp: handle_def handle_route_ends split: option.split)
  then show ?thesis
    unfolding respond_def by (intro ends_catching) (erule ends_mono, simp_all add: filtered_failure)
qed

text \<open>A client's call and the handler of its route.\<close>

definition read_charge :: "response_body \<Rightarrow> payment_result option" where
  "read_charge body = (case body of ChargeAnswer r \<Rightarrow> Some r | _ \<Rightarrow> None)"

definition read_row :: "(json \<Rightarrow> 'a option) \<Rightarrow> response_body \<Rightarrow> 'a option" where
  "read_row read body = (case body of Row v \<Rightarrow> read v | _ \<Rightarrow> None)"

definition read_rows :: "(json \<Rightarrow> 'a option) \<Rightarrow> response_body \<Rightarrow> 'a list option" where
  "read_rows read body = (case body of Rows vs \<Rightarrow> those (map read vs) | _ \<Rightarrow> None)"

lemma read_simps [simp]:
  "read_charge (ChargeAnswer r) = Some r" "read_row read (Row v) = read v" "read_rows read (Rows vs) = those (map read vs)"
  "read_charge (ErrorAnswer j) = None" "read_row read (ErrorAnswer j) = None" "read_rows read (ErrorAnswer j) = None"
  by (simp_all add: read_charge_def read_row_def read_rows_def)

lemma those_read: "(\<And>a. read (f a) = Some a) \<Longrightarrow> those (map read (map f as)) = Some as"
  by (induction as) simp_all

definition client_request :: "http_method \<Rightarrow> string \<Rightarrow> request_body \<Rightarrow> http_request" where
  "client_request m url body = \<lparr>rq_method = m, rq_url = url, rq_keys = [], rq_body = body\<rparr>"

lemma served_calls:
  assumes key: "v \<notin> {[], ''.'', ''..''}"
  shows "at_mock host ''psp'' location \<Longrightarrow>
      fetchJson 201 (psp_post_authorize dto) = over_http hash latlong (client_request POST (authorize_url location) (Sent (authorize_json dto))) read_charge"
    and "at_mock host ''psp'' location \<Longrightarrow>
      fetchJson 200 (psp_getCharge v) = over_http hash latlong (client_request GET (charge_url location v) NoBody) read_charge"
    and "at_mock host ''customers'' location \<Longrightarrow>
      fetchJson 200 (customers_getOne v) = over_http hash latlong (client_request GET (customer_url location v) NoBody) (read_row customer_read)"
    and "at_mock host ''addresses'' location \<Longrightarrow>
      fetchJson 200 (addresses_get v) = over_http hash latlong (client_request GET (coordinates_url location v) NoBody) (read_row coordinates_read)"
    and "at_mock host ''products'' location \<Longrightarrow>
      fetchJson 200 (products_index (join '','' ids)) = over_http hash latlong (client_request GET (products_url location ids) NoBody) (read_rows product_read)"
proof -
  note handling = handle_def client_request_def handle_route_def with_valid_def first_param_def text_param_def body_value_def clients_reach [OF key]
  show "fetchJson 201 (psp_post_authorize dto) = over_http hash latlong (client_request POST (authorize_url location) (Sent (authorize_json dto))) read_charge"
    if "at_mock host ''psp'' location"
    using that by (intro fetch_over_http [where f = ChargeAnswer]) (simp_all add: handling)
  show "fetchJson 200 (psp_getCharge v) = over_http hash latlong (client_request GET (charge_url location v) NoBody) read_charge"
    if "at_mock host ''psp'' location"
    using that by (intro fetch_over_http [where f = ChargeAnswer]) (simp_all add: handling)
  show "fetchJson 200 (customers_getOne v) = over_http hash latlong (client_request GET (customer_url location v) NoBody) (read_row customer_read)"
    if "at_mock host ''customers'' location"
    using that by (intro fetch_over_http [where f = "\<lambda>c. Row (customers_toDto c)"]) (simp_all add: handling)
  show "fetchJson 200 (addresses_get v) = over_http hash latlong (client_request GET (coordinates_url location v) NoBody) (read_row coordinates_read)"
    if "at_mock host ''addresses'' location"
    using that by (intro fetch_over_http [where f = "\<lambda>c. Row (JObject (coordinates_json c))"]) (simp_all add: handling)
  show "fetchJson 200 (products_index (join '','' ids)) = over_http hash latlong (client_request GET (products_url location ids) NoBody) (read_rows product_read)"
    if "at_mock host ''products'' location"
    using that by (intro fetch_over_http [where f = "\<lambda>rows. Rows (map products_toDto rows)"]) (simp_all add: handling those_read del: join.simps map_map)
qed

section \<open>The console's requests\<close>

text \<open>\<open>API_BASE_URL\<close> is the path the web server in front of the console hands on to the program (\<open>frontend/nginx.conf\<close>).\<close>

definition console_request :: "http_method \<Rightarrow> string \<Rightarrow> string list \<Rightarrow> request_body \<Rightarrow> http_request" where
  "console_request m path keys body = \<lparr>rq_method = m, rq_url = ''http://app:4000'' @ path, rq_keys = keys, rq_body = body\<rparr>"

lemma console_route:
  "served_by POST (''http://app:4000'' @ ''/orders'') = Some (OrdersCreate, [])"
  using served_by_parts [of "[''orders'']" "''app:4000''" "[]" POST]
  by (simp add: plain_part_def server_routes_def order_routes_def mock_routes_def warehouse_routes_def customer_routes_def
      address_routes_def card_routes_def psp_routes_def product_routes_def stock_routes_def lower_def Let_def)

lemma order_posted:
  assumes "run (orders_create hash [key] dto) s = (Inr r, t)" and "CreateOrderDto_read v = Some dto"
  shows "run (respond hash latlong (console_request POST ''/orders'' [key] (Sent v))) s = (Inr (202, OrderAnswer r), t)"
  using console_route assms
  by (simp add: respond_def handle_def console_request_def handle_route_def answering_def body_value_def run_catching run_await del: append.simps)

end
