(* ===== verification/Forms.thy ===== *)
theory Forms
  imports Bodies
begin

text \<open>
  The forms of the data screen against the classes of the server: what a form with these texts in its
  fields sends, and what the server reads of it. A blank field that is required, or a number that
  is none, makes a body the server refuses.
\<close>

section \<open>From a form to a request\<close>

lemma entities:
  "map_of DATA_ENTITIES ''products'' = Some entity \<Longrightarrow> de_endpoint entity = ''/products'' \<and> \<not> de_deletes entity \<and> de_fields entity =
     [input ''name'' ''Name'' TextInput True, input ''description'' ''Description'' TextInput False, input ''price'' ''Price'' NumberInput True]"
  "map_of DATA_ENTITIES ''locations'' = Some entity \<Longrightarrow> de_endpoint entity = ''/addresses'' \<and> de_deletes entity \<and> de_fields entity =
     [input ''address'' ''Address'' TextInput True, input ''latitude'' ''Latitude'' NumberInput True, input ''longitude'' ''Longitude'' NumberInput True]"
  "map_of DATA_ENTITIES ''warehouses'' = Some entity \<Longrightarrow> de_endpoint entity = ''/warehouses'' \<and> de_deletes entity \<and> de_fields entity =
     [(chosen ''locationId'' ''Location'' ''locations'' ''id'' ''address'')\<lparr>df_maps := [''latitude'', ''longitude'']\<rparr>]"
  "map_of DATA_ENTITIES ''stock'' = Some entity \<Longrightarrow> de_endpoint entity = ''/stock'' \<and> \<not> de_deletes entity \<and> de_fields entity =
     [chosen ''warehouseId'' ''Warehouse'' ''warehouses'' ''id'' [], chosen ''productId'' ''Product'' ''products'' ''id'' ''name'',
      input ''quantity'' ''Quantity'' NumberInput True]"
  "map_of DATA_ENTITIES ''customers'' = Some entity \<Longrightarrow> de_endpoint entity = ''/customers'' \<and> de_deletes entity \<and> de_fields entity =
     [input ''name'' ''Name'' TextInput True, chosen ''creditCard'' ''Credit card'' ''credit-cards'' ''cardNumber'' ''cardNumber'']"
  "map_of DATA_ENTITIES ''credit-cards'' = Some entity \<Longrightarrow> de_endpoint entity = ''/credit-cards'' \<and> de_deletes entity \<and> de_fields entity =
     [input ''cardNumber'' ''Card number'' TextInput True, (input ''status'' ''Status'' SelectInput True)\<lparr>df_options := [''APPROVE'', ''DECLINE'']\<rparr>,
      input ''declineReason'' ''Decline reason'' TextInput False]"
  by (simp_all add: DATA_ENTITIES_def) auto

lemma add_field_simps:
  "add_field number_text entered source_rows (input name label TextInput required) body =
     (if entered name = [] then body else AList.update name (TextOf (entered name)) body)"
  "add_field number_text entered source_rows (input name label NumberInput required) body =
     (if entered name = [] then body else AList.update name (NumberOf (js_number (entered name))) body)"
  "add_field number_text entered source_rows ((input name label SelectInput required)\<lparr>df_options := options\<rparr>) body =
     (if entered name = [] then body else AList.update name (TextOf (entered name)) body)"
  "add_field number_text entered source_rows (chosen name label source property shows) body =
     (if entered name = [] then body else AList.update name (TextOf (entered name)) body)"
  "add_field number_text entered source_rows ((chosen name label source property shows)\<lparr>df_maps := copied # maps\<rparr>) body =
     (if entered name = [] then body
      else case find (\<lambda>row. value_text number_text (row property) = entered name) (source_rows name) of
             None \<Rightarrow> body
           | Some row \<Rightarrow> fold (add_property row) (copied # maps) body)"
  by (simp_all add: add_field_def input_def chosen_def Let_def split: option.split)

lemmas form_simps = data_body_def add_field_simps data_json_def value_json_def member_defs given_def

text \<open>The number a field holds, if it is filled in with one.\<close>

definition entered_number :: "string \<Rightarrow> rat option" where
  "entered_number text = (if text = [] then None else js_number text)"

lemma products_form:
  assumes "map_of DATA_ENTITIES ''products'' = Some entity"
  shows "CreateProductDto_read (data_json (data_body number_text entered source_rows entity)) =
    (if entered ''name'' = [] then None
     else map_option (\<lambda>price. \<lparr>dp_name = entered ''name'',
       dp_description = (if entered ''description'' = [] then None else Some (entered ''description'')), dp_price = price\<rparr>)
       (entered_number (entered ''price'')))"
  using entities(1) [OF assms]
  by (cases "js_number (entered ''price'')")
    (simp_all add: CreateProductDto_read_def form_simps entered_number_def number_json_def)

lemma locations_form:
  assumes "map_of DATA_ENTITIES ''locations'' = Some entity"
  shows "CreateAddressDto_read latlong (data_json (data_body number_text entered source_rows entity)) =
    (if entered ''address'' = [] then None
     else Option.bind (entered_number (entered ''latitude'')) (\<lambda>lat. map_option (\<lambda>long.
       \<lparr>da_address = entered ''address'', da_latitude = lat, da_longitude = long\<rparr>) (entered_number (entered ''longitude''))))"
  using entities(2) [OF assms]
  by (cases "js_number (entered ''latitude'')"; cases "js_number (entered ''longitude'')")
    (simp_all add: CreateAddressDto_read_def form_simps entered_number_def number_json_def)

lemma customers_form:
  assumes "map_of DATA_ENTITIES ''customers'' = Some entity"
  shows "CreateCustomerDto_read (data_json (data_body number_text entered source_rows entity)) =
    (if entered ''name'' = [] \<or> entered ''creditCard'' = [] then None
     else Some \<lparr>dc_name = entered ''name'', dc_card = entered ''creditCard''\<rparr>)"
  using entities(5) [OF assms] by (simp add: CreateCustomerDto_read_def form_simps)

lemma cards_form:
  assumes "map_of DATA_ENTITIES ''credit-cards'' = Some entity"
  shows "CreateCreditCardDto_read (data_json (data_body number_text entered source_rows entity)) =
    (if entered ''cardNumber'' = [] then None
     else map_option (\<lambda>status. \<lparr>dk_number = entered ''cardNumber'', dk_status = status,
       dk_reason = (if entered ''declineReason'' = [] then None else Some (Some (entered ''declineReason'')))\<rparr>)
       (card_status_of (entered ''status'')))"
  using entities(6) [OF assms]
  by (cases "card_status_of (entered ''status'')"; cases "entered ''status''")
    (simp_all add: CreateCreditCardDto_read_def form_simps card_status_of_def)

lemma stock_form:
  assumes "map_of DATA_ENTITIES ''stock'' = Some entity"
  shows "AddStockDto_read (data_json (data_body number_text entered source_rows entity)) =
    (if entered ''warehouseId'' = [] \<or> entered ''productId'' = [] then None
     else map_option (\<lambda>n. \<lparr>as_warehouse = entered ''warehouseId'', as_product = entered ''productId'', as_quantity = n\<rparr>)
       (whole (entered_number (entered ''quantity''))))"
  using entities(4) [OF assms]
  by (cases "js_number (entered ''quantity'')")
    (simp_all add: AddStockDto_read_def form_simps entered_number_def number_json_def whole_def)

text \<open>A new warehouse stands where the chosen location is.\<close>

lemma warehouses_form:
  assumes "map_of DATA_ENTITIES ''warehouses'' = Some entity" and "a \<in> set found" and "distinct (map ad_id found)" and "ad_id a \<noteq> []"
    and "entered ''locationId'' = ad_id a" and "source_rows ''locationId'' = map (row_of \<circ> addresses_toDto) found"
  shows "CreateWarehouseDto_read latlong (data_json (data_body number_text entered source_rows entity)) =
    Some \<lparr>dw_latitude = latitude (ad_location a), dw_longitude = longitude (ad_location a)\<rparr>"
proof -
  have row: "row_of (addresses_toDto b) ''id'' = Some (TextOf (ad_id b))"
    "row_of (addresses_toDto b) ''latitude'' = Some (NumberOf (Some (latitude (ad_location b))))"
    "row_of (addresses_toDto b) ''longitude'' = Some (NumberOf (Some (longitude (ad_location b))))" for b
    by (simp_all add: row_of_def addresses_toDto_def coordinates_json_def get_member_def)
  have "find (\<lambda>row. value_text number_text (row ''id'') = ad_id a) (map (row_of \<circ> addresses_toDto) found) = Some (row_of (addresses_toDto a))"
    using assms(2,3) by (induction found) (auto simp: row value_text_def image_iff)
  then show ?thesis
    using entities(3) [OF assms(1)] assms(4-6)
    by (simp add: CreateWarehouseDto_read_def form_simps add_property_def row number_json_def)
qed

end
