(* ===== verification/Screens.thy ===== *)
theory Screens
  imports Server Forms Management
begin

text \<open>
  The console against the server: the handlers of \<open>frontend/app.js\<close> together with the requests they
  send and the answers these get, from a filled-in form to the line in the list and to what the
  order service's clients then find.
\<close>

section \<open>The handlers with their requests\<close>

definition data_tab :: "string \<Rightarrow> data_entity" where
  "data_tab tabKey = the (map_of DATA_ENTITIES tabKey)"

text \<open>\<open>apiFetch\<close> on an answer of this server; \<open>status_line\<close> is the text of a status.\<close>

definition reply_of :: "response_body \<Rightarrow> response_body reply" where
  "reply_of body = (case body of ErrorAnswer j \<Rightarrow> Refusal j | EmptyAnswer \<Rightarrow> NoText | _ \<Rightarrow> Answer body)"

definition fetched :: "(int \<Rightarrow> string) \<Rightarrow> int \<times> response_body \<Rightarrow> string + response_body option" where
  "fetched status_line answer_got =
     apiFetch (ok_status (fst answer_got)) (status_line (fst answer_got)) (reply_of (snd answer_got))"

text \<open>The rows of a list; \<open>null\<close> has no \<open>length\<close>, and a document that is no list counts as empty.\<close>

definition fetched_rows :: "string + response_body option \<Rightarrow> string + data_item list" where
  "fetched_rows got =
     (case got of
        Inl message \<Rightarrow> Inl message
      | Inr None \<Rightarrow> Inl ''Cannot read properties of null (reading 'length')''
      | Inr (Some (Rows vs)) \<Rightarrow> Inr (map row_of vs)
      | Inr _ \<Rightarrow> Inr [])"

text \<open>The form's submit button, unless it is disabled.\<close>

definition save_request :: "string \<Rightarrow> (string \<times> data_value) list \<Rightarrow> http_request" where
  "save_request tabKey body = console_request POST (de_endpoint (data_tab tabKey)) [] (Sent (data_json body))"

definition data_save :: "(string \<Rightarrow> string) \<Rightarrow> (string \<Rightarrow> rat option) \<Rightarrow> (rat option \<Rightarrow> string) \<Rightarrow> (string \<Rightarrow> data_item list) \<Rightarrow>
    string \<Rightarrow> data_form \<Rightarrow> (int \<times> response_body) option io" where
  "data_save hash latlong number_text source_rows tabKey form =
     (case snd (save_clicked number_text source_rows (data_tab tabKey) form) of
        None \<Rightarrow> Return None
      | Some body \<Rightarrow> await (respond hash latlong (save_request tabKey body)) (\<lambda>r. Return (Some r)))"

text \<open>The list of a tab, and a line's delete button.\<close>

definition list_request :: "string \<Rightarrow> http_request" where
  "list_request tabKey = console_request GET (de_endpoint (data_tab tabKey)) [] NoBody"

definition data_list :: "(string \<Rightarrow> string) \<Rightarrow> (string \<Rightarrow> rat option) \<Rightarrow> (rat option \<Rightarrow> string) \<Rightarrow> (int \<Rightarrow> string) \<Rightarrow> row_context \<Rightarrow>
    string \<Rightarrow> ((string \<times> string) \<times> (string \<times> string option) list) io" where
  "data_list hash latlong number_text status_line context tabKey =
     await (respond hash latlong (list_request tabKey)) (\<lambda>r.
     Return (fetchAndRenderDataList number_text context tabKey (data_tab tabKey) (fetched_rows (fetched status_line r))))"

definition delete_request :: "string \<Rightarrow> http_request" where
  "delete_request path = console_request DELETE path [] NoBody"

section \<open>Requests answered\<close>

lemma handled_run:
  assumes "handle hash latlong req = answering status f handler" and "run handler s = (Inr a, t)"
  shows "run (respond hash latlong req) s = (Inr (status, f a), t)"
  using assms by (simp add: respond_def answering_def run_catching run_await)

lemma tabs [simp]:
  "de_endpoint (data_tab ''products'') = ''/products''" "de_endpoint (data_tab ''locations'') = ''/addresses''"
  "de_endpoint (data_tab ''warehouses'') = ''/warehouses''" "de_endpoint (data_tab ''stock'') = ''/stock''"
  "de_endpoint (data_tab ''customers'') = ''/customers''" "de_endpoint (data_tab ''credit-cards'') = ''/credit-cards''"
  "\<not> de_deletes (data_tab ''products'')" "de_deletes (data_tab ''locations'')" "de_deletes (data_tab ''warehouses'')"
  "\<not> de_deletes (data_tab ''stock'')" "de_deletes (data_tab ''customers'')" "de_deletes (data_tab ''credit-cards'')"
  by (simp_all add: data_tab_def DATA_ENTITIES_def)

lemma tab_known: "tabKey \<in> fst ` set DATA_ENTITIES \<Longrightarrow> map_of DATA_ENTITIES tabKey = Some (data_tab tabKey)"
  by (metis data_tab_def map_of_eq_None_iff option.collapse)

lemma tab_names: "fst ` set DATA_ENTITIES = {''products'', ''locations'', ''warehouses'', ''stock'', ''customers'', ''credit-cards''}"
  by (simp add: DATA_ENTITIES_def)

lemma tab_routes:
  assumes tab: "tabKey \<in> fst ` set DATA_ENTITIES" and routes: "data_routes (de_endpoint (data_tab tabKey)) = Some (index, post, delete)"
    and oid: "is_mongo_id v"
  shows "served_by GET (''http://app:4000'' @ de_endpoint (data_tab tabKey)) = Some (index, [])"
    and "served_by POST (''http://app:4000'' @ de_endpoint (data_tab tabKey)) = Some (post, [])"
    and "served_by DELETE (''http://app:4000'' @ de_endpoint (data_tab tabKey) @ ''/'' @ v) = map_option (\<lambda>r. (r, [v])) delete"
proof -
  have "(tabKey, data_tab tabKey) \<in> set DATA_ENTITIES" using tab_known [OF tab] by (rule map_of_SomeD)
  from data_screen_reaches [OF this _ oid, of "''app:4000''"] routes
  show "served_by GET (''http://app:4000'' @ de_endpoint (data_tab tabKey)) = Some (index, [])"
    "served_by POST (''http://app:4000'' @ de_endpoint (data_tab tabKey)) = Some (post, [])"
    "served_by DELETE (''http://app:4000'' @ de_endpoint (data_tab tabKey) @ ''/'' @ v) = map_option (\<lambda>r. (r, [v])) delete"
    by simp_all
qed

lemma some_id: "is_mongo_id (replicate 24 (CHR ''0''))"
  by code_simp

text \<open>The list a tab shows is made of the documents of its collection.\<close>

definition shown_line :: "(rat option \<Rightarrow> string) \<Rightarrow> row_context \<Rightarrow> string \<Rightarrow> json \<Rightarrow> string \<times> string option" where
  "shown_line number_text context tabKey v =
     (renderRow number_text context tabKey (row_of v),
      if de_deletes (data_tab tabKey) then Some (de_endpoint (data_tab tabKey) @ ''/'' @ value_text number_text (row_of v ''id'')) else None)"

lemma fetched_list:
  "fetched_rows (fetched status_line (200, Rows vs)) = Inr (map row_of vs)"
  by (simp add: fetched_def reply_of_def apiFetch_def ok_status_def fetched_rows_def)

lemma listed_lines:
  assumes "handle hash latlong (list_request tabKey) = answering 200 (\<lambda>ds. Rows (map f ds)) handler"
    and "run handler s = (Inr documents, s)"
  shows "\<exists>message. run (data_list hash latlong number_text status_line context tabKey) s =
    (Inr (message, map (shown_line number_text context tabKey \<circ> f) documents), s)"
proof -
  have "run (respond hash latlong (list_request tabKey)) s = (Inr (200, Rows (map f documents)), s)"
    by (rule handled_run [OF assms])
  then show ?thesis
    by (cases documents) (simp_all add: data_list_def run_await fetched_list fetchAndRenderDataList_def shown_line_def)
qed

lemma url_no_query:
  "url_query (''http://app:4000'' @ ''/products'') = []"
  by (simp add: url_query_def)

lemma lists_handled:
  "handle hash latlong (list_request ''products'') = answering 200 (\<lambda>ds. Rows (map products_toDto ds)) (products_index [])"
  "handle hash latlong (list_request ''locations'') = answering 200 (\<lambda>ds. Rows (map addresses_toDto ds)) addresses_index"
  "handle hash latlong (list_request ''warehouses'') = answering 200 (\<lambda>ds. Rows (map warehouses_toDto ds)) warehouses_index"
  "handle hash latlong (list_request ''stock'') = answering 200 (\<lambda>ds. Rows (map stock_toDto ds)) stock_index"
  "handle hash latlong (list_request ''customers'') = answering 200 (\<lambda>ds. Rows (map customers_toDto ds)) customers_index"
  "handle hash latlong (list_request ''credit-cards'') = answering 200 (\<lambda>ds. Rows (map cards_toDto ds)) cards_index"
proof -
  note routes = tab_routes(1) [OF _ _ some_id, unfolded tab_names]
  note simps = handle_def list_request_def console_request_def handle_route_def data_routes_def Let_def
  show "handle hash latlong (list_request ''products'') = answering 200 (\<lambda>ds. Rows (map products_toDto ds)) (products_index [])"
    using routes [of "''products''"] url_no_query
    by (simp add: simps query_value_def text_param_def del: append.simps)
  show "handle hash latlong (list_request ''locations'') = answering 200 (\<lambda>ds. Rows (map addresses_toDto ds)) addresses_index"
    using routes [of "''locations''"] by (simp add: simps del: append.simps)
  show "handle hash latlong (list_request ''warehouses'') = answering 200 (\<lambda>ds. Rows (map warehouses_toDto ds)) warehouses_index"
    using routes [of "''warehouses''"] by (simp add: simps del: append.simps)
  show "handle hash latlong (list_request ''stock'') = answering 200 (\<lambda>ds. Rows (map stock_toDto ds)) stock_index"
    using routes [of "''stock''"] by (simp add: simps del: append.simps)
  show "handle hash latlong (list_request ''customers'') = answering 200 (\<lambda>ds. Rows (map customers_toDto ds)) customers_index"
    using routes [of "''customers''"] by (simp add: simps del: append.simps)
  show "handle hash latlong (list_request ''credit-cards'') = answering 200 (\<lambda>ds. Rows (map cards_toDto ds)) cards_index"
    using routes [of "''credit-cards''"] by (simp add: simps del: append.simps)
qed

lemma lists_read:
  assumes "db_link s = Up"
  shows "run (products_index []) s = (Inr (products s), s)" and "run addresses_index s = (Inr (addresses s), s)"
    and "run warehouses_index s = (Inr (warehouses s), s)" and "run stock_index s = (Inr (stock s), s)"
    and "run customers_index s = (Inr (customers s), s)" and "run cards_index s = (Inr (cards s), s)"
  using assms
  by (simp_all add: products_index_def products_list_def addresses_index_def addresses_list_def warehouses_index_def warehouses_list_def
      stock_index_def stock_list_def customers_index_def customers_list_def cards_index_def cards_list_def run_await run_sample run_db_read)

lemmas lists_shown = listed_lines [OF lists_handled(1) lists_read(1)] listed_lines [OF lists_handled(2) lists_read(2)]
  listed_lines [OF lists_handled(3) lists_read(3)] listed_lines [OF lists_handled(4) lists_read(4)]
  listed_lines [OF lists_handled(5) lists_read(5)] listed_lines [OF lists_handled(6) lists_read(6)]

text \<open>A form whose body the server can read is handed to its route.\<close>

lemma saves_handled:
  "handle hash latlong (save_request ''products'' body) =
    answering 201 (\<lambda>a. Row (products_toDto a)) (with_valid (CreateProductDto_read (data_json body)) products_post)"
  "handle hash latlong (save_request ''locations'' body) =
    answering 201 (\<lambda>a. Row (addresses_toDto a)) (with_valid (CreateAddressDto_read latlong (data_json body)) addresses_post)"
  "handle hash latlong (save_request ''customers'' body) =
    answering 201 (\<lambda>a. Row (customers_toDto a)) (with_valid (CreateCustomerDto_read (data_json body)) customers_post)"
  "handle hash latlong (save_request ''credit-cards'' body) =
    answering 201 (\<lambda>a. Row (cards_toDto a)) (with_valid (CreateCreditCardDto_read (data_json body)) cards_post)"
  "handle hash latlong (save_request ''warehouses'' body) =
    answering 201 (\<lambda>a. Row (warehouses_toDto a)) (with_valid (CreateWarehouseDto_read latlong (data_json body)) warehouses_post)"
  "handle hash latlong (save_request ''stock'' body) =
    answering 201 (\<lambda>a. Row (stock_toDto a)) (with_valid (AddStockDto_read (data_json body)) stock_post)"
proof -
  note routes = tab_routes(2) [OF _ _ some_id, unfolded tab_names]
  note simps = handle_def save_request_def console_request_def handle_route_def data_routes_def body_value_def Let_def
  show "handle hash latlong (save_request ''products'' body) =
      answering 201 (\<lambda>a. Row (products_toDto a)) (with_valid (CreateProductDto_read (data_json body)) products_post)"
    using routes [of "''products''"] by (simp add: simps del: append.simps)
  show "handle hash latlong (save_request ''locations'' body) =
      answering 201 (\<lambda>a. Row (addresses_toDto a)) (with_valid (CreateAddressDto_read latlong (data_json body)) addresses_post)"
    using routes [of "''locations''"] by (simp add: simps del: append.simps)
  show "handle hash latlong (save_request ''customers'' body) =
      answering 201 (\<lambda>a. Row (customers_toDto a)) (with_valid (CreateCustomerDto_read (data_json body)) customers_post)"
    using routes [of "''customers''"] by (simp add: simps del: append.simps)
  show "handle hash latlong (save_request ''credit-cards'' body) =
      answering 201 (\<lambda>a. Row (cards_toDto a)) (with_valid (CreateCreditCardDto_read (data_json body)) cards_post)"
    using routes [of "''credit-cards''"] by (simp add: simps del: append.simps)
  show "handle hash latlong (save_request ''warehouses'' body) =
      answering 201 (\<lambda>a. Row (warehouses_toDto a)) (with_valid (CreateWarehouseDto_read latlong (data_json body)) warehouses_post)"
    using routes [of "''warehouses''"] by (simp add: simps del: append.simps)
  show "handle hash latlong (save_request ''stock'' body) =
      answering 201 (\<lambda>a. Row (stock_toDto a)) (with_valid (AddStockDto_read (data_json body)) stock_post)"
    using routes [of "''stock''"] by (simp add: simps del: append.simps)
qed

lemma save_run:
  assumes "\<not> dm_saving form"
    and "handle hash latlong (save_request tabKey (data_body number_text (dm_entered form) source_rows (data_tab tabKey))) =
      answering 201 (\<lambda>a. Row (f a)) (with_valid parameter handler)"
    and "parameter = Some dto" and "run (handler dto) s = (Inr a, t)"
  shows "run (data_save hash latlong number_text source_rows tabKey form) s = (Inr (Some (201, Row (f a))), t)"
  using assms handled_run [OF assms(2), of s a t] by (simp add: data_save_def save_clicked_def run_await with_valid_def)

section \<open>From a form to the list and to the clients\<close>

text \<open>What the documents look like in the lists.\<close>

lemma lines:
  "shown_line number_text context ''customers'' (customers_toDto c) =
    (cu_name c @ dash @ ''card '' @ cu_card c, Some (''/customers/'' @ cu_id c))"
  "shown_line number_text context ''products'' (products_toDto p) =
    (pr_name p @ dash @ ''$'' @ number_text (Some (pr_price p))
       @ (case pr_description p of None \<Rightarrow> [] | Some text \<Rightarrow> if text = [] then [] else dash @ text), None)"
  "shown_line number_text context ''locations'' (addresses_toDto a) =
    (ad_address a @ '' ('' @ number_text (Some (latitude (ad_location a))) @ '', '' @ number_text (Some (longitude (ad_location a))) @ '')'',
     Some (''/addresses/'' @ ad_id a))"
  "shown_line number_text context ''credit-cards'' (cards_toDto k) =
    (cc_number k @ dash @ card_text (cc_status k)
       @ (case cc_reason k of None \<Rightarrow> [] | Some text \<Rightarrow> if text = [] then [] else '' ('' @ text @ '')''), Some (''/credit-cards/'' @ cc_id k))"
  by (auto simp: shown_line_def renderRow_def row_of_def get_member_def value_text_def filled_def customers_toDto_def products_toDto_def
      addresses_toDto_def cards_toDto_def coordinates_json_def optional_json_def Let_def split: option.split)

text \<open>A customer: a new line, which its button deletes again.\<close>

lemma saved_customer:
  assumes calm: "calm s" and hex: "is_mongo_id (fresh_id s)" "ObjectId (fresh_id s) = fresh_id s"
    and new: "fresh_id s \<notin> cu_id ` set (customers s)" and idle: "\<not> dm_saving form"
    and valid: "CreateCustomerDto_valid dto" and entered: "dto = \<lparr>dc_name = dm_entered form ''name'', dc_card = dm_entered form ''creditCard''\<rparr>"
  shows "\<exists>message. run (data_save hash latlong number_text source_rows ''customers'' form) s =
        (Inr (Some (201, Row (customers_toDto (customer_made dto s)))), with_customer dto s)
    \<and> run (data_list hash latlong number_text status_line context ''customers'') (with_customer dto s) =
        (Inr (message, map (shown_line number_text context ''customers'' \<circ> customers_toDto) (customers s)
           @ [(dc_name dto @ dash @ ''card '' @ dc_card dto, Some (''/customers/'' @ fresh_id s))]), with_customer dto s)
    \<and> run (getCustomerById (fresh_id s)) (with_customer dto s) = (Inr (Some (customer_made dto s)), with_customer dto s)
    \<and> run (respond hash latlong (delete_request (''/customers/'' @ fresh_id s))) (with_customer dto s) = (Inr (204, EmptyAnswer), s)"
proof -
  let ?t = "with_customer dto s"
  have up: "db_link s = Up" "db_link ?t = Up" using calm by (simp_all add: calm_def with_customer_def)
  have known: "map_of DATA_ENTITIES ''customers'' = Some (data_tab ''customers'')" by (rule tab_known) (simp add: tab_names)
  have "dm_entered form ''name'' \<noteq> []" "dm_entered form ''creditCard'' \<noteq> []"
    using valid entered by (auto simp: CreateCustomerDto_valid_def text_within_def)
  then have "CreateCustomerDto_read (data_json (data_body number_text (dm_entered form) source_rows (data_tab ''customers''))) = Some dto"
    by (simp add: customers_form [OF known] entered)
  from save_run [OF idle saves_handled(3), OF this customer_posted [OF calm valid new]]
  have save: "run (data_save hash latlong number_text source_rows ''customers'' form) s =
      (Inr (Some (201, Row (customers_toDto (customer_made dto s)))), ?t)" .
  obtain message where list: "run (data_list hash latlong number_text status_line context ''customers'') ?t =
      (Inr (message, map (shown_line number_text context ''customers'' \<circ> customers_toDto) (customers ?t)), ?t)"
    using lists_shown(5) [OF up(2)] by blast
  have "served_by DELETE (''http://app:4000'' @ ''/customers/'' @ fresh_id s) = Some (CustomersDelete, [fresh_id s])"
    using tab_routes(3) [of "''customers''", OF _ _ hex(1)] by (simp add: tab_names data_routes_def)
  then have del: "handle hash latlong (delete_request (''/customers/'' @ fresh_id s)) =
      answering 204 (\<lambda>_. EmptyAnswer) (customers_delete (fresh_id s))"
    by (simp add: handle_def delete_request_def console_request_def handle_route_def first_param_def Let_def del: append.simps)
  have "delete_one (\<lambda>c. cu_id c = fresh_id s) (customers s @ [customer_made dto s]) = (1, customers s)"
    using new by (intro delete_one_last) simp_all
  then have "run (customers_delete (fresh_id s)) ?t = (Inr (), s)"
    using calm hex up
    by (simp add: customers_delete_def customers_remove_def run_await run_path_id run_db removed_def) (simp add: with_customer_def)
  from save list customer_found [OF calm hex new, of dto] handled_run [OF del this] show ?thesis
    by (simp add: lines)
qed

text \<open>A product: a new line, with its description if it has one.\<close>

lemma saved_product:
  assumes calm: "calm s" and hex: "is_mongo_id (fresh_id s)" "ObjectId (fresh_id s) = fresh_id s"
    and new: "fresh_id s \<notin> pr_id ` set (products s)" and idle: "\<not> dm_saving form"
    and valid: "CreateProductDto_valid dto" and price: "entered_number (dm_entered form ''price'') = Some price"
    and entered: "dto = \<lparr>dp_name = dm_entered form ''name'',
      dp_description = (if dm_entered form ''description'' = [] then None else Some (dm_entered form ''description'')), dp_price = price\<rparr>"
  shows "\<exists>message. run (data_save hash latlong number_text source_rows ''products'' form) s =
        (Inr (Some (201, Row (products_toDto (product_made dto s)))), with_product dto s)
    \<and> run (data_list hash latlong number_text status_line context ''products'') (with_product dto s) =
        (Inr (message, map (shown_line number_text context ''products'' \<circ> products_toDto) (products s)
           @ [(dp_name dto @ dash @ ''$'' @ number_text (Some price)
               @ (if dm_entered form ''description'' = [] then [] else dash @ dm_entered form ''description''), None)]), with_product dto s)
    \<and> run (getProductsById [fresh_id s]) (with_product dto s) = (Inr [product_made dto s], with_product dto s)"
proof -
  let ?t = "with_product dto s"
  have up: "db_link ?t = Up" using calm by (simp add: calm_def with_product_def)
  have known: "map_of DATA_ENTITIES ''products'' = Some (data_tab ''products'')" by (rule tab_known) (simp add: tab_names)
  have "dm_entered form ''name'' \<noteq> []" using valid entered by (auto simp: CreateProductDto_valid_def text_within_def)
  then have "CreateProductDto_read (data_json (data_body number_text (dm_entered form) source_rows (data_tab ''products''))) = Some dto"
    using price by (simp add: products_form [OF known] entered)
  from save_run [OF idle saves_handled(1), OF this product_posted [OF calm valid new]]
  have save: "run (data_save hash latlong number_text source_rows ''products'' form) s =
      (Inr (Some (201, Row (products_toDto (product_made dto s)))), ?t)" .
  obtain message where list: "run (data_list hash latlong number_text status_line context ''products'') ?t =
      (Inr (message, map (shown_line number_text context ''products'' \<circ> products_toDto) (products ?t)), ?t)"
    using lists_shown(1) [OF up] by blast
  from save list product_found [OF calm hex new, of dto] show ?thesis
    by (simp add: lines) (simp add: entered)
qed

text \<open>An address: a line with its new place, found however it is spelt.\<close>

lemma saved_address:
  assumes calm: "calm s" and idle: "\<not> dm_saving form" and valid: "CreateAddressDto_valid dto"
    and place: "entered_number (dm_entered form ''latitude'') = Some lat" "entered_number (dm_entered form ''longitude'') = Some long"
    and entered: "dto = \<lparr>da_address = dm_entered form ''address'', da_latitude = lat, da_longitude = long\<rparr>"
    and spelling: "same_address (trim v) (trim (da_address dto))" "v \<noteq> []"
  shows "\<exists>message shown. run (data_save hash latlong number_text source_rows ''locations'' form) s =
        (Inr (Some (201, Row (addresses_toDto (address_made dto s)))), with_address dto s)
    \<and> run (data_list hash latlong number_text status_line context ''locations'') (with_address dto s) =
        (Inr (message, shown), with_address dto s)
    \<and> (trim (da_address dto) @ '' ('' @ number_text (Some lat) @ '', '' @ number_text (Some long) @ '')'',
       Some (''/addresses/'' @ ad_id (address_made dto s))) \<in> set shown
    \<and> run (getCoordinates v) (with_address dto s) = (Inr \<lparr>latitude = lat, longitude = long\<rparr>, with_address dto s)"
proof -
  let ?t = "with_address dto s"
  have up: "db_link ?t = Up" using calm by (simp add: calm_def with_address_def)
  have known: "map_of DATA_ENTITIES ''locations'' = Some (data_tab ''locations'')" by (rule tab_known) (simp add: tab_names)
  have "dm_entered form ''address'' \<noteq> []" using valid entered by (auto simp: CreateAddressDto_valid_def text_within_def)
  then have "CreateAddressDto_read latlong (data_json (data_body number_text (dm_entered form) source_rows (data_tab ''locations''))) = Some dto"
    using place by (simp add: locations_form [OF known] entered)
  from save_run [OF idle saves_handled(2), OF this address_posted [OF calm valid]]
  have save: "run (data_save hash latlong number_text source_rows ''locations'' form) s =
      (Inr (Some (201, Row (addresses_toDto (address_made dto s)))), ?t)" .
  obtain message where list: "run (data_list hash latlong number_text status_line context ''locations'') ?t =
      (Inr (message, map (shown_line number_text context ''locations'' \<circ> addresses_toDto) (addresses ?t)), ?t)"
    using lists_shown(2) [OF up] by blast
  have "shown_line number_text context ''locations'' (addresses_toDto (address_made dto s))
      \<in> set (map (shown_line number_text context ''locations'' \<circ> addresses_toDto) (addresses ?t))"
    using image_eqI [OF comp_apply [symmetric] address_stored] by simp
  then have "(trim (da_address dto) @ '' ('' @ number_text (Some lat) @ '', '' @ number_text (Some long) @ '')'',
       Some (''/addresses/'' @ ad_id (address_made dto s))) \<in> set (map (shown_line number_text context ''locations'' \<circ> addresses_toDto) (addresses ?t))"
    by (simp add: lines(3) entered)
  moreover have "run (getCoordinates v) ?t = (Inr \<lparr>latitude = lat, longitude = long\<rparr>, ?t)"
    using address_found [OF calm spelling] by (simp add: entered)
  ultimately show ?thesis using save list by blast
qed

text \<open>A card: a line with its number and status, and a charge to it then has the outcome asked for.\<close>

lemma saved_card:
  assumes calm: "calm s" and idle: "\<not> dm_saving form" and valid: "CreateCreditCardDto_valid dto"
    and status: "card_status_of (dm_entered form ''status'') = Some (dk_status dto)"
    and entered: "dk_number dto = dm_entered form ''cardNumber''"
      "dk_reason dto = (if dm_entered form ''declineReason'' = [] then None else Some (Some (dm_entered form ''declineReason'')))"
    and charge: "AuthorizeChargeDto_valid req" "a_card req = dk_number dto" "charge_of s (a_key req) = None"
  shows "\<exists>message shown suffix r u. run (data_save hash latlong number_text source_rows ''credit-cards'' form) s =
        (Inr (Some (201, Row (cards_toDto (card_made dto s)))), with_card dto s)
    \<and> run (data_list hash latlong number_text status_line context ''credit-cards'') (with_card dto s) = (Inr (message, shown), with_card dto s)
    \<and> (dk_number dto @ dash @ dm_entered form ''status'' @ suffix, Some (''/credit-cards/'' @ cc_id (card_made dto s))) \<in> set shown
    \<and> (dm_entered form ''declineReason'' = [] \<or> suffix = '' ('' @ dm_entered form ''declineReason'' @ '')'')
    \<and> run (authorize req) (with_card dto s) = (Inr r, u) \<and> p_success r = (dk_status dto = APPROVE)"
proof -
  let ?t = "with_card dto s" and ?k = "card_made dto s"
  let ?suffix = "case cc_reason ?k of None \<Rightarrow> [] | Some text \<Rightarrow> if text = [] then [] else '' ('' @ text @ '')''"
  have up: "db_link ?t = Up" using calm by (simp add: calm_def with_card_def)
  have known: "map_of DATA_ENTITIES ''credit-cards'' = Some (data_tab ''credit-cards'')" by (rule tab_known) (simp add: tab_names)
  have label: "card_text (dk_status dto) = dm_entered form ''status''"
    using status by (auto simp: card_status_of_def split: if_splits)
  have "dm_entered form ''cardNumber'' \<noteq> []" using valid entered by (auto simp: CreateCreditCardDto_valid_def text_within_def)
  then have "CreateCreditCardDto_read (data_json (data_body number_text (dm_entered form) source_rows (data_tab ''credit-cards''))) = Some dto"
    using status entered by (cases dto) (simp add: cards_form [OF known])
  from save_run [OF idle saves_handled(4), OF this card_posted [OF calm valid]]
  have save: "run (data_save hash latlong number_text source_rows ''credit-cards'' form) s =
      (Inr (Some (201, Row (cards_toDto ?k))), ?t)" .
  obtain message where list: "run (data_list hash latlong number_text status_line context ''credit-cards'') ?t =
      (Inr (message, map (shown_line number_text context ''credit-cards'' \<circ> cards_toDto) (cards ?t)), ?t)"
    using lists_shown(6) [OF up] by blast
  have "shown_line number_text context ''credit-cards'' (cards_toDto ?k)
      \<in> set (map (shown_line number_text context ''credit-cards'' \<circ> cards_toDto) (cards ?t))"
    using image_eqI [OF comp_apply [symmetric] card_stored] by simp
  then have line: "(dk_number dto @ dash @ dm_entered form ''status'' @ ?suffix, Some (''/credit-cards/'' @ cc_id ?k))
      \<in> set (map (shown_line number_text context ''credit-cards'' \<circ> cards_toDto) (cards ?t))"
    by (simp only: lines(4) card_made_simps label)
  have "dm_entered form ''declineReason'' = [] \<or> ?suffix = '' ('' @ dm_entered form ''declineReason'' @ '')''"
    using entered(2) by (auto simp: card_upsert_def upsert_def given_def split: option.split)
  moreover obtain r u where "run (authorize req) ?t = (Inr r, u)" "p_success r = (dk_status dto = APPROVE)"
    using card_charged [OF calm charge] by blast
  ultimately show ?thesis using save list line by blast
qed

text \<open>A warehouse: where the chosen location is, and its line says so as long as no other address is there.\<close>

lemma address_row [simp]:
  "row_of (addresses_toDto a) ''id'' = Some (TextOf (ad_id a))" "row_of (addresses_toDto a) ''address'' = Some (TextOf (ad_address a))"
  "row_of (addresses_toDto a) ''latitude'' = Some (NumberOf (Some (latitude (ad_location a))))"
  "row_of (addresses_toDto a) ''longitude'' = Some (NumberOf (Some (longitude (ad_location a))))"
  by (simp_all add: row_of_def addresses_toDto_def coordinates_json_def get_member_def)

definition warehouse_at :: "mock_address \<Rightarrow> world \<Rightarrow> warehouse" where
  "warehouse_at a s = \<lparr>w_id = fresh_id s, w_location = ad_location a\<rparr>"

definition with_warehouse :: "mock_address \<Rightarrow> world \<Rightarrow> world" where
  "with_warehouse a s = s\<lparr>warehouses := warehouses s @ [warehouse_at a s]\<rparr>"

lemma warehouse_line:
  assumes "a \<in> set found" and "ad_address a \<noteq> []"
    and "\<And>b. b \<in> set found \<Longrightarrow> coordKey number_text (row_of (addresses_toDto b)) = coordKey number_text (row_of (addresses_toDto a)) \<Longrightarrow>
      ad_address b = ad_address a"
  shows "fst (shown_line number_text (Some (loadWarehouseAddressContext number_text (map (row_of \<circ> addresses_toDto) found))) ''warehouses''
      (warehouses_toDto (warehouse_at a s))) =
    fresh_id s @ dash @ ad_address a @ dash @ ''('' @ number_text (Some (latitude (ad_location a))) @ '', ''
      @ number_text (Some (longitude (ad_location a))) @ '')''"
proof -
  let ?row = "row_of (warehouses_toDto (warehouse_at a s))"
  have row: "?row ''id'' = Some (TextOf (fresh_id s))" "?row ''latitude'' = Some (NumberOf (Some (latitude (ad_location a))))"
    "?row ''longitude'' = Some (NumberOf (Some (longitude (ad_location a))))"
    by (simp_all add: row_of_def warehouses_toDto_def coordinates_json_def get_member_def warehouse_at_def)
  have "map_of (loadWarehouseAddressContext number_text (map (row_of \<circ> addresses_toDto) found)) (coordKey number_text ?row) =
      Some (value_text number_text (row_of (addresses_toDto a) ''address''))"
  proof (rule warehouse_address)
    show "row_of (addresses_toDto a) \<in> set (map (row_of \<circ> addresses_toDto) found)" using assms(1) by simp
    show "other ''address'' = row_of (addresses_toDto a) ''address''"
      if "other \<in> set (map (row_of \<circ> addresses_toDto) found)" "coordKey number_text other = coordKey number_text (row_of (addresses_toDto a))" for other
      using that assms(3) by auto
    show "coordKey number_text ?row = coordKey number_text (row_of (addresses_toDto a))" by (simp add: coordKey_def row)
  qed
  with assms(2) show ?thesis
    by (simp add: shown_line_def renderRow_def warehouseLabel_def Let_def row value_text_def)
qed

lemma saved_warehouse:
  assumes calm: "calm s" and new: "fresh_id s \<notin> w_id ` set (warehouses s)" and idle: "\<not> dm_saving form"
    and place: "a \<in> set (addresses s)" "distinct (map ad_id (addresses s))" "ad_id a \<noteq> []"
    and valid: "is_latitude (latitude (ad_location a))" "is_longitude (longitude (ad_location a))"
    and choice: "dm_entered form ''locationId'' = ad_id a" "source_rows ''locationId'' = map (row_of \<circ> addresses_toDto) (addresses s)"
  shows "\<exists>message. run (data_save hash latlong number_text source_rows ''warehouses'' form) s =
        (Inr (Some (201, Row (warehouses_toDto (warehouse_at a s)))), with_warehouse a s)
    \<and> run (data_list hash latlong number_text status_line context ''warehouses'') (with_warehouse a s) =
        (Inr (message, map (shown_line number_text context ''warehouses'' \<circ> warehouses_toDto) (warehouses s @ [warehouse_at a s])),
         with_warehouse a s)"
proof -
  let ?dto = "\<lparr>dw_latitude = latitude (ad_location a), dw_longitude = longitude (ad_location a)\<rparr>"
  have up: "db_link (with_warehouse a s) = Up" using calm by (simp add: calm_def with_warehouse_def)
  have known: "map_of DATA_ENTITIES ''warehouses'' = Some (data_tab ''warehouses'')" by (rule tab_known) (simp add: tab_names)
  have body: "CreateWarehouseDto_read latlong (data_json (data_body number_text (dm_entered form) source_rows (data_tab ''warehouses''))) = Some ?dto"
    by (rule warehouses_form) (fact known place choice)+
  have "run (warehouses_post ?dto) s = (Inr (warehouse_at a s), with_warehouse a s)"
    using calm valid new
    by (simp add: warehouses_post_def run_validated CreateWarehouseDto_valid_def warehouses_create_def run_db calm_def insert_unique_def
        warehouse_at_def with_warehouse_def Let_def)
  from save_run [OF idle saves_handled(5), OF body this] lists_shown(3) [OF up]
  show ?thesis by (simp add: with_warehouse_def)
qed

text \<open>Stock: the level of the product at the warehouse goes up by what was entered.\<close>

lemma saved_stock:
  assumes calm: "calm s" and idle: "\<not> dm_saving form" and dist: "distinct (map stock_key (stock s))"
    and ids: "is_mongo_id (dm_entered form ''warehouseId'')" "is_mongo_id (dm_entered form ''productId'')"
    and quantity: "whole (entered_number (dm_entered form ''quantity'')) = Some n" "0 < n"
  shows "\<exists>row t. run (data_save hash latlong number_text source_rows ''stock'' form) s = (Inr (Some (201, Row (stock_toDto row))), t)
    \<and> level (stock t) w p = level (stock s) w p +
        (if (ObjectId (dm_entered form ''warehouseId''), ObjectId (dm_entered form ''productId'')) = (w, p) then n else 0)"
proof -
  let ?dto = "\<lparr>as_warehouse = dm_entered form ''warehouseId'', as_product = dm_entered form ''productId'', as_quantity = n\<rparr>"
  have known: "map_of DATA_ENTITIES ''stock'' = Some (data_tab ''stock'')" by (rule tab_known) (simp add: tab_names)
  have "dm_entered form ''warehouseId'' \<noteq> []" "dm_entered form ''productId'' \<noteq> []" using ids by (auto simp: is_mongo_id_def)
  then have body: "AddStockDto_read (data_json (data_body number_text (dm_entered form) source_rows (data_tab ''stock''))) = Some ?dto"
    using quantity by (simp add: stock_form [OF known])
  obtain r t where made: "add_stock_op ?dto s = (r, t)" by (cases "add_stock_op ?dto s")
  then obtain row where "r = Inr row" by (auto simp: add_stock_op_def Let_def split: prod.splits)
  with made have op: "add_stock_op ?dto s = (Inr row, t)" by simp
  then have "run (stock_post ?dto) s = (Inr row, t)"
    using calm ids quantity by (simp add: stock_post_def run_validated AddStockDto_valid_def addStock_def run_db calm_def)
  from save_run [OF idle saves_handled(6), OF body this] add_stock_level [OF op dist, of w p] show ?thesis by auto
qed

section \<open>From the order form to an order\<close>

text \<open>The console tells the two kinds of answer apart: a success is a document or nothing, a failure a message.\<close>

lemma good_fetched: "good_answer r \<Longrightarrow> \<exists>body. fetched status_line r = Inr body"
  by (cases "snd r") (auto simp: good_answer_def fetched_def reply_of_def apiFetch_def ok_status_def)

lemma bad_fetched: "bad_answer r \<Longrightarrow> \<exists>message. fetched status_line r = Inl message"
  by (auto simp: bad_answer_def fetched_def reply_of_def apiFetch_def ok_status_def internal_error_def Let_def)

text \<open>A click on the submit button: the page while it waits, and the answer to the request, if one goes out.\<close>

definition order_submit :: "(string \<Rightarrow> string) \<Rightarrow> (string \<Rightarrow> rat option) \<Rightarrow> string \<Rightarrow> order_page \<Rightarrow> (order_page \<times> (int \<times> response_body) option) io" where
  "order_submit hash latlong generated page =
     (case submit_clicked generated page of
        (page', None) \<Rightarrow> Return (page', None)
      | (page', Some (key, body)) \<Rightarrow>
          await (respond hash latlong (console_request POST ''/orders'' [key] (Sent (order_json body)))) (\<lambda>r. Return (page', Some r)))"

lemma order_placed:
  fixes hash :: "string \<Rightarrow> string"
  assumes sent: "submit_clicked generated page = (page', Some (key, body))" and key: "extractIdempotencyKey [key] = Inr key"
    and received: "received body = Some dto" and ok: "acceptable s dto key" "consistent s"
  defines "r \<equiv> OrderResponseDto_from (accepted_order hash dto key s)"
  shows "\<exists>t. run (order_submit hash latlong generated page) s = (Inr (page', Some (202, OrderAnswer r)), t)
    \<and> fetched status_line (202, OrderAnswer r) = Inr (Some (OrderAnswer r))
    \<and> length (orders t) = length (orders s) + 1 \<and> map oi_quantity (or_items r) = map it_quantity (co_items dto)
    \<and> ms_text (op_message (submit_answered next_key (Inr r) listing page')) = ''Order created: '' @ or_order r @ '' (PENDING)''"
proof -
  have "CreateOrderDto_valid dto" using ok(1) by (simp add: acceptable_def)
  with key have route: "orders_create hash [key] dto = acceptOrder hash dto key" by (simp add: orders_create_def)
  let ?t = "s\<lparr>orders := orders s @ [accepted_order hash dto key s], outbox := outbox s @ [created_event (fresh_id s) (fresh_id s) (now s)]\<rparr>"
  have "run (respond hash latlong (console_request POST ''/orders'' [key] (Sent (order_json body)))) s = (Inr (202, OrderAnswer r), ?t)"
    using accept_creates_run [OF ok, of hash, folded r_def] received
    by (intro order_posted [of hash key dto]) (simp_all add: route order_read_json)
  moreover obtain loc items amount where priced: "priceOrder dto (catalogue_answer s (map it_product (co_items dto))) = Inr (items, amount)"
    and ord: "accepted_order hash dto key s = new_order (fresh_id s) key (fingerprintRequest hash dto) dto loc items amount (now s)"
    using accepted_parts [OF ok(1), of hash] by blast
  have "or_status r = PENDING" "map oi_quantity (or_items r) = map it_quantity (co_items dto)"
    using priced price_items_shape by (auto simp: r_def ord OrderResponseDto_from_def new_order_def comp_def priceOrder_def split: sum.splits)
  ultimately show ?thesis
    by (simp add: order_submit_def sent run_await fetched_def reply_of_def apiFetch_def ok_status_def submit_answered_def
        autofillIdempotencyKey_def setMessage_def Let_def)
qed

end
